(* ===== verification/Fuso_Prelude.thy ===== *)
theory Fuso_Prelude
  imports Main "HOL-Library.Word" "HOL-Library.AList"
begin

text \<open>
  Shared vocabulary of the development.

  \<^item> machine integers of the Rust code as words, with the checked and saturating
    operations of the standard library;
  \<^item> fallible code: the result type \<open>'e + 'a\<close>, the \<open>?\<close> operator as
    \<open>rbind\<close>, the \<open>ensure!\<close> macro as \<open>ensure\<close>, \<open>Option::ok_or\<close>, and a loop
    whose body may fail as \<open>rfold\<close>;
  \<^item> little-endian byte encodings (\<open>from_le_bytes\<close>, \<open>to_le_bytes\<close>);
  \<^item> \<open>msum\<close>, the sum of a weight over the entries of a finite storage map, with the laws
    that a single storage write obeys: every ledger invariant of the development is stated
    with it.

  Plain \<open>+\<close>, \<open>-\<close> and \<open>*\<close> of the Rust code wrap around on words: the release profile
  of the workspace leaves overflow checks off.
\<close>

named_theorems res_simps \<open>inversion of successful and failed results\<close>

type_synonym u8 = "8 word"
type_synonym u16 = "16 word"
type_synonym u32 = "32 word"
type_synonym u64 = "64 word"
type_synonym u128 = "128 word"
type_synonym bytes = "u8 list"
type_synonym account = bytes
type_synonym token_id = u32


section \<open>Results\<close>

definition rbind :: "'e + 'a \<Rightarrow> ('a \<Rightarrow> 'e + 'b) \<Rightarrow> 'e + 'b" where
  "rbind r k = (case r of Inl e \<Rightarrow> Inl e | Inr x \<Rightarrow> k x)"

definition ensure :: "bool \<Rightarrow> 'e \<Rightarrow> 'e + 'a \<Rightarrow> 'e + 'a" where
  "ensure c e k = (if c then k else Inl e)"

definition ok_or :: "'a option \<Rightarrow> 'e \<Rightarrow> 'e + 'a" where
  "ok_or v e = (case v of None \<Rightarrow> Inl e | Some x \<Rightarrow> Inr x)"

fun rfold :: "('x \<Rightarrow> 's \<Rightarrow> 'e + 's) \<Rightarrow> 'x list \<Rightarrow> 's \<Rightarrow> 'e + 's" where
  "rfold f [] s = Inr s"
| "rfold f (x # xs) s = rbind (f x s) (rfold f xs)"

lemma rbind_simps [simp]: "rbind (Inl e) k = Inl e" "rbind (Inr x) k = k x"
  by (simp_all add: rbind_def)

lemma ensure_simps [simp]: "ensure True e k = k" "ensure False e k = Inl e"
  by (simp_all add: ensure_def)

lemma ok_or_simps [simp]: "ok_or None e = Inl e" "ok_or (Some x) e = Inr x"
  by (simp_all add: ok_or_def)

lemma rbind_eq_Inr [res_simps]:
  "rbind r k = Inr y \<longleftrightarrow> (\<exists>x. r = Inr x \<and> k x = Inr y)"
  by (cases r) auto

lemma rbind_eq_Inl:
  "rbind r k = Inl e \<longleftrightarrow> r = Inl e \<or> (\<exists>x. r = Inr x \<and> k x = Inl e)"
  by (cases r) auto

lemma ensure_eq_Inr [res_simps]: "ensure c e k = Inr y \<longleftrightarrow> c \<and> k = Inr y"
  by (simp add: ensure_def)

lemma ensure_eq_Inl: "ensure c e k = Inl e' \<longleftrightarrow> (\<not> c \<and> e = e') \<or> (c \<and> k = Inl e')"
  by (auto simp: ensure_def)

lemma ok_or_eq_Inr [res_simps]: "ok_or v e = Inr y \<longleftrightarrow> v = Some y"
  by (cases v) auto

lemma ok_or_eq_Inl: "ok_or v e = Inl e' \<longleftrightarrow> v = None \<and> e = e'"
  by (cases v) auto

lemma rbind_cong [fundef_cong]:
  "r = r' \<Longrightarrow> (\<And>x. r' = Inr x \<Longrightarrow> k x = k' x) \<Longrightarrow> rbind r k = rbind r' k'"
  by (cases r') auto

lemma rfold_append: "rfold f (xs @ ys) s = rbind (rfold f xs s) (rfold f ys)"
proof (induction xs arbitrary: s)
  case Nil
  then show ?case by simp
next
  case (Cons x xs)
  show ?case by (cases "f x s") (auto simp: Cons.IH)
qed

lemma rfold_invariant:
  assumes "rfold f xs s = Inr s'" and "P s"
    and "\<And>x s s'. x \<in> set xs \<Longrightarrow> P s \<Longrightarrow> f x s = Inr s' \<Longrightarrow> P s'"
  shows "P s'"
  using assms
proof (induction xs arbitrary: s)
  case Nil
  then show ?case by simp
next
  case (Cons x xs)
  from Cons.prems(1) obtain t where "f x s = Inr t" "rfold f xs t = Inr s'"
    by (auto simp: res_simps)
  with Cons show ?case by (metis list.set_intros)
qed


section \<open>Checked arithmetic\<close>

definition checked_add :: "'a::len word \<Rightarrow> 'a word \<Rightarrow> 'a word option" where
  "checked_add a b = (if unat a + unat b < 2 ^ LENGTH('a) then Some (a + b) else None)"

definition checked_sub :: "'a::len word \<Rightarrow> 'a word \<Rightarrow> 'a word option" where
  "checked_sub a b = (if b \<le> a then Some (a - b) else None)"

definition saturating_add :: "'a::len word \<Rightarrow> 'a word \<Rightarrow> 'a word" where
  "saturating_add a b = (if unat a + unat b < 2 ^ LENGTH('a) then a + b else - 1)"

definition saturating_sub :: "'a::len word \<Rightarrow> 'a word \<Rightarrow> 'a word" where
  "saturating_sub a b = (if b \<le> a then a - b else 0)"

definition saturating_mul :: "'a::len word \<Rightarrow> 'a word \<Rightarrow> 'a word" where
  "saturating_mul a b = (if unat a * unat b < 2 ^ LENGTH('a) then a * b else - 1)"

lemma unat_add_no_wrap:
  "unat a + unat b < 2 ^ LENGTH('a) \<Longrightarrow> unat (a + b) = unat a + unat b"
  for a b :: "'a::len word"
  by (simp add: unat_word_ariths)

lemma unat_sub_no_wrap: "b \<le> a \<Longrightarrow> unat (a - b) = unat a - unat b"
  for a b :: "'a::len word"
  by (rule unat_sub)

lemma checked_add_Some:
  "checked_add a b = Some c \<longleftrightarrow> unat c = unat a + unat b"
  for a b :: "'a::len word"
proof
  assume "checked_add a b = Some c"
  then show "unat c = unat a + unat b"
    by (auto simp: checked_add_def unat_add_no_wrap split: if_splits)
next
  assume c: "unat c = unat a + unat b"
  have "unat a + unat b < 2 ^ LENGTH('a)"
    unfolding c [symmetric] by (rule unsigned_less)
  moreover from this have "a + b = c"
    using c by (metis unat_add_no_wrap word_unat_eq_iff)
  ultimately show "checked_add a b = Some c"
    by (simp add: checked_add_def)
qed

lemma checked_add_None:
  "checked_add a b = None \<longleftrightarrow> 2 ^ LENGTH('a) \<le> unat a + unat b"
  for a b :: "'a::len word"
  by (auto simp: checked_add_def)

lemma checked_sub_Some:
  "checked_sub a b = Some c \<longleftrightarrow> unat a = unat b + unat c"
  for a b :: "'a::len word"
proof
  assume "checked_sub a b = Some c"
  then show "unat a = unat b + unat c"
    by (auto simp: checked_sub_def unat_sub word_le_nat_alt split: if_splits)
next
  assume eq: "unat a = unat b + unat c"
  then have "b \<le> a" by (simp add: word_le_nat_alt)
  moreover have "a - b = c"
    using \<open>b \<le> a\<close> eq by (metis add_diff_cancel_left' unat_sub word_unat_eq_iff)
  ultimately show "checked_sub a b = Some c" by (simp add: checked_sub_def)
qed

lemma checked_add_value: "checked_add a b = Some c \<Longrightarrow> c = a + b"
  by (auto simp: checked_add_def split: if_splits)

lemma checked_sub_value: "checked_sub a b = Some c \<Longrightarrow> c = a - b"
  by (auto simp: checked_sub_def split: if_splits)

lemma unat_eq_0_iff: "unat a = 0 \<longleftrightarrow> a = 0" for a :: "'a::len word"
  by (rule unat_eq_zero)


section \<open>Little-endian bytes\<close>

fun le_nat :: "bytes \<Rightarrow> nat" where
  "le_nat [] = 0"
| "le_nat (b # bs) = unat b + 256 * le_nat bs"

fun nat_le :: "nat \<Rightarrow> nat \<Rightarrow> bytes" where
  "nat_le 0 n = []"
| "nat_le (Suc k) n = of_nat (n mod 256) # nat_le k (n div 256)"

definition from_le_bytes :: "bytes \<Rightarrow> 'a::len word" where
  "from_le_bytes bs = of_nat (le_nat bs)"

definition to_le_bytes :: "nat \<Rightarrow> 'a::len word \<Rightarrow> bytes" where
  "to_le_bytes k w = nat_le k (unat w)"

lemma length_nat_le [simp]: "length (nat_le k n) = k"
  by (induction k arbitrary: n) auto

lemma length_to_le_bytes [simp]: "length (to_le_bytes k w) = k"
  by (simp add: to_le_bytes_def)

lemma le_nat_bound: "le_nat bs < 256 ^ length bs"
proof (induction bs)
  case Nil
  then show ?case by simp
next
  case (Cons b bs)
  have "unat b < 256" using unsigned_less [of b] by simp
  with Cons.IH show ?case by simp
qed

lemma le_nat_nat_le: "n < 256 ^ k \<Longrightarrow> le_nat (nat_le k n) = n"
proof (induction k arbitrary: n)
  case 0
  then show ?case by simp
next
  case (Suc k)
  then have "n div 256 < 256 ^ k" by (simp add: less_mult_imp_div_less mult.commute)
  moreover have "unat (of_nat (n mod 256) :: u8) = n mod 256"
    by (simp add: unat_of_nat)
  ultimately show ?case using Suc.IH by simp
qed

lemma from_to_le_bytes:
  fixes w :: "'a::len word"
  assumes "LENGTH('a) = 8 * k"
  shows "(from_le_bytes (to_le_bytes k w) :: 'a word) = w"
proof -
  have "(2::nat) ^ LENGTH('a) = 256 ^ k"
    using power_mult [of "2::nat" 8 k] by (simp add: assms)
  moreover have "unat w < 2 ^ LENGTH('a)" by (rule unsigned_less)
  ultimately have "unat w < 256 ^ k" by simp
  then show ?thesis by (simp add: from_le_bytes_def to_le_bytes_def le_nat_nat_le)
qed


section \<open>Sums over storage maps\<close>

definition owt :: "('v \<Rightarrow> 'n::comm_monoid_add) \<Rightarrow> 'v option \<Rightarrow> 'n" where
  "owt w v = (case v of None \<Rightarrow> 0 | Some x \<Rightarrow> w x)"

definition msum :: "('v \<Rightarrow> 'n::comm_monoid_add) \<Rightarrow> ('k \<rightharpoonup> 'v) \<Rightarrow> 'n" where
  "msum w m = (\<Sum>k\<in>dom m. w (the (m k)))"

lemma owt_simps [simp]: "owt w None = 0" "owt w (Some x) = w x"
  by (simp_all add: owt_def)

lemma msum_empty [simp]: "msum w Map.empty = 0"
  by (simp add: msum_def)

lemma finite_dom_upd [simp]: "finite (dom (m(k := v))) \<longleftrightarrow> finite (dom m)"
proof -
  have "dom (m(k := v)) \<subseteq> insert k (dom m)" "dom m \<subseteq> insert k (dom (m(k := v)))"
    by (auto simp: dom_def)
  then show ?thesis by (meson finite.insertI finite_subset)
qed

lemma msum_remove:
  assumes "finite (dom m)"
  shows "msum w m = owt w (m k) + msum w (m(k := None))"
proof (cases "m k")
  case None
  then have "m(k := None) = m" by auto
  with None show ?thesis by simp
next
  case (Some x)
  then have "k \<in> dom m" by auto
  then have "msum w m = w (the (m k)) + (\<Sum>j\<in>dom m - {k}. w (the (m j)))"
    unfolding msum_def by (rule sum.remove [OF assms])
  also have "(\<Sum>j\<in>dom m - {k}. w (the (m j))) = msum w (m(k := None))"
    unfolding msum_def by (rule sum.cong) auto
  finally show ?thesis using Some by simp
qed

lemma msum_update:
  assumes "finite (dom m)"
  shows "msum w (m(k := v)) + owt w (m k) = msum w m + owt w v"
proof -
  have "msum w (m(k := v)) = owt w v + msum w (m(k := None))"
    using msum_remove [of "m(k := v)" w k] assms by simp
  moreover have "msum w m = owt w (m k) + msum w (m(k := None))"
    by (rule msum_remove [OF assms])
  ultimately show ?thesis by (simp add: ac_simps)
qed

lemma msum_update_group:
  fixes w :: "'v \<Rightarrow> 'n::ab_group_add"
  assumes "finite (dom m)"
  shows "msum w (m(k := v)) = msum w m - owt w (m k) + owt w v"
  using msum_update [OF assms, of w k v] by (simp add: algebra_simps)

lemma owt_le_msum:
  fixes w :: "'v \<Rightarrow> nat"
  assumes "finite (dom m)"
  shows "owt w (m k) \<le> msum w m"
  using msum_remove [OF assms, of w k] by simp

end
