(* ===== verification/Fuso_Support.thy ===== *)
theory Fuso_Support
  imports Fuso_Prelude
begin

text \<open>
  The crate \<^verbatim>\<open>fuso-support\<close> and what every pallet shares: the reserve and status
  constants, \<open>xtoken\<close> (enum \<^verbatim>\<open>XToken\<close>), the bridge's resource identifiers, the errors and
  events of the pallets, origins, and the part of the chain state that belongs to the
  platform (block number, nonces, the event log, the state of \<^verbatim>\<open>pallet_balances\<close>).

  Code outside the repository is a parameter: the record \<open>env\<close> holds the functions of
  \<^verbatim>\<open>pallet_balances\<close> (over an abstract state of type \<open>'b\<close>), the fixed-point functions of
  \<^verbatim>\<open>sp_arithmetic\<close> and the account lookup. The type of nonces (\<^verbatim>\<open>T::Index\<close>), which the code leaves
  to the runtime, is fixed at 64 bits here; the mock runtime of the agent pallet takes 32. \<open>balances_spec\<close> states the documented behaviour of
  \<^verbatim>\<open>pallet_balances\<close> that some properties rely on.

  A panic (an index out of range, a division by zero, an \<open>unwrap\<close> of \<open>None\<close>) is the error
  \<open>Panicked\<close>, which no handler of the code catches.
\<close>

section \<open>Constants\<close>

definition RESERVE_FOR_STAKING :: u8 where "RESERVE_FOR_STAKING = 0"
definition RESERVE_FOR_AUTHORIZING :: u8 where "RESERVE_FOR_AUTHORIZING = 1"
definition RESERVE_FOR_AUTHORIZING_STASH :: u8 where "RESERVE_FOR_AUTHORIZING_STASH = 2"
definition RESERVE_FOR_PENDING_UNSTAKE :: u8 where "RESERVE_FOR_PENDING_UNSTAKE = 3"
definition DOMINATOR_REGISTERED :: u8 where "DOMINATOR_REGISTERED = 0"
definition DOMINATOR_INACTIVE :: u8 where "DOMINATOR_INACTIVE = 1"
definition DOMINATOR_ACTIVE :: u8 where "DOMINATOR_ACTIVE = 2"
definition DOMINATOR_EVICTED :: u8 where "DOMINATOR_EVICTED = 3"
definition STANDARD_DECIMALS :: u8 where "STANDARD_DECIMALS = 18"
definition MAX_DECIMALS :: u8 where "MAX_DECIMALS = 24"

lemmas reserve_ids =
  RESERVE_FOR_STAKING_def RESERVE_FOR_AUTHORIZING_def
  RESERVE_FOR_AUTHORIZING_STASH_def RESERVE_FOR_PENDING_UNSTAKE_def

lemmas dominator_statuses =
  DOMINATOR_REGISTERED_def DOMINATOR_INACTIVE_def DOMINATOR_ACTIVE_def DOMINATOR_EVICTED_def


section \<open>External tokens and chains\<close>

type_synonym chain_id = u16
type_synonym deposit_nonce = u64
type_synonym resource_id = bytes
type_synonym evm_hash = bytes
type_synonym merkle_hash = bytes

text \<open>Constructor arguments: symbol, contract, total, stable, decimals.\<close>

datatype xtoken =
    NEP141 bytes bytes u128 bool u8
  | ERC20 bytes bytes u128 bool u8
  | BEP20 bytes bytes u128 bool u8
  | FND10 bytes u128

fun xtoken_is_stable :: "xtoken \<Rightarrow> bool" where
  "xtoken_is_stable (NEP141 _ _ _ st _) = st"
| "xtoken_is_stable (ERC20 _ _ _ st _) = st"
| "xtoken_is_stable (BEP20 _ _ _ st _) = st"
| "xtoken_is_stable (FND10 _ _) = False"

fun xtoken_symbol :: "xtoken \<Rightarrow> bytes" where
  "xtoken_symbol (NEP141 symbol _ _ _ _) = symbol"
| "xtoken_symbol (ERC20 symbol _ _ _ _) = symbol"
| "xtoken_symbol (BEP20 symbol _ _ _ _) = symbol"
| "xtoken_symbol (FND10 symbol _) = symbol"

fun xtoken_contract :: "xtoken \<Rightarrow> bytes" where
  "xtoken_contract (NEP141 _ contract _ _ _) = contract"
| "xtoken_contract (ERC20 _ contract _ _ _) = contract"
| "xtoken_contract (BEP20 _ contract _ _ _) = contract"
| "xtoken_contract (FND10 _ _) = []"


section \<open>Errors and events\<close>

datatype (plugins only: code) tok_err =
    AmountZero | BalanceLow | BalanceZero | InvalidTokenName | InvalidToken
  | InsufficientBalance | Overflow | TooManyReserves | InvalidDecimals | ContractError

datatype (plugins only: code) vrf_err =
    DominatorNotFound | ProofsUnsatisfied | IllegalParameters | ReceiptNotExists
  | ChainNotSupport | ReceiptAlreadyExists | DominatorAlreadyExists | TooEarlyToRegister
  | DominatorInactive | InsufficientBalance | Overflow | InsufficientStakingAmount
  | InvalidName | InvalidStatus | InvalidStaking | StakingNotExists | DistributionOngoing
  | LittleStakingAmount | UnsupportedQuoteCurrency | DominatorEvicted
  | DominatorStatusInvalid | FeesTooHigh | ProofDecompressError | ProofFormatError
  | ProofTooLarge | BrokerNotFound | BrokerAlreadyRegistered | InvalidBeneficiaryProof

datatype (plugins only: code) brg_err =
    ThresholdNotSet | InvalidChainId | InvalidThreshold | ChainNotWhitelisted
  | ChainAlreadyWhitelisted | ResourceDoesNotExist | RelayerAlreadyExists | RelayerInvalid
  | MustBeRelayer | RelayerAlreadyVoted | ProposalAlreadyExists | ProposalDoesNotExist
  | ProposalNotComplete | ProposalAlreadyComplete | ProposalExpired | ResourceIdNotMapToToken

datatype (plugins only: code) hdl_err =
    InvalidTransfer | InvalidTokenId | InvalidResourceId | WrongAssetId | InvalidTokenName
  | OverTransferLimit | AssetAlreadyExists | InvalidCallMessage | RegisterAgentFailed
  | DepositerNotFound | PriceOverflow | LessThanBridgingThreshold

datatype (plugins only: code) rwd_err = Overflow | DivideByZero | RewardNotFound

datatype (plugins only: code) agt_err = InvalidSignature

text \<open>
  \<open>External\<close> stands for an error of a pallet outside the repository, which the code only
  passes on.
\<close>

datatype (plugins only: code) error =
    TokenE tok_err | VerifierE vrf_err | BridgeE brg_err | HandlerE hdl_err
  | RewardE rwd_err | AgentE agt_err
  | BadOrigin | CannotLookup | OtherE string | External nat | Panicked

datatype (plugins only: code) tok_event =
    TokenIssued token_id bytes
  | TokenTransfered token_id account account u128
  | TokenReserved token_id account u128
  | TokenUnreserved token_id account u128
  | TokenMinted token_id account u128
  | TokenBurned token_id account u128
  | TokenRepatriated token_id account account u128

datatype (plugins only: code) vrf_event =
    DominatorClaimed account
  | CoinHosted account account u128
  | TokenHosted account account token_id u128
  | CoinRevoked account account u128
  | TokenRevoked account account token_id u128
  | ProofAccepted account u32
  | ProofRejected account u32
  | TaoStaked account account u128
  | TaoUnstaked account account u128
  | TaoUnstakeUnlock account u128
  | DominatorOnline account
  | DominatorOffline account
  | DominatorSlashed account
  | DominatorEvicted account
  | DominatorInactive account
  | DominatorX25519KeyUpdated account bytes
  | DominatorRpcEndpointUpdated account bytes

datatype (plugins only: code) brg_event =
    RelayerThresholdChanged u32
  | ChainWhitelisted chain_id
  | RelayerAdded account
  | RelayerRemoved account
  | FungibleTransfer chain_id deposit_nonce resource_id "256 word" bytes
  | NonFungibleTransfer chain_id deposit_nonce resource_id bytes bytes bytes
  | GenericTransfer chain_id deposit_nonce resource_id bytes
  | VoteFor chain_id deposit_nonce account
  | VoteAgainst chain_id deposit_nonce account
  | ProposalApproved chain_id deposit_nonce
  | ProposalRejected chain_id deposit_nonce
  | ProposalSucceeded chain_id deposit_nonce
  | ProposalFailed chain_id deposit_nonce
  | ProposalVote chain_id evm_hash deposit_nonce

datatype (plugins only: code) rwd_event = RewardClaimed account u128 | EraRewardsUpdated u128

datatype (plugins only: code) ind_event = PriceUpdated token_id u128

datatype (plugins only: code) fnd_event = PreLockedFundUnlocked account u128 | UnlockedFundAllBalance account

datatype (plugins only: code) agt_event = ExternalTransactionExecuted account "error + unit"

datatype (plugins only: code) event =
    TokenEv tok_event | VerifierEv vrf_event | BridgeEv brg_event | RewardEv rwd_event
  | IndicatorEv ind_event | FoundationEv fnd_event | AgentEv agt_event

type_synonym 'a result = "error + 'a"


section \<open>Panics\<close>

definition index :: "'a list \<Rightarrow> nat \<Rightarrow> 'a result" where
  "index xs i = (if i < length xs then Inr (xs ! i) else Inl Panicked)"

definition last_unwrap :: "'a list \<Rightarrow> 'a result" where
  "last_unwrap xs = (if xs = [] then Inl Panicked else Inr (last xs))"

definition unwrap :: "'a option \<Rightarrow> 'a result" where
  "unwrap v = ok_or v Panicked"

definition rem_u32 :: "u32 \<Rightarrow> u32 \<Rightarrow> u32 result" where
  "rem_u32 a b = (if b = 0 then Inl Panicked else Inr (a mod b))"

definition div_u32 :: "u32 \<Rightarrow> u32 \<Rightarrow> u32 result" where
  "div_u32 a b = (if b = 0 then Inl Panicked else Inr (a div b))"

lemma index_eq_Inr [res_simps]: "index xs i = Inr x \<longleftrightarrow> i < length xs \<and> x = xs ! i"
  by (auto simp: index_def)

lemma last_unwrap_eq_Inr [res_simps]: "last_unwrap xs = Inr x \<longleftrightarrow> xs \<noteq> [] \<and> x = last xs"
  by (auto simp: last_unwrap_def)

lemma unwrap_eq_Inr [res_simps]: "unwrap v = Inr x \<longleftrightarrow> v = Some x"
  by (simp add: unwrap_def res_simps)

lemma rem_u32_eq_Inr [res_simps]: "rem_u32 a b = Inr c \<longleftrightarrow> b \<noteq> 0 \<and> c = a mod b"
  by (auto simp: rem_u32_def)

lemma div_u32_eq_Inr [res_simps]: "div_u32 a b = Inr c \<longleftrightarrow> b \<noteq> 0 \<and> c = a div b"
  by (auto simp: div_u32_def)

text \<open>\<open>caught r s\<close>: the state after \<open>if let Err(e) = r { log }\<close> when the failed call has been
  rolled back to \<open>s\<close>; a panic is not caught.\<close>

definition caught :: "'s result \<Rightarrow> 's \<Rightarrow> 's result" where
  "caught r s = (case r of Inl Panicked \<Rightarrow> Inl Panicked | Inl e \<Rightarrow> Inr s | Inr s' \<Rightarrow> Inr s')"

lemma caught_eq_Inr [res_simps]:
  "caught r s = Inr t \<longleftrightarrow> r = Inr t \<or> (\<exists>e. e \<noteq> Panicked \<and> r = Inl e \<and> t = s)"
  by (auto simp: caught_def split: sum.splits error.splits)


section \<open>Resource identifiers\<close>

definition copy_from_slice :: "'a list \<Rightarrow> nat \<Rightarrow> 'a list \<Rightarrow> 'a list" where
  "copy_from_slice r i xs = take i r @ xs @ drop (i + length xs) r"

definition derive_resource_id :: "chain_id \<Rightarrow> u8 \<Rightarrow> bytes \<Rightarrow> string + resource_id" where
  "derive_resource_id chain dex rid =
     (let id_len = length rid in
      if id_len > 28 then Inl ''id is too long''
      else let r0 = replicate 32 0;
               r1 = copy_from_slice r0 30 (to_le_bytes 2 chain);
               r2 = r1[29 := dex];
               r3 = copy_from_slice r2 (29 - id_len) rid;
               r4 = r3[0 := of_nat id_len]
           in Inr r4)"

text \<open>The slice \<open>r_id[29 - id_len..29]\<close> panics when \<open>id_len\<close> exceeds 29.\<close>

definition decode_resource_id :: "resource_id \<Rightarrow> (chain_id \<times> u8 \<times> bytes) result" where
  "decode_resource_id r_id =
     (let chainid = from_le_bytes (drop 30 r_id);
          dex = r_id ! 29;
          id_len = unat (r_id ! 0)
      in if id_len > 29 then Inl Panicked
         else Inr (chainid, dex, drop (29 - id_len) (take 29 r_id)))"


section \<open>Origins\<close>

datatype origin = Root | Signed account | NoOrigin

fun ensure_signed :: "origin \<Rightarrow> account result" where
  "ensure_signed (Signed who) = Inr who"
| "ensure_signed _ = Inl BadOrigin"

fun ensure_root :: "origin \<Rightarrow> unit result" where
  "ensure_root Root = Inr ()"
| "ensure_root _ = Inl BadOrigin"

fun ensure_none :: "origin \<Rightarrow> unit result" where
  "ensure_none NoOrigin = Inr ()"
| "ensure_none _ = Inl BadOrigin"

fun_cases ensure_signedE: "ensure_signed o' = Inr who"
fun_cases ensure_rootE: "ensure_root o' = Inr u"

lemma ensure_origin_eq_Inr [res_simps]:
  "ensure_signed o' = Inr who \<longleftrightarrow> o' = Signed who"
  "ensure_root o' = Inr u \<longleftrightarrow> o' = Root"
  "ensure_none o' = Inr u \<longleftrightarrow> o' = NoOrigin"
  by (cases o'; auto)+


section \<open>The platform: state and parameters\<close>

record 'b system =
  block_number :: u32
  account_nonce :: "account \<Rightarrow> u64"
  events :: "event list"
  native :: 'b

definition deposit_event :: "event \<Rightarrow> ('b, 'z) system_scheme \<Rightarrow> ('b, 'z) system_scheme" where
  "deposit_event e s = s\<lparr>events := events s @ [e]\<rparr>"

definition inc_account_nonce :: "account \<Rightarrow> ('b, 'z) system_scheme \<Rightarrow> ('b, 'z) system_scheme" where
  "inc_account_nonce who s =
     s\<lparr>account_nonce := (account_nonce s)(who := account_nonce s who + 1)\<rparr>"

datatype balance_status = Free | Reserved

text \<open>
  Parameters: \<open>bal_*\<close> are the functions of \<^verbatim>\<open>pallet_balances\<close> (transfers keep the sender
  alive; \<open>bal_mutate_account\<close> stores a new pair of free and reserved balance), \<open>per*\<close> the
  functions of \<^verbatim>\<open>sp_arithmetic\<close> on the inner values of \<^verbatim>\<open>Permill\<close> and
  \<^verbatim>\<open>Perquintill\<close>, and \<open>lookup\<close> the runtime's account lookup.
\<close>

record 'b env =
  bal_free :: "'b \<Rightarrow> account \<Rightarrow> u128"
  bal_reserved :: "'b \<Rightarrow> account \<Rightarrow> u128"
  bal_issuance :: "'b \<Rightarrow> u128"
  bal_set_issuance :: "u128 \<Rightarrow> 'b \<Rightarrow> 'b"
  bal_transfer :: "account \<Rightarrow> account \<Rightarrow> u128 \<Rightarrow> 'b \<Rightarrow> 'b result"
  bal_can_reserve :: "'b \<Rightarrow> account \<Rightarrow> u128 \<Rightarrow> bool"
  bal_reserve :: "account \<Rightarrow> u128 \<Rightarrow> 'b \<Rightarrow> 'b result"
  bal_unreserve :: "account \<Rightarrow> u128 \<Rightarrow> 'b \<Rightarrow> 'b"
  bal_repatriate :: "account \<Rightarrow> account \<Rightarrow> u128 \<Rightarrow> balance_status \<Rightarrow> 'b \<Rightarrow> 'b result"
  bal_mutate_account :: "account \<Rightarrow> u128 \<times> u128 \<Rightarrow> 'b \<Rightarrow> 'b result"
  bal_burn_from :: "account \<Rightarrow> u128 \<Rightarrow> 'b \<Rightarrow> 'b result"
  perquintill_from_rational :: "u128 \<Rightarrow> u128 \<Rightarrow> u64"
  perquintill_mul :: "u64 \<Rightarrow> u128 \<Rightarrow> u128"
  permill_from_parts :: "u32 \<Rightarrow> u32"
  permill_mul_ceil :: "u32 \<Rightarrow> u128 \<Rightarrow> u128"
  lookup :: "bytes \<Rightarrow> account option"

end
