(* ===== verification/Fuso_Token.thy ===== *)
theory Fuso_Token
  imports Fuso_Support
begin

text \<open>
  The token pallet (\<^verbatim>\<open>pallet-fuso-token/src/lib.rs\<close>): its storage extends the chain state by
  the record \<open>token_chain\<close>, its configuration extends the environment by \<open>token_env\<close>, and
  there is one definition per call, per helper and per trait method (\<^verbatim>\<open>Token\<close>,
  \<^verbatim>\<open>ReservableToken\<close>, \<^verbatim>\<open>fungibles::Inspect\<close>, \<^verbatim>\<open>fungibles::Mutate\<close>, the two asset id
  providers, \<^verbatim>\<open>BalanceConversion\<close>, \<^verbatim>\<open>ChainIdOf\<close>).

  \<^verbatim>\<open>try_mutate_exists\<close> reads the entry, runs its closure and writes the entry back when the
  closure succeeds. Where two such closures are nested, the inner write comes first and the
  outer one last; \<open>transfer_token\<close> keeps that order, which matters when both name one entry.
\<close>

section \<open>Storage and configuration\<close>

record token_account_data =
  free :: u128
  reserved :: u128

record 'b token_chain = "'b system" +
  Balances :: "token_id \<times> account \<Rightarrow> token_account_data option"
  Tokens :: "token_id \<Rightarrow> xtoken option"
  NextTokenId :: token_id
  TokenByName :: "bytes \<Rightarrow> token_id option"
  TokenByContract :: "chain_id \<times> bytes \<Rightarrow> token_id option"

record 'b token_env = "'b env" +
  NearChainId :: chain_id
  EthChainId :: chain_id
  BnbChainId :: chain_id
  NativeChainId :: chain_id
  NativeTokenId :: token_id
  BurnTAOwhenIssue :: u128
  token_admin :: "origin \<Rightarrow> bool"

definition default_account :: token_account_data where
  "default_account = \<lparr>free = 0, reserved = 0\<rparr>"

definition get_token_balance ::
  "('b, 'z) token_chain_scheme \<Rightarrow> token_id \<times> account \<Rightarrow> token_account_data" where
  "get_token_balance s k = (case Balances s k of None \<Rightarrow> default_account | Some a \<Rightarrow> a)"

definition store_account ::
  "token_id \<times> account \<Rightarrow> token_account_data option \<Rightarrow> ('b, 'z) token_chain_scheme
    \<Rightarrow> ('b, 'z) token_chain_scheme" where
  "store_account k a s = s\<lparr>Balances := (Balances s)(k := a)\<rparr>"

text \<open>The account written back by the debiting closures: dropped when both parts are zero.\<close>

definition alive :: "token_account_data \<Rightarrow> token_account_data option" where
  "alive a = (if free a = 0 \<and> reserved a = 0 then None else Some a)"

section \<open>Decimals\<close>

fun mul_times :: "nat \<Rightarrow> u128 \<Rightarrow> u128" where
  "mul_times 0 amount = amount"
| "mul_times (Suc n) amount = mul_times n (amount * 10)"

fun div_times :: "nat \<Rightarrow> u128 \<Rightarrow> u128" where
  "div_times 0 amount = amount"
| "div_times (Suc n) amount = div_times n (amount div 10)"

definition unify_decimals :: "u128 \<Rightarrow> u8 \<Rightarrow> u128" where
  "unify_decimals amount decimals =
     (if decimals > STANDARD_DECIMALS
      then div_times (unat (decimals - STANDARD_DECIMALS)) amount
      else mul_times (unat (STANDARD_DECIMALS - decimals)) amount)"

section \<open>Trait Token: queries\<close>

definition native_token_id :: "('b, 'x) token_env_scheme \<Rightarrow> token_id" where
  "native_token_id E = NativeTokenId E"

definition is_stable :: "('b, 'x) token_env_scheme \<Rightarrow> ('b, 'z) token_chain_scheme \<Rightarrow> token_id \<Rightarrow> bool" where
  "is_stable E s token =
     (if token = native_token_id E then False
      else case Tokens s token of None \<Rightarrow> False | Some t \<Rightarrow> xtoken_is_stable t)"

definition free_balance ::
  "('b, 'x) token_env_scheme \<Rightarrow> ('b, 'z) token_chain_scheme \<Rightarrow> token_id \<Rightarrow> account \<Rightarrow> u128" where
  "free_balance E s token who =
     (if token = native_token_id E then bal_free E (native s) who
      else free (get_token_balance s (token, who)))"

fun xtoken_total :: "xtoken \<Rightarrow> u128" where
  "xtoken_total (NEP141 _ _ tot _ _) = tot"
| "xtoken_total (ERC20 _ _ tot _ _) = tot"
| "xtoken_total (BEP20 _ _ tot _ _) = tot"
| "xtoken_total (FND10 _ tot) = tot"

definition total_issuance ::
  "('b, 'x) token_env_scheme \<Rightarrow> ('b, 'z) token_chain_scheme \<Rightarrow> token_id \<Rightarrow> u128" where
  "total_issuance E s token =
     (if token = native_token_id E then bal_issuance E (native s)
      else case Tokens s token of None \<Rightarrow> 0 | Some t \<Rightarrow> xtoken_total t)"

definition reserved_balance ::
  "('b, 'x) token_env_scheme \<Rightarrow> ('b, 'z) token_chain_scheme \<Rightarrow> token_id \<Rightarrow> account \<Rightarrow> u128" where
  "reserved_balance E s token who =
     (if token = native_token_id E then bal_reserved E (native s) who
      else reserved (get_token_balance s (token, who)))"

definition can_reserve ::
  "('b, 'x) token_env_scheme \<Rightarrow> ('b, 'z) token_chain_scheme \<Rightarrow> token_id \<Rightarrow> account \<Rightarrow> u128 \<Rightarrow> bool" where
  "can_reserve E s token who value =
     (if value = 0 then True
      else if token = native_token_id E then bal_can_reserve E (native s) who value
      else value \<le> free_balance E s token who)"

section \<open>Minting and burning\<close>

text \<open>The match on the token information of \<open>do_mint\<close> and \<open>do_burn\<close>: the amount in standard
  decimals and the information with its total adjusted by \<open>f\<close>.\<close>

fun adjust_total ::
  "(u128 \<Rightarrow> u128 \<Rightarrow> u128 option) \<Rightarrow> u128 \<Rightarrow> xtoken \<Rightarrow> (u128 \<times> xtoken) result" where
  "adjust_total f amount (NEP141 symb contr tot st decimals) =
     (let unified_amount = unify_decimals amount decimals
      in rbind (ok_or (f tot unified_amount) (TokenE tok_err.InsufficientBalance))
           (\<lambda>tot'. Inr (unified_amount, NEP141 symb contr tot' st decimals)))"
| "adjust_total f amount (ERC20 symb contr tot st decimals) =
     (let unified_amount = unify_decimals amount decimals
      in rbind (ok_or (f tot unified_amount) (TokenE tok_err.InsufficientBalance))
           (\<lambda>tot'. Inr (unified_amount, ERC20 symb contr tot' st decimals)))"
| "adjust_total f amount (BEP20 symb contr tot st decimals) =
     (let unified_amount = unify_decimals amount decimals
      in rbind (ok_or (f tot unified_amount) (TokenE tok_err.InsufficientBalance))
           (\<lambda>tot'. Inr (unified_amount, BEP20 symb contr tot' st decimals)))"
| "adjust_total f amount (FND10 symb tot) = Inr (tot, FND10 symb tot)"

definition do_mint ::
  "token_id \<Rightarrow> account \<Rightarrow> u128 \<Rightarrow> ('b, 'z) token_chain_scheme \<Rightarrow> ('b, 'z) token_chain_scheme result" where
  "do_mint token beneficiary amount s =
     (if amount = 0 then Inr s
      else rbind (ok_or (Tokens s token) (TokenE tok_err.InvalidToken)) (\<lambda>info0.
           rbind (adjust_total checked_add amount info0) (\<lambda>(unified_amount, info).
           ensure (unified_amount \<noteq> 0) (TokenE tok_err.AmountZero) (
           let account = get_token_balance s (token, beneficiary)
           in rbind (ok_or (checked_add (free account) unified_amount) (TokenE tok_err.Overflow)) (\<lambda>f.
              let s1 = store_account (token, beneficiary) (Some (account\<lparr>free := f\<rparr>)) s;
                  s2 = s1\<lparr>Tokens := (Tokens s1)(token := Some info)\<rparr>
              in Inr (deposit_event (TokenEv (TokenMinted token beneficiary unified_amount)) s2))))))"

definition do_burn ::
  "token_id \<Rightarrow> account \<Rightarrow> u128 \<Rightarrow> ('b, 'z) token_chain_scheme
    \<Rightarrow> (u128 \<times> ('b, 'z) token_chain_scheme) result" where
  "do_burn token target amount s =
     ensure (amount \<noteq> 0) (TokenE tok_err.AmountZero) (
     rbind (ok_or (Tokens s token) (TokenE tok_err.BalanceZero)) (\<lambda>info0.
     rbind (adjust_total checked_sub amount info0) (\<lambda>(unified_amount, info).
     ensure (unified_amount \<noteq> 0) (TokenE tok_err.AmountZero) (
     rbind (ok_or (Balances s (token, target)) (TokenE tok_err.BalanceZero)) (\<lambda>account.
     rbind (ok_or (checked_sub (free account) unified_amount) (TokenE tok_err.InsufficientBalance)) (\<lambda>f.
       let s1 = store_account (token, target) (alive (account\<lparr>free := f\<rparr>)) s;
           s2 = s1\<lparr>Tokens := (Tokens s1)(token := Some info)\<rparr>
       in Inr (amount, deposit_event (TokenEv (TokenBurned token target unified_amount)) s2)))))))"

section \<open>Trait Token: creation and transfer\<close>

text \<open>\<^verbatim>\<open>AsciiStr::from_ascii\<close> succeeds on 7-bit bytes.\<close>

definition valid_symbol :: "bytes \<Rightarrow> bool" where
  "valid_symbol symbol \<longleftrightarrow>
     (\<forall>b \<in> set symbol. b < 128) \<and> 2 \<le> length symbol \<and> length symbol \<le> 8"

definition insert_token ::
  "xtoken \<Rightarrow> ('b, 'z) token_chain_scheme \<Rightarrow> (token_id \<times> ('b, 'z) token_chain_scheme) result" where
  "insert_token info s =
     (let tid = NextTokenId s
      in Inr (tid, s\<lparr>NextTokenId := tid + 1, Tokens := (Tokens s)(tid := Some info)\<rparr>))"

fun create ::
  "xtoken \<Rightarrow> ('b, 'z) token_chain_scheme \<Rightarrow> (token_id \<times> ('b, 'z) token_chain_scheme) result" where
  "create (NEP141 symb contr tot st decimals) s =
     ensure (decimals \<le> MAX_DECIMALS) (TokenE tok_err.InvalidDecimals) (
     ensure (valid_symbol symb) (TokenE tok_err.InvalidTokenName) (
     ensure (length contr < 120 \<and> 2 < length contr) (TokenE tok_err.ContractError) (
     ensure (TokenByName s contr = None) (TokenE tok_err.ContractError) (
       insert_token (NEP141 symb contr 0 st decimals)
         (s\<lparr>TokenByName := (TokenByName s)(contr \<mapsto> NextTokenId s)\<rparr>)))))"
| "create (ERC20 symb contr tot st decimals) s =
     ensure (decimals \<le> MAX_DECIMALS) (TokenE tok_err.InvalidDecimals) (
     ensure (valid_symbol symb) (TokenE tok_err.InvalidTokenName) (
     ensure (length contr = 20) (TokenE tok_err.ContractError) (
       insert_token (ERC20 symb contr 0 st decimals) s)))"
| "create (BEP20 symb contr tot st decimals) s =
     ensure (decimals \<le> MAX_DECIMALS) (TokenE tok_err.InvalidDecimals) (
     ensure (valid_symbol symb) (TokenE tok_err.InvalidTokenName) (
     ensure (length contr = 20) (TokenE tok_err.ContractError) (
       insert_token (BEP20 symb contr 0 st decimals) s)))"
| "create (FND10 symb tot) s =
     ensure (valid_symbol symb) (TokenE tok_err.InvalidTokenName) (
       insert_token (FND10 symb 0) s)"

definition transfer_token ::
  "('b, 'x) token_env_scheme \<Rightarrow> account \<Rightarrow> token_id \<Rightarrow> u128 \<Rightarrow> account \<Rightarrow> ('b, 'z) token_chain_scheme
    \<Rightarrow> ('b, 'z) token_chain_scheme result" where
  "transfer_token E from_acc token amount target s =
     (if amount = 0 then Inr s
      else if token = native_token_id E
      then rbind (bal_transfer E from_acc target amount (native s)) (\<lambda>b. Inr (s\<lparr>native := b\<rparr>))
      else rbind (ok_or (Balances s (token, from_acc)) (TokenE tok_err.BalanceZero)) (\<lambda>account.
           rbind (ok_or (checked_sub (free account) amount) (TokenE tok_err.InsufficientBalance)) (\<lambda>f.
           let acct = get_token_balance s (token, target)
           in rbind (ok_or (checked_add (free acct) amount) (TokenE tok_err.Overflow)) (\<lambda>g.
              let s1 = store_account (token, target) (Some (acct\<lparr>free := g\<rparr>)) s;
                  s2 = store_account (token, from_acc) (alive (account\<lparr>free := f\<rparr>)) s1
              in Inr (deposit_event (TokenEv (TokenTransfered token from_acc target amount)) s2)))))"

text \<open>The closure gets the pair of free and reserved balance and the chain state, since it may
  itself write storage.\<close>

definition try_mutate_account ::
  "('b, 'x) token_env_scheme \<Rightarrow> token_id \<Rightarrow> account
    \<Rightarrow> (u128 \<times> u128 \<Rightarrow> ('b, 'z) token_chain_scheme \<Rightarrow> ((u128 \<times> u128) \<times> ('b, 'z) token_chain_scheme) result)
    \<Rightarrow> ('b, 'z) token_chain_scheme \<Rightarrow> ('b, 'z) token_chain_scheme result" where
  "try_mutate_account E token who f s =
     (if token = native_token_id E
      then rbind (f (bal_free E (native s) who, bal_reserved E (native s) who) s) (\<lambda>(v, s1).
           rbind (bal_mutate_account E who v (native s1)) (\<lambda>b. Inr (s1\<lparr>native := b\<rparr>)))
      else let b = get_token_balance s (token, who)
           in rbind (f (free b, reserved b) s) (\<lambda>(v, s1).
              Inr (store_account (token, who) (alive (b\<lparr>free := fst v, reserved := snd v\<rparr>)) s1)))"

definition try_mutate_issuance ::
  "('b, 'x) token_env_scheme \<Rightarrow> token_id \<Rightarrow> (u128 \<Rightarrow> u128 result) \<Rightarrow> ('b, 'z) token_chain_scheme
    \<Rightarrow> ('b, 'z) token_chain_scheme result" where
  "try_mutate_issuance E token f s =
     (if token = native_token_id E
      then rbind (f (bal_issuance E (native s))) (\<lambda>tot.
             Inr (s\<lparr>native := bal_set_issuance E tot (native s)\<rparr>))
      else Inl (OtherE ''can't update the token issuance''))"

section \<open>Trait ReservableToken\<close>

definition token_reserve ::
  "('b, 'x) token_env_scheme \<Rightarrow> token_id \<Rightarrow> account \<Rightarrow> u128 \<Rightarrow> ('b, 'z) token_chain_scheme
    \<Rightarrow> ('b, 'z) token_chain_scheme result" where
  "token_reserve E token who value s =
     (if value = 0 then Inr s
      else if token = native_token_id E
      then rbind (bal_reserve E who value (native s)) (\<lambda>b. Inr (s\<lparr>native := b\<rparr>))
      else rbind (ok_or (Balances s (token, who)) (TokenE tok_err.BalanceZero)) (\<lambda>account.
           rbind (ok_or (checked_sub (free account) value) (TokenE tok_err.InsufficientBalance)) (\<lambda>f.
           rbind (ok_or (checked_add (reserved account) value) (TokenE tok_err.Overflow)) (\<lambda>r.
             Inr (store_account (token, who) (Some (account\<lparr>free := f, reserved := r\<rparr>))
               (deposit_event (TokenEv (TokenReserved token who value)) s))))))"

definition token_unreserve ::
  "('b, 'x) token_env_scheme \<Rightarrow> token_id \<Rightarrow> account \<Rightarrow> u128 \<Rightarrow> ('b, 'z) token_chain_scheme
    \<Rightarrow> ('b, 'z) token_chain_scheme result" where
  "token_unreserve E token who value s =
     (if value = 0 then Inr s
      else if token = native_token_id E
      then ensure (value \<le> bal_reserved E (native s) who) (TokenE tok_err.InsufficientBalance)
             (Inr (s\<lparr>native := bal_unreserve E who value (native s)\<rparr>))
      else rbind (ok_or (Balances s (token, who)) (TokenE tok_err.BalanceZero)) (\<lambda>account.
           rbind (ok_or (checked_sub (reserved account) value) (TokenE tok_err.InsufficientBalance)) (\<lambda>r.
           rbind (ok_or (checked_add (free account) value) (TokenE tok_err.Overflow)) (\<lambda>f.
             Inr (store_account (token, who) (Some (account\<lparr>free := f, reserved := r\<rparr>))
               (deposit_event (TokenEv (TokenUnreserved token who value)) s))))))"

fun credit :: "balance_status \<Rightarrow> u128 \<Rightarrow> token_account_data \<Rightarrow> token_account_data result" where
  "credit balance_status.Free value account =
     rbind (ok_or (checked_add (free account) value) (TokenE tok_err.Overflow)) (\<lambda>f.
       Inr (account\<lparr>free := f\<rparr>))"
| "credit balance_status.Reserved value account =
     rbind (ok_or (checked_add (reserved account) value) (TokenE tok_err.Overflow)) (\<lambda>r.
       Inr (account\<lparr>reserved := r\<rparr>))"

definition repatriate_reserved ::
  "('b, 'x) token_env_scheme \<Rightarrow> token_id \<Rightarrow> account \<Rightarrow> account \<Rightarrow> u128 \<Rightarrow> balance_status
    \<Rightarrow> ('b, 'z) token_chain_scheme \<Rightarrow> ('b, 'z) token_chain_scheme result" where
  "repatriate_reserved E token slashed beneficiary value status s =
     (if token = native_token_id E
      then ensure (value \<le> bal_reserved E (native s) slashed) (TokenE tok_err.InsufficientBalance)
             (rbind (bal_repatriate E slashed beneficiary value status (native s)) (\<lambda>b.
                Inr (s\<lparr>native := b\<rparr>)))
      else if slashed = beneficiary
      then (case status of
              balance_status.Free \<Rightarrow> token_unreserve E token slashed value s
            | balance_status.Reserved \<Rightarrow> token_reserve E token slashed value s)
      else rbind (ok_or (Balances s (token, slashed)) (TokenE tok_err.BalanceZero)) (\<lambda>account.
           rbind (ok_or (checked_sub (reserved account) value) (TokenE tok_err.InsufficientBalance)) (\<lambda>r.
           rbind (credit status value (get_token_balance s (token, beneficiary))) (\<lambda>acct.
             let s1 = store_account (token, beneficiary) (Some acct) s;
                 s2 = store_account (token, slashed) (alive (account\<lparr>reserved := r\<rparr>)) s1
             in Inr (deposit_event (TokenEv (TokenRepatriated token slashed beneficiary value)) s2)))))"

section \<open>Calls\<close>

definition issue ::
  "('b, 'x) token_env_scheme \<Rightarrow> origin \<Rightarrow> xtoken \<Rightarrow> ('b, 'z) token_chain_scheme
    \<Rightarrow> ('b, 'z) token_chain_scheme result" where
  "issue E orig token_info s =
     rbind (ensure_signed orig) (\<lambda>who.
     rbind (bal_burn_from E who (BurnTAOwhenIssue E) (native s)) (\<lambda>b.
     rbind (create token_info (s\<lparr>native := b\<rparr>)) (\<lambda>(tid, s1).
       Inr (deposit_event (TokenEv (TokenIssued tid (xtoken_symbol token_info))) s1))))"

fun set_stable :: "xtoken \<Rightarrow> xtoken result" where
  "set_stable (NEP141 symb contr tot st decimals) = Inr (NEP141 symb contr tot True decimals)"
| "set_stable (ERC20 symb contr tot st decimals) = Inr (ERC20 symb contr tot True decimals)"
| "set_stable (BEP20 symb contr tot st decimals) = Inr (BEP20 symb contr tot True decimals)"
| "set_stable (FND10 _ _) = Inl (TokenE tok_err.InvalidToken)"

definition mark_stable ::
  "origin \<Rightarrow> token_id \<Rightarrow> ('b, 'z) token_chain_scheme \<Rightarrow> ('b, 'z) token_chain_scheme result" where
  "mark_stable orig tid s =
     rbind (ensure_root orig) (\<lambda>_.
     rbind (ok_or (Tokens s tid) (TokenE tok_err.InvalidToken)) (\<lambda>info.
     rbind (set_stable info) (\<lambda>info'.
       Inr (s\<lparr>Tokens := (Tokens s)(tid := Some info')\<rparr>))))"

definition transfer ::
  "('b, 'x) token_env_scheme \<Rightarrow> origin \<Rightarrow> token_id \<Rightarrow> bytes \<Rightarrow> u128 \<Rightarrow> ('b, 'z) token_chain_scheme
    \<Rightarrow> ('b, 'z) token_chain_scheme result" where
  "transfer E orig token target amount s =
     rbind (ensure_signed orig) (\<lambda>who.
     ensure (amount \<noteq> 0) (TokenE tok_err.BalanceZero) (
     rbind (ok_or (lookup E target) CannotLookup) (\<lambda>tgt.
       transfer_token E who token amount tgt s)))"

definition associate_token ::
  "('b, 'x) token_env_scheme \<Rightarrow> origin \<Rightarrow> chain_id \<Rightarrow> bytes \<Rightarrow> token_id \<Rightarrow> ('b, 'z) token_chain_scheme
    \<Rightarrow> ('b, 'z) token_chain_scheme result" where
  "associate_token E orig chain contract_id tid s =
     ensure (token_admin E orig) BadOrigin (
       Inr (s\<lparr>TokenByContract := (TokenByContract s)((chain, contract_id) \<mapsto> tid)\<rparr>))"

section \<open>The other traits\<close>

datatype deposit_consequence = DepositSuccess | UnknownAsset
datatype withdraw_consequence = WithdrawSuccess | NoFunds

definition minimum_balance :: "token_id \<Rightarrow> u128" where
  "minimum_balance asset = 1"

definition balance :: "('b, 'z) token_chain_scheme \<Rightarrow> token_id \<Rightarrow> account \<Rightarrow> u128" where
  "balance s asset who =
     (let b = get_token_balance s (asset, who) in free b + reserved b)"

definition reducible_balance ::
  "('b, 'x) token_env_scheme \<Rightarrow> ('b, 'z) token_chain_scheme \<Rightarrow> token_id \<Rightarrow> account \<Rightarrow> bool \<Rightarrow> u128" where
  "reducible_balance E s asset who keep_alive = free_balance E s asset who"

definition can_deposit :: "('b, 'z) token_chain_scheme \<Rightarrow> token_id \<Rightarrow> deposit_consequence" where
  "can_deposit s asset = (case Tokens s asset of Some _ \<Rightarrow> DepositSuccess | None \<Rightarrow> UnknownAsset)"

definition can_withdraw ::
  "('b, 'x) token_env_scheme \<Rightarrow> ('b, 'z) token_chain_scheme \<Rightarrow> token_id \<Rightarrow> account \<Rightarrow> u128
    \<Rightarrow> withdraw_consequence" where
  "can_withdraw E s asset who amount =
     (if amount \<le> free_balance E s asset who then WithdrawSuccess else NoFunds)"

definition mint_into ::
  "token_id \<Rightarrow> account \<Rightarrow> u128 \<Rightarrow> ('b, 'z) token_chain_scheme \<Rightarrow> ('b, 'z) token_chain_scheme result" where
  "mint_into asset who amount s = do_mint asset who amount s"

definition burn_from ::
  "token_id \<Rightarrow> account \<Rightarrow> u128 \<Rightarrow> ('b, 'z) token_chain_scheme
    \<Rightarrow> (u128 \<times> ('b, 'z) token_chain_scheme) result" where
  "burn_from asset who amount s = do_burn asset who amount s"

definition slash ::
  "token_id \<Rightarrow> account \<Rightarrow> u128 \<Rightarrow> ('b, 'z) token_chain_scheme
    \<Rightarrow> (u128 \<times> ('b, 'z) token_chain_scheme) result" where
  "slash asset who amount s = do_burn asset who amount s"

definition try_get_asset_id_octopus ::
  "('b, 'z) token_chain_scheme \<Rightarrow> bytes \<Rightarrow> token_id option" where
  "try_get_asset_id_octopus s name = TokenByName s name"

definition try_get_token_id :: "('b, 'z) token_chain_scheme \<Rightarrow> token_id \<Rightarrow> bytes option" where
  "try_get_token_id s asset =
     (case Tokens s asset of Some (NEP141 _ name _ _ _) \<Rightarrow> Some name | _ \<Rightarrow> None)"

definition try_get_asset_id ::
  "('b, 'z) token_chain_scheme \<Rightarrow> chain_id \<Rightarrow> bytes \<Rightarrow> token_id option" where
  "try_get_asset_id s chain contract_id = TokenByContract s (chain, contract_id)"

fun unify_for :: "u128 \<Rightarrow> xtoken \<Rightarrow> u128" where
  "unify_for bal (NEP141 _ _ _ _ decimals) = unify_decimals bal decimals"
| "unify_for bal (ERC20 _ _ _ _ decimals) = unify_decimals bal decimals"
| "unify_for bal (BEP20 _ _ _ _ decimals) = unify_decimals bal decimals"
| "unify_for bal (FND10 _ _) = bal"

definition to_asset_balance ::
  "('b, 'x) token_env_scheme \<Rightarrow> ('b, 'z) token_chain_scheme \<Rightarrow> u128 \<Rightarrow> token_id \<Rightarrow> u128 result" where
  "to_asset_balance E s bal tid =
     (if tid = native_token_id E then Inr bal
      else rbind (ok_or (Tokens s tid) (TokenE tok_err.InvalidToken)) (\<lambda>info.
             Inr (unify_for bal info)))"

fun chain_id_of :: "('b, 'x) token_env_scheme \<Rightarrow> xtoken \<Rightarrow> chain_id" where
  "chain_id_of E (NEP141 _ _ _ _ _) = NearChainId E"
| "chain_id_of E (ERC20 _ _ _ _ _) = EthChainId E"
| "chain_id_of E (BEP20 _ _ _ _ _) = BnbChainId E"
| "chain_id_of E (FND10 _ _) = NativeChainId E"

end
