(* ===== verification/Fuso_Balances.thy ===== *)
theory Fuso_Balances
  imports Fuso_Support
begin

text \<open>
  The code outside the repository that properties rely on: \<open>balances_spec\<close> states the documented
  behaviour of \<^verbatim>\<open>pallet_balances\<close> and \<open>arith_spec\<close> that of the fixed-point types of
  \<^verbatim>\<open>sp_arithmetic\<close>. It covers an existential deposit of at most one unit: with a larger one, as the dollar of
  the mock runtimes, \<^verbatim>\<open>pallet_balances\<close> reaps an account that is stored with less than the deposit, and
  \<open>mutate_spec\<close> does not hold for such a pair. \<open>sample_env\<close> is a concrete environment that meets both, in which the
  existential deposit is one unit; the witnesses of the properties run in it.
\<close>

section \<open>Documented behaviour\<close>

definition same_account :: "('b, 'x) env_scheme \<Rightarrow> 'b \<Rightarrow> 'b \<Rightarrow> account \<Rightarrow> bool" where
  "same_account E b b' a \<longleftrightarrow> bal_free E b' a = bal_free E b a \<and> bal_reserved E b' a = bal_reserved E b a"

text \<open>Reserving moves the value from the free to the reserved balance; unreserving a value that is
  reserved moves it back; a transfer between two accounts moves free balance; storing an
  account stores exactly that pair, as an existential deposit of at most one unit allows. Every other account is left alone.\<close>

definition reserve_spec :: "('b, 'x) env_scheme \<Rightarrow> bool" where
  "reserve_spec E \<longleftrightarrow>
     (\<forall>w v b b'. bal_reserve E w v b = Inr b' \<longrightarrow>
        unat (bal_free E b w) = unat (bal_free E b' w) + unat v \<and>
        unat (bal_reserved E b' w) = unat (bal_reserved E b w) + unat v \<and>
        (\<forall>a. a \<noteq> w \<longrightarrow> same_account E b b' a))"

definition unreserve_spec :: "('b, 'x) env_scheme \<Rightarrow> bool" where
  "unreserve_spec E \<longleftrightarrow>
     (\<forall>w v b. v \<le> bal_reserved E b w \<longrightarrow>
        unat (bal_reserved E b w) = unat (bal_reserved E (bal_unreserve E w v b) w) + unat v \<and>
        unat (bal_free E (bal_unreserve E w v b) w) = unat (bal_free E b w) + unat v \<and>
        (\<forall>a. a \<noteq> w \<longrightarrow> same_account E b (bal_unreserve E w v b) a))"

definition transfer_spec :: "('b, 'x) env_scheme \<Rightarrow> bool" where
  "transfer_spec E \<longleftrightarrow>
     (\<forall>w u v b b'. bal_transfer E w u v b = Inr b' \<longrightarrow>
        (\<forall>a. bal_reserved E b' a = bal_reserved E b a) \<and>
        (\<forall>a. a \<noteq> w \<longrightarrow> a \<noteq> u \<longrightarrow> bal_free E b' a = bal_free E b a) \<and>
        (w \<noteq> u \<longrightarrow> unat (bal_free E b w) = unat (bal_free E b' w) + unat v \<and>
                   unat (bal_free E b' u) = unat (bal_free E b u) + unat v))"

definition mutate_spec :: "('b, 'x) env_scheme \<Rightarrow> bool" where
  "mutate_spec E \<longleftrightarrow>
     (\<forall>w p b b'. bal_mutate_account E w p b = Inr b' \<longrightarrow>
        bal_free E b' w = fst p \<and> bal_reserved E b' w = snd p \<and>
        (\<forall>a. a \<noteq> w \<longrightarrow> same_account E b b' a))"

definition balances_spec :: "('b, 'x) env_scheme \<Rightarrow> bool" where
  "balances_spec E \<longleftrightarrow>
     reserve_spec E \<and> unreserve_spec E \<and> transfer_spec E \<and> mutate_spec E \<and>
     (\<forall>n b a. same_account E b (bal_set_issuance E n b) a)"

text \<open>Burning takes from the free balance of one account.\<close>

definition burn_spec :: "('b, 'x) env_scheme \<Rightarrow> bool" where
  "burn_spec E \<longleftrightarrow>
     (\<forall>w v b b'. bal_burn_from E w v b = Inr b' \<longrightarrow>
        (\<forall>a. bal_reserved E b' a = bal_reserved E b a) \<and>
        (\<forall>a. a \<noteq> w \<longrightarrow> bal_free E b' a = bal_free E b a))"

lemma balances_reserveD:
  assumes "balances_spec E" "bal_reserve E w v b = Inr b'"
  shows "unat (bal_free E b w) = unat (bal_free E b' w) + unat v"
    "unat (bal_reserved E b' w) = unat (bal_reserved E b w) + unat v"
    "a \<noteq> w \<Longrightarrow> same_account E b b' a"
  using assms by (simp_all add: balances_spec_def reserve_spec_def)

lemma balances_unreserveD:
  assumes "balances_spec E" "v \<le> bal_reserved E b w"
  shows "unat (bal_reserved E b w) = unat (bal_reserved E (bal_unreserve E w v b) w) + unat v"
    "unat (bal_free E (bal_unreserve E w v b) w) = unat (bal_free E b w) + unat v"
    "a \<noteq> w \<Longrightarrow> same_account E b (bal_unreserve E w v b) a"
  using assms by (simp_all add: balances_spec_def unreserve_spec_def)

lemma balances_transferD:
  assumes "balances_spec E" "bal_transfer E w u v b = Inr b'"
  shows "bal_reserved E b' a = bal_reserved E b a"
    "a \<noteq> w \<Longrightarrow> a \<noteq> u \<Longrightarrow> bal_free E b' a = bal_free E b a"
    "w \<noteq> u \<Longrightarrow> unat (bal_free E b w) = unat (bal_free E b' w) + unat v"
    "w \<noteq> u \<Longrightarrow> unat (bal_free E b' u) = unat (bal_free E b u) + unat v"
  using assms by (simp_all add: balances_spec_def transfer_spec_def)

lemma balances_mutateD:
  assumes "balances_spec E" "bal_mutate_account E w p b = Inr b'"
  shows "bal_free E b' w = fst p" "bal_reserved E b' w = snd p"
    "a \<noteq> w \<Longrightarrow> same_account E b b' a"
  using assms by (cases p; simp add: balances_spec_def mutate_spec_def)+

lemma balances_issuanceD:
  "balances_spec E \<Longrightarrow> same_account E b (bal_set_issuance E n b) a"
  by (simp add: balances_spec_def)

text \<open>A ratio is rounded down and capped at one; multiplying by a ratio or a fee never gives more
  than the operand; a fee never rounds to zero on a positive product.\<close>

definition QUINT :: nat where "QUINT = 10 ^ 18"

definition arith_spec :: "('b, 'x) env_scheme \<Rightarrow> bool" where
  "arith_spec E \<longleftrightarrow>
     (\<forall>p q. q \<noteq> 0 \<longrightarrow> p \<le> q \<longrightarrow>
        unat (perquintill_from_rational E p q) = unat p * QUINT div unat q) \<and>
     (\<forall>p q. unat (perquintill_from_rational E p q) \<le> QUINT) \<and>
     (\<forall>r n. unat r \<le> QUINT \<longrightarrow> perquintill_mul E r n \<le> n) \<and>
     (\<forall>p. unat (permill_from_parts E p) = min (unat p) (10 ^ 6)) \<and>
     (\<forall>p n. unat p \<le> 10 ^ 6 \<longrightarrow> unat (permill_mul_ceil E p n) = (unat p * unat n + 999999) div 10 ^ 6)"

lemma arith_ratioD: "arith_spec E \<Longrightarrow> q \<noteq> 0 \<Longrightarrow> p \<le> q \<Longrightarrow>
    unat (perquintill_from_rational E p q) = unat p * QUINT div unat q"
  unfolding arith_spec_def by blast

lemma arith_shareD: "arith_spec E \<Longrightarrow> perquintill_mul E (perquintill_from_rational E p q) n \<le> n"
  unfolding arith_spec_def by blast


section \<open>A concrete environment\<close>

text \<open>An account is its total and the reserved part of it.\<close>

type_synonym sample_bal = "(account \<Rightarrow> u128 \<times> u128) \<times> u128"

definition sb_reserved :: "sample_bal \<Rightarrow> account \<Rightarrow> u128" where
  "sb_reserved b a = (case fst b a of (t, r) \<Rightarrow> min r t)"

definition sb_free :: "sample_bal \<Rightarrow> account \<Rightarrow> u128" where
  "sb_free b a = fst (fst b a) - sb_reserved b a"

definition sb_put :: "account \<Rightarrow> u128 \<times> u128 \<Rightarrow> sample_bal \<Rightarrow> sample_bal" where
  "sb_put a p b = ((fst b)(a := p), snd b)"

definition sb_reserve :: "account \<Rightarrow> u128 \<Rightarrow> sample_bal \<Rightarrow> sample_bal result" where
  "sb_reserve a v b =
     (if v \<le> sb_free b a then Inr (sb_put a (fst (fst b a), sb_reserved b a + v) b)
      else Inl (External 2))"

definition sb_unreserve :: "account \<Rightarrow> u128 \<Rightarrow> sample_bal \<Rightarrow> sample_bal" where
  "sb_unreserve a v b =
     sb_put a (fst (fst b a), sb_reserved b a - min v (sb_reserved b a)) b"

definition sb_transfer :: "account \<Rightarrow> account \<Rightarrow> u128 \<Rightarrow> sample_bal \<Rightarrow> sample_bal result" where
  "sb_transfer a c v b =
     (if v \<le> sb_free b a
      then if a = c then Inr b
           else case checked_add (fst (fst b c)) v of
                  None \<Rightarrow> Inl (External 3)
                | Some t \<Rightarrow> Inr (sb_put a (fst (fst b a) - v, sb_reserved b a)
                                 (sb_put c (t, sb_reserved b c) b))
      else Inl (External 2))"

definition sb_mutate :: "account \<Rightarrow> u128 \<times> u128 \<Rightarrow> sample_bal \<Rightarrow> sample_bal result" where
  "sb_mutate a p b =
     (case checked_add (fst p) (snd p) of
        None \<Rightarrow> Inl (External 3)
      | Some t \<Rightarrow> Inr (sb_put a (t, snd p) b))"

definition sb_repatriate ::
  "account \<Rightarrow> account \<Rightarrow> u128 \<Rightarrow> balance_status \<Rightarrow> sample_bal \<Rightarrow> sample_bal result" where
  "sb_repatriate a c v st b = rbind (sb_transfer a c v (sb_unreserve a v b)) (\<lambda>b'.
     case st of balance_status.Free \<Rightarrow> Inr b' | balance_status.Reserved \<Rightarrow> sb_reserve c v b')"

definition sb_burn :: "account \<Rightarrow> u128 \<Rightarrow> sample_bal \<Rightarrow> sample_bal result" where
  "sb_burn a v b =
     (if v \<le> sb_free b a
      then Inr (fst (sb_put a (fst (fst b a) - v, sb_reserved b a) b), snd b - v)
      else Inl (External 2))"

definition sample_ratio :: "u128 \<Rightarrow> u128 \<Rightarrow> u64" where
  "sample_ratio p q =
     (if q = 0 \<or> q < p then 1000000000000000000
      else of_nat (unat p * QUINT div unat q))"

definition sample_mul :: "u64 \<Rightarrow> u128 \<Rightarrow> u128" where
  "sample_mul r n = of_nat (unat r * unat n div QUINT)"

definition sample_parts :: "u32 \<Rightarrow> u32" where
  "sample_parts p = min p 1000000"

definition sample_mul_ceil :: "u32 \<Rightarrow> u128 \<Rightarrow> u128" where
  "sample_mul_ceil p n = of_nat ((unat p * unat n + 999999) div 10 ^ 6)"

definition sample_env :: "'x \<Rightarrow> (sample_bal, 'x) env_scheme" where
  "sample_env m =
     \<lparr>bal_free = sb_free, bal_reserved = sb_reserved, bal_issuance = snd,
      bal_set_issuance = (\<lambda>n b. (fst b, n)), bal_transfer = sb_transfer,
      bal_can_reserve = (\<lambda>b a v. v \<le> sb_free b a), bal_reserve = sb_reserve,
      bal_unreserve = sb_unreserve, bal_repatriate = sb_repatriate,
      bal_mutate_account = sb_mutate, bal_burn_from = sb_burn,
      perquintill_from_rational = sample_ratio, perquintill_mul = sample_mul,
      permill_from_parts = sample_parts, permill_mul_ceil = sample_mul_ceil,
      lookup = (\<lambda>a. Some a), \<dots> = m\<rparr>"

lemma sample_env_simps [simp]:
  "bal_free (sample_env m) = sb_free" "bal_reserved (sample_env m) = sb_reserved"
  "bal_issuance (sample_env m) = snd" "bal_set_issuance (sample_env m) = (\<lambda>n b. (fst b, n))"
  "bal_transfer (sample_env m) = sb_transfer"
  "bal_can_reserve (sample_env m) = (\<lambda>b a v. v \<le> sb_free b a)"
  "bal_reserve (sample_env m) = sb_reserve" "bal_unreserve (sample_env m) = sb_unreserve"
  "bal_repatriate (sample_env m) = sb_repatriate" "bal_mutate_account (sample_env m) = sb_mutate"
  "bal_burn_from (sample_env m) = sb_burn"
  "perquintill_from_rational (sample_env m) = sample_ratio"
  "perquintill_mul (sample_env m) = sample_mul"
  "permill_from_parts (sample_env m) = sample_parts"
  "permill_mul_ceil (sample_env m) = sample_mul_ceil"
  "lookup (sample_env m) = (\<lambda>a. Some a)"
  by (simp_all add: sample_env_def)

lemma sb_reserved_le: "sb_reserved b a \<le> fst (fst b a)"
  by (simp add: sb_reserved_def split: prod.split)

lemma unat_sb_free: "unat (sb_free b a) + unat (sb_reserved b a) = unat (fst (fst b a))"
  using sb_reserved_le [of b a] by (simp add: sb_free_def unat_sub word_le_nat_alt)

lemma sb_put_other [simp]:
  "a \<noteq> w \<Longrightarrow> sb_free (sb_put w p b) a = sb_free b a"
  "a \<noteq> w \<Longrightarrow> sb_reserved (sb_put w p b) a = sb_reserved b a"
  "fst (sb_put w p b) w = p"
  by (simp_all add: sb_put_def sb_free_def sb_reserved_def)

lemma sb_put_same:
  assumes "snd p \<le> fst p"
  shows "sb_reserved (sb_put w p b) w = snd p"
    and "unat (sb_free (sb_put w p b) w) = unat (fst p) - unat (snd p)"
  using assms by (auto simp: sb_put_def sb_free_def sb_reserved_def min_def unat_sub split: prod.split)

lemma sample_reserve_spec: "reserve_spec (sample_env m)"
proof (unfold reserve_spec_def, intro allI impI)
  fix w v b b'
  assume "bal_reserve (sample_env m) w v b = Inr b'"
  then have v: "v \<le> sb_free b w"
    and b': "b' = sb_put w (fst (fst b w), sb_reserved b w + v) b"
    by (auto simp: sb_reserve_def split: if_splits)
  have le: "unat (sb_reserved b w) + unat v \<le> unat (fst (fst b w))"
    using v unat_sb_free [of b w] by (simp add: word_le_nat_alt)
  have "unat (fst (fst b w)) < 2 ^ LENGTH(128)" by (rule unsigned_less)
  with le have r: "unat (sb_reserved b w + v) = unat (sb_reserved b w) + unat v"
    by (simp add: unat_add_no_wrap)
  have "sb_reserved b' w = sb_reserved b w + v"
    "unat (sb_free b' w) = unat (fst (fst b w)) - (unat (sb_reserved b w) + unat v)"
    using sb_put_same [of "(fst (fst b w), sb_reserved b w + v)" w b] le r
    by (simp_all add: b' word_le_nat_alt)
  then show "unat (bal_free (sample_env m) b w) = unat (bal_free (sample_env m) b' w) + unat v \<and>
        unat (bal_reserved (sample_env m) b' w) = unat (bal_reserved (sample_env m) b w) + unat v \<and>
        (\<forall>a. a \<noteq> w \<longrightarrow> same_account (sample_env m) b b' a)"
    using r le unat_sb_free [of b w] by (simp add: same_account_def b')
qed

lemma sample_unreserve_spec: "unreserve_spec (sample_env m)"
proof (unfold unreserve_spec_def, intro allI impI)
  fix w v b
  assume "v \<le> bal_reserved (sample_env m) b w"
  then have v: "v \<le> sb_reserved b w" by simp
  let ?b' = "sb_put w (fst (fst b w), sb_reserved b w - v) b"
  have b': "bal_unreserve (sample_env m) w v b = ?b'"
    using v by (simp add: sb_unreserve_def min_def)
  have r: "unat (sb_reserved b w - v) = unat (sb_reserved b w) - unat v"
    using v by (rule unat_sub)
  have le: "unat v \<le> unat (sb_reserved b w)" "unat (sb_reserved b w) \<le> unat (fst (fst b w))"
    using v sb_reserved_le [of b w] by (simp_all add: word_le_nat_alt)
  have "sb_reserved ?b' w = sb_reserved b w - v"
    "unat (sb_free ?b' w) = unat (fst (fst b w)) - (unat (sb_reserved b w) - unat v)"
    using sb_put_same [of "(fst (fst b w), sb_reserved b w - v)" w b] le r
    by (simp_all add: word_le_nat_alt)
  then show "unat (bal_reserved (sample_env m) b w)
        = unat (bal_reserved (sample_env m) (bal_unreserve (sample_env m) w v b) w) + unat v \<and>
      unat (bal_free (sample_env m) (bal_unreserve (sample_env m) w v b) w)
        = unat (bal_free (sample_env m) b w) + unat v \<and>
      (\<forall>a. a \<noteq> w \<longrightarrow> same_account (sample_env m) b (bal_unreserve (sample_env m) w v b) a)"
    unfolding b' using r le unat_sb_free [of b w] by (simp add: same_account_def)
qed

lemma sample_mutate_spec: "mutate_spec (sample_env m)"
proof (unfold mutate_spec_def, intro allI impI)
  fix w p b b'
  assume "bal_mutate_account (sample_env m) w p b = Inr b'"
  then obtain t where t: "unat t = unat (fst p) + unat (snd p)" and b': "b' = sb_put w (t, snd p) b"
    by (auto simp: sb_mutate_def checked_add_Some split: option.splits)
  have "sb_reserved b' w = snd p" "unat (sb_free b' w) = unat (fst p)"
    using sb_put_same [of "(t, snd p)" w b] t by (simp_all add: b' word_le_nat_alt)
  then show "bal_free (sample_env m) b' w = fst p \<and> bal_reserved (sample_env m) b' w = snd p \<and>
      (\<forall>a. a \<noteq> w \<longrightarrow> same_account (sample_env m) b b' a)"
    by (simp add: same_account_def b' word_unat_eq_iff)
qed

lemma sb_transfer_effect:
  assumes "v \<le> sb_free b w" and "unat t = unat (fst (fst b u)) + unat v" and "w \<noteq> u"
    and b': "b' = sb_put w (fst (fst b w) - v, sb_reserved b w) (sb_put u (t, sb_reserved b u) b)"
  shows "sb_reserved b' a = sb_reserved b a"
    and "unat (sb_free b w) = unat (sb_free b' w) + unat v"
    and "unat (sb_free b' u) = unat (sb_free b u) + unat v"
proof -
  note fr = unat_sb_free [of b w] unat_sb_free [of b u]
  have vT: "unat v + unat (sb_reserved b w) \<le> unat (fst (fst b w))"
    using assms(1) fr(1) by (simp add: word_le_nat_alt)
  then have "v \<le> fst (fst b w)" by (simp add: word_le_nat_alt)
  then have T: "unat (fst (fst b w) - v) = unat (fst (fst b w)) - unat v" by (rule unat_sub)
  have w: "sb_reserved b' w = sb_reserved b w"
    "unat (sb_free b' w) = unat (fst (fst b w)) - unat v - unat (sb_reserved b w)"
    using sb_put_same [of "(fst (fst b w) - v, sb_reserved b w)" w "sb_put u (t, sb_reserved b u) b"] T vT
    by (simp_all add: b' word_le_nat_alt)
  have u: "sb_reserved b' u = sb_reserved b u" "unat (sb_free b' u) = unat t - unat (sb_reserved b u)"
    using sb_put_same [of "(t, sb_reserved b u)" u b] assms(2,3) sb_reserved_le [of b u]
    by (simp_all add: b' word_le_nat_alt)
  show "sb_reserved b' a = sb_reserved b a"
    using w u by (cases "a = w"; cases "a = u") (simp_all add: b')
  show "unat (sb_free b w) = unat (sb_free b' w) + unat v" using w fr vT by simp
  show "unat (sb_free b' u) = unat (sb_free b u) + unat v" using u fr assms(2) by simp
qed

lemma sample_transfer_spec: "transfer_spec (sample_env m)"
proof (unfold transfer_spec_def, intro allI impI)
  fix w u v b b'
  assume tr: "bal_transfer (sample_env m) w u v b = Inr b'"
  show "(\<forall>a. bal_reserved (sample_env m) b' a = bal_reserved (sample_env m) b a) \<and>
        (\<forall>a. a \<noteq> w \<longrightarrow> a \<noteq> u \<longrightarrow> bal_free (sample_env m) b' a = bal_free (sample_env m) b a) \<and>
        (w \<noteq> u \<longrightarrow> unat (bal_free (sample_env m) b w) = unat (bal_free (sample_env m) b' w) + unat v \<and>
                   unat (bal_free (sample_env m) b' u) = unat (bal_free (sample_env m) b u) + unat v)"
  proof (cases "w = u")
    case True
    with tr have "b' = b" by (auto simp: sb_transfer_def split: if_splits)
    with True show ?thesis by simp
  next
    case False
    with tr obtain t where "v \<le> sb_free b w" "unat t = unat (fst (fst b u)) + unat v"
      and b': "b' = sb_put w (fst (fst b w) - v, sb_reserved b w) (sb_put u (t, sb_reserved b u) b)"
      by (auto simp: sb_transfer_def checked_add_Some split: if_splits option.splits)
    note eff = sb_transfer_effect [OF this(1,2) False b']
    have "sb_free b' a = sb_free b a" if "a \<noteq> w" "a \<noteq> u" for a
      using that by (simp add: b')
    with eff show ?thesis by simp
  qed
qed

lemma sample_balances_spec: "balances_spec (sample_env m)"
  by (simp add: balances_spec_def sample_reserve_spec sample_unreserve_spec sample_mutate_spec
      sample_transfer_spec same_account_def sb_free_def sb_reserved_def)

lemma min_after_debit:
  fixes r t v :: u128
  assumes "v \<le> t - min r t"
  shows "min (min r t) (t - v) = min r t"
proof -
  have "unat v \<le> unat t - unat (min r t)"
    using assms min.cobounded2 [of r t] by (simp add: unat_sub word_le_nat_alt [of v])
  moreover from this have "v \<le> t" by (simp add: word_le_nat_alt)
  ultimately have "min r t \<le> t - v" using min.cobounded2 [of r t] by (simp add: word_le_nat_alt unat_sub)
  then show ?thesis by (simp add: min_def)
qed

lemma sample_burn_spec: "burn_spec (sample_env m)"
  using min_after_debit
  by (auto simp: burn_spec_def sb_burn_def sb_put_def sb_free_def sb_reserved_def split: if_splits prod.splits)

lemma sample_arith_spec: "arith_spec (sample_env m)"
proof -
  have q: "(QUINT :: nat) < 2 ^ LENGTH(64)" by (simp add: QUINT_def)
  have ratio: "unat (sample_ratio p q) = (if q = 0 \<or> q < p then QUINT else unat p * QUINT div unat q)
      \<and> unat (sample_ratio p q) \<le> QUINT" for p q
  proof (cases "q = 0 \<or> q < p")
    case True
    then show ?thesis by (simp add: sample_ratio_def QUINT_def)
  next
    case False
    then have "unat p \<le> unat q" "0 < unat q" by (auto simp: word_less_nat_alt unat_gt_0)
    then have "unat p * QUINT div unat q \<le> QUINT"
      by (metis div_le_mono mult.commute mult_le_mono2 nonzero_mult_div_cancel_left not_gr_zero)
    moreover from this have "unat (of_nat (unat p * QUINT div unat q) :: u64) = unat p * QUINT div unat q"
      using q by (simp add: unat_of_nat)
    ultimately show ?thesis using False by (simp add: sample_ratio_def)
  qed
  have mul: "sample_mul r n \<le> n" if "unat r \<le> QUINT" for r n
  proof -
    have "unat r * unat n div QUINT \<le> QUINT * unat n div QUINT"
      using that by (intro div_le_mono mult_le_mono1)
    then have "unat r * unat n div QUINT \<le> unat n" by (simp add: QUINT_def)
    moreover have "unat n < 2 ^ LENGTH(128)" by (rule unsigned_less)
    ultimately show ?thesis
      by (simp add: sample_mul_def word_le_nat_alt unat_of_nat)
  qed
  have ceil: "unat (sample_mul_ceil p n) = (unat p * unat n + 999999) div 10 ^ 6"
    if "unat p \<le> 10 ^ 6" for p n
  proof -
    have "unat p * unat n + 999999 \<le> 10 ^ 6 * unat n + 999999"
      using that by (simp add: mult_le_mono1)
    then have "(unat p * unat n + 999999) div 10 ^ 6 \<le> (10 ^ 6 * unat n + 999999) div 10 ^ 6"
      by (rule div_le_mono)
    also have "\<dots> = unat n" by simp
    finally have "(unat p * unat n + 999999) div 10 ^ 6 \<le> unat n" .
    moreover have "unat n < 2 ^ LENGTH(128)" by (rule unsigned_less)
    ultimately show ?thesis by (simp add: sample_mul_ceil_def unat_of_nat)
  qed
  have parts: "unat (sample_parts p) = min (unat p) (10 ^ 6)" for p
    by (simp add: sample_parts_def min_def word_le_nat_alt)
  have exact: "unat (sample_ratio p q) = unat p * QUINT div unat q" if "q \<noteq> 0" "p \<le> q" for p q
    using ratio [of p q] that by (simp add: leD)
  show ?thesis
    unfolding arith_spec_def sample_env_simps
    using exact ratio [THEN conjunct2] mul ceil parts by blast
qed

end
