(* ===== verification/Fuso_Token_Laws.thy ===== *)
theory Fuso_Token_Laws
  imports Fuso_Token Fuso_Balances
begin

text \<open>
  Laws of the token pallet. \<open>tok_supply s t\<close> is the sum of the free and reserved balances of token
  \<open>t\<close> over all accounts. Each operation's effect on one account and on the supply is a lemma;
  the step relation \<open>token_step\<close> collects all calls and trait methods that write balances or tokens, each with
  the amount by which it moves the balances away from the issuance, and rule induction over
  \<open>token_reachable\<close> gives the conservation invariant.

  The locale \<open>reservable_token\<close> is the contract of the trait \<^verbatim>\<open>ReservableToken\<close>; the pallet
  interprets it, and the clients of the pallet build on its lemmas.
\<close>

section \<open>Holdings and tok_supply\<close>

definition holding :: "token_account_data \<Rightarrow> nat" where
  "holding a = unat (free a) + unat (reserved a)"

definition slice :: "('b, 'z) token_chain_scheme \<Rightarrow> token_id \<Rightarrow> account \<Rightarrow> token_account_data option" where
  "slice s t = (\<lambda>w. Balances s (t, w))"

definition tok_supply :: "('b, 'z) token_chain_scheme \<Rightarrow> token_id \<Rightarrow> nat" where
  "tok_supply s t = msum holding (slice s t)"

definition fin_balances :: "('b, 'z) token_chain_scheme \<Rightarrow> bool" where
  "fin_balances s \<longleftrightarrow> (\<forall>t. finite (dom (slice s t)))"

lemma holding_default [simp]: "holding default_account = 0"
  by (simp add: holding_def default_account_def)

lemma owt_alive [simp]: "owt holding (alive a) = holding a"
  by (simp add: alive_def holding_def)

lemma owt_slice [simp]: "owt holding (slice s t w) = holding (get_token_balance s (t, w))"
  by (simp add: slice_def get_token_balance_def split: option.split)

lemma Balances_store [simp]:
  "Balances (store_account k a s) = (Balances s)(k := a)"
  "Tokens (store_account k a s) = Tokens s"
  "NextTokenId (store_account k a s) = NextTokenId s"
  "TokenByName (store_account k a s) = TokenByName s"
  "TokenByContract (store_account k a s) = TokenByContract s"
  "native (store_account k a s) = native s"
  "events (store_account k a s) = events s"
  by (simp_all add: store_account_def)

lemma deposit_event_simps [simp]:
  "Balances (deposit_event e t) = Balances t"
  "Tokens (deposit_event e t) = Tokens t"
  "NextTokenId (deposit_event e t) = NextTokenId t"
  "TokenByName (deposit_event e t) = TokenByName t"
  "TokenByContract (deposit_event e t) = TokenByContract t"
  by (cases t; simp add: deposit_event_def)+

lemma deposit_event_native [simp]: "native (deposit_event e t) = native t"
  by (simp add: deposit_event_def)

lemma get_balance_store [simp]:
  "get_token_balance (store_account k a s) k' =
     (if k' = k then (case a of None \<Rightarrow> default_account | Some x \<Rightarrow> x) else get_token_balance s k')"
  by (simp add: get_token_balance_def)

lemma get_balance_alive [simp]:
  "(case alive a of None \<Rightarrow> default_account | Some x \<Rightarrow> x) = a"
  by (cases a) (simp add: alive_def default_account_def)

lemma get_balance_same: "Balances t = Balances s \<Longrightarrow> get_token_balance t k = get_token_balance s k"
  by (simp add: get_token_balance_def)

lemma get_balance_deposit [simp]: "get_token_balance (deposit_event e t) k = get_token_balance t k"
  by (rule get_balance_same) simp

lemma get_balance_Some [simp]: "Balances s k = Some a \<Longrightarrow> get_token_balance s k = a"
  by (simp add: get_token_balance_def)

lemma slice_store: "slice (store_account (t, w) a s) t' = (if t' = t then (slice s t)(w := a) else slice s t')"
  by (auto simp: slice_def fun_eq_iff)

lemma supply_same: "Balances t = Balances s \<Longrightarrow> tok_supply t k = tok_supply s k"
  by (simp add: tok_supply_def slice_def)

lemma fin_same: "Balances t = Balances s \<Longrightarrow> fin_balances t = fin_balances s"
  by (simp add: fin_balances_def slice_def)

lemma supply_deposit [simp]:
  "tok_supply (deposit_event e t) k = tok_supply t k" "fin_balances (deposit_event e t) = fin_balances t"
  by (rule supply_same fin_same, simp)+

lemma fin_store [simp]: "fin_balances (store_account (t, w) a s) = fin_balances s"
proof -
  have "finite (dom (slice (store_account (t, w) a s) u)) = finite (dom (slice s u))" for u
    by (cases "u = t") (simp_all add: slice_store)
  then show ?thesis by (simp add: fin_balances_def)
qed

lemma supply_store_other [simp]: "t' \<noteq> t \<Longrightarrow> tok_supply (store_account (t, w) a s) t' = tok_supply s t'"
  by (simp add: tok_supply_def slice_store)

lemma supply_store:
  "fin_balances s \<Longrightarrow>
   tok_supply (store_account (t, w) a s) t + holding (get_token_balance s (t, w))
     = tok_supply s t + owt holding a"
  using msum_update [of "slice s t" holding w a] by (simp add: tok_supply_def slice_store fin_balances_def)

section \<open>Effects of the operations\<close>

text \<open>A successful transfer debits the sender and credits the receiver. With one account on both
  sides the credit is lost: the outer write wins.\<close>

lemma transfer_token_other:
  assumes "transfer_token E a t v b s = Inr s'" and "t \<noteq> native_token_id E" and "a \<noteq> b"
  shows "unat (free (get_token_balance s (t, a))) = unat (free (get_token_balance s' (t, a))) + unat v"
    and "unat (free (get_token_balance s' (t, b))) = unat (free (get_token_balance s (t, b))) + unat v"
    and "reserved (get_token_balance s' (t, a)) = reserved (get_token_balance s (t, a))"
    and "reserved (get_token_balance s' (t, b)) = reserved (get_token_balance s (t, b))"
  using assms
  by (auto simp: transfer_token_def Let_def res_simps checked_add_Some checked_sub_Some
      split: if_splits)

lemma transfer_token_self:
  assumes "transfer_token E a t v a s = Inr s'" and "t \<noteq> native_token_id E"
  shows "unat (free (get_token_balance s (t, a))) = unat (free (get_token_balance s' (t, a))) + unat v"
    and "reserved (get_token_balance s' (t, a)) = reserved (get_token_balance s (t, a))"
  using assms
  by (auto simp: transfer_token_def Let_def res_simps checked_add_Some checked_sub_Some
      split: if_splits)

lemma transfer_token_frame:
  assumes "transfer_token E a t v b s = Inr s'" and "k \<noteq> (t, a)" and "k \<noteq> (t, b)"
  shows "get_token_balance s' k = get_token_balance s k"
  using assms
  by (auto simp: transfer_token_def Let_def res_simps get_token_balance_def split: if_splits)

lemma transfer_token_storage:
  assumes "transfer_token E a t v b s = Inr s'"
  shows "Tokens s' = Tokens s" "NextTokenId s' = NextTokenId s" "TokenByName s' = TokenByName s"
    "TokenByContract s' = TokenByContract s"
  using assms by (auto simp: transfer_token_def Let_def res_simps split: if_splits)

lemma token_reserve_effect:
  assumes "token_reserve E t w v s = Inr s'" and "t \<noteq> native_token_id E"
  shows "unat (free (get_token_balance s (t, w))) = unat (free (get_token_balance s' (t, w))) + unat v"
    and "unat (reserved (get_token_balance s' (t, w))) = unat (reserved (get_token_balance s (t, w))) + unat v"
  using assms
  by (auto simp: token_reserve_def res_simps checked_add_Some checked_sub_Some split: if_splits)

lemma token_unreserve_effect:
  assumes "token_unreserve E t w v s = Inr s'" and "t \<noteq> native_token_id E"
  shows "unat (reserved (get_token_balance s (t, w))) = unat (reserved (get_token_balance s' (t, w))) + unat v"
    and "unat (free (get_token_balance s' (t, w))) = unat (free (get_token_balance s (t, w))) + unat v"
  using assms
  by (auto simp: token_unreserve_def res_simps checked_add_Some checked_sub_Some split: if_splits)

lemma token_reserve_frame:
  assumes "token_reserve E t w v s = Inr s'"
  shows "k \<noteq> (t, w) \<Longrightarrow> get_token_balance s' k = get_token_balance s k"
    and "t \<noteq> native_token_id E \<Longrightarrow> native s' = native s"
    and "t = native_token_id E \<Longrightarrow> Balances s' = Balances s"
  using assms by (auto simp: token_reserve_def res_simps get_token_balance_def split: if_splits)

lemma token_unreserve_frame:
  assumes "token_unreserve E t w v s = Inr s'"
  shows "k \<noteq> (t, w) \<Longrightarrow> get_token_balance s' k = get_token_balance s k"
    and "t \<noteq> native_token_id E \<Longrightarrow> native s' = native s"
    and "t = native_token_id E \<Longrightarrow> Balances s' = Balances s"
  using assms by (auto simp: token_unreserve_def res_simps get_token_balance_def split: if_splits)


section \<open>Effects on the supply\<close>

definition issued :: "('b, 'z) token_chain_scheme \<Rightarrow> token_id \<Rightarrow> nat" where
  "issued s t = (case Tokens s t of None \<Rightarrow> 0 | Some info \<Rightarrow> unat (xtoken_total info))"

lemma issued_same: "Tokens s' = Tokens s \<Longrightarrow> issued s' t = issued s t"
  by (simp add: issued_def)

lemma holding_upd:
  "holding (a\<lparr>free := f\<rparr>) = unat f + unat (reserved a)"
  "holding (a\<lparr>reserved := r\<rparr>) = unat (free a) + unat r"
  "holding (a\<lparr>free := f, reserved := r\<rparr>) = unat f + unat r"
  by (simp_all add: holding_def)

lemma fin_tokens_upd [simp]: "fin_balances (s\<lparr>Tokens := m\<rparr>) = fin_balances s"
  "tok_supply (s\<lparr>Tokens := m\<rparr>) u = tok_supply s u"
  by (rule fin_same supply_same, simp)+

lemma supply_transfer:
  assumes "transfer_token E a t v b s = Inr s'" and "fin_balances s" and "a \<noteq> b"
  shows "tok_supply s' u = tok_supply s u"
proof (cases "v = 0 \<or> t = native_token_id E")
  case True
  then have "Balances s' = Balances s"
    using assms(1) by (auto simp: transfer_token_def res_simps split: if_splits)
  then show ?thesis by (rule supply_same)
next
  case False
  with assms obtain acc f g where acc: "Balances s (t, a) = Some acc"
    and f: "unat (free acc) = unat v + unat f"
    and g: "unat g = unat (free (get_token_balance s (t, b))) + unat v"
    and s': "s' = deposit_event (TokenEv (TokenTransfered t a b v))
      (store_account (t, a) (alive (acc\<lparr>free := f\<rparr>))
        (store_account (t, b) (Some (get_token_balance s (t, b)\<lparr>free := g\<rparr>)) s))"
    by (auto simp: transfer_token_def Let_def res_simps checked_add_Some checked_sub_Some)
  let ?s1 = "store_account (t, b) (Some (get_token_balance s (t, b)\<lparr>free := g\<rparr>)) s"
  show ?thesis
  proof (cases "u = t")
    case True
    have "tok_supply ?s1 t + holding (get_token_balance s (t, b))
        = tok_supply s t + (unat g + unat (reserved (get_token_balance s (t, b))))"
      using supply_store [OF assms(2), of t b] by (simp add: holding_upd)
    moreover have "tok_supply s' t + holding acc = tok_supply ?s1 t + (unat f + unat (reserved acc))"
      using supply_store [of ?s1 t a] assms(2,3) acc by (simp add: s' holding_upd)
    ultimately show ?thesis using f g True by (simp add: holding_def)
  qed (simp add: s')
qed

lemma supply_transfer_self:
  assumes "transfer_token E a t v a s = Inr s'" and "fin_balances s" and "t \<noteq> native_token_id E"
  shows "tok_supply s' t + unat v = tok_supply s t"
proof (cases "v = 0")
  case True
  then show ?thesis using assms by (simp add: transfer_token_def)
next
  case False
  with assms obtain acc f g where acc: "Balances s (t, a) = Some acc"
    and f: "unat (free acc) = unat v + unat f"
    and s': "s' = deposit_event (TokenEv (TokenTransfered t a a v))
      (store_account (t, a) (alive (acc\<lparr>free := f\<rparr>))
        (store_account (t, a) (Some (acc\<lparr>free := g\<rparr>)) s))"
    by (auto simp: transfer_token_def Let_def res_simps checked_sub_Some)
  have "s' = deposit_event (TokenEv (TokenTransfered t a a v)) (store_account (t, a) (alive (acc\<lparr>free := f\<rparr>)) s)"
    by (simp add: s' store_account_def)
  then show ?thesis
    using supply_store [OF assms(2), of t a "alive (acc\<lparr>free := f\<rparr>)"] acc f
    by (simp add: holding_def)
qed

lemma supply_transfer_self_other:
  assumes "transfer_token E a t v a s = Inr s'" and "t = native_token_id E \<or> u \<noteq> t"
  shows "tok_supply s' u = tok_supply s u"
  using assms
  by (auto simp: transfer_token_def Let_def res_simps split: if_splits intro: supply_same)

lemma fin_transfer:
  "transfer_token E a t v b s = Inr s' \<Longrightarrow> fin_balances s \<Longrightarrow> fin_balances s'"
  by (auto simp: transfer_token_def Let_def res_simps split: if_splits)
    (simp add: fin_balances_def slice_def)

lemma supply_reserve:
  assumes "token_reserve E t w v s = Inr s'" and "fin_balances s"
  shows "tok_supply s' u = tok_supply s u \<and> fin_balances s' \<and> Tokens s' = Tokens s"
proof (cases "v = 0 \<or> t = native_token_id E")
  case True
  then have "Balances s' = Balances s \<and> Tokens s' = Tokens s"
    using assms(1) by (auto simp: token_reserve_def res_simps split: if_splits)
  with assms(2) show ?thesis using supply_same [of s' s] fin_same [of s' s] by simp
next
  case False
  with assms obtain acc f r where acc: "Balances s (t, w) = Some acc"
    and fr: "unat (free acc) = unat v + unat f" "unat r = unat (reserved acc) + unat v"
    and s': "s' = store_account (t, w) (Some (acc\<lparr>free := f, reserved := r\<rparr>))
      (deposit_event (TokenEv (TokenReserved t w v)) s)"
    by (auto simp: token_reserve_def res_simps checked_add_Some checked_sub_Some)
  have "tok_supply s' t + holding acc = tok_supply s t + (unat f + unat r)"
    using supply_store [of "deposit_event (TokenEv (TokenReserved t w v)) s" t w] assms(2) acc
    by (simp add: s' holding_upd)
  with fr assms(2) show ?thesis
    by (cases "u = t") (simp_all add: s' holding_def)
qed

lemma supply_unreserve:
  assumes "token_unreserve E t w v s = Inr s'" and "fin_balances s"
  shows "tok_supply s' u = tok_supply s u \<and> fin_balances s' \<and> Tokens s' = Tokens s"
proof (cases "v = 0 \<or> t = native_token_id E")
  case True
  then have "Balances s' = Balances s \<and> Tokens s' = Tokens s"
    using assms(1) by (auto simp: token_unreserve_def res_simps split: if_splits)
  with assms(2) show ?thesis using supply_same [of s' s] fin_same [of s' s] by simp
next
  case False
  with assms obtain acc f r where acc: "Balances s (t, w) = Some acc"
    and fr: "unat (reserved acc) = unat v + unat r" "unat f = unat (free acc) + unat v"
    and s': "s' = store_account (t, w) (Some (acc\<lparr>free := f, reserved := r\<rparr>))
      (deposit_event (TokenEv (TokenUnreserved t w v)) s)"
    by (auto simp: token_unreserve_def res_simps checked_add_Some checked_sub_Some)
  have "tok_supply s' t + holding acc = tok_supply s t + (unat f + unat r)"
    using supply_store [of "deposit_event (TokenEv (TokenUnreserved t w v)) s" t w] assms(2) acc
    by (simp add: s' holding_upd)
  with fr assms(2) show ?thesis
    by (cases "u = t") (simp_all add: s' holding_def)
qed

lemma credit_holding: "credit st v a = Inr a' \<Longrightarrow> holding a' = holding a + unat v"
  by (cases st) (auto simp: res_simps checked_add_Some holding_def)

lemma supply_repatriate_move:
  assumes "repatriate_reserved E t a b v st s = Inr s'" and "fin_balances s"
    and "t \<noteq> native_token_id E" "a \<noteq> b"
  shows "tok_supply s' u = tok_supply s u \<and> fin_balances s' \<and> Tokens s' = Tokens s"
proof -
  from assms obtain acc r acct where acc: "Balances s (t, a) = Some acc"
    and r: "unat (reserved acc) = unat v + unat r"
    and acct: "credit st v (get_token_balance s (t, b)) = Inr acct"
    and s': "s' = deposit_event (TokenEv (TokenRepatriated t a b v))
      (store_account (t, a) (alive (acc\<lparr>reserved := r\<rparr>)) (store_account (t, b) (Some acct) s))"
    by (auto simp: repatriate_reserved_def Let_def res_simps checked_sub_Some)
  let ?s1 = "store_account (t, b) (Some acct) s"
  have "tok_supply ?s1 t + holding (get_token_balance s (t, b)) = tok_supply s t + holding acct"
    using supply_store [OF assms(2), of t b] by simp
  moreover have "tok_supply s' t + holding acc = tok_supply ?s1 t + (unat (free acc) + unat r)"
    using supply_store [of ?s1 t a] assms(2,4) acc by (simp add: s' holding_upd)
  ultimately show ?thesis
    using r credit_holding [OF acct] assms(2)
    by (cases "u = t") (simp_all add: s' holding_def)
qed

lemma supply_repatriate:
  assumes "repatriate_reserved E t a b v st s = Inr s'" and "fin_balances s"
  shows "tok_supply s' u = tok_supply s u \<and> fin_balances s' \<and> Tokens s' = Tokens s"
proof -
  consider (native) "t = native_token_id E" | (same) "t \<noteq> native_token_id E" "a = b"
    | (move) "t \<noteq> native_token_id E" "a \<noteq> b" by blast
  then show ?thesis
  proof cases
    case native
    with assms(1) have "Balances s' = Balances s \<and> Tokens s' = Tokens s"
      by (auto simp: repatriate_reserved_def res_simps)
    with assms(2) show ?thesis using supply_same [of s' s] fin_same [of s' s] by simp
  next
    case same
    with assms(1) have "token_unreserve E t a v s = Inr s' \<or> token_reserve E t a v s = Inr s'"
      by (cases st) (simp_all add: repatriate_reserved_def)
    with assms(2) show ?thesis using supply_reserve supply_unreserve by blast
  next
    case move
    with assms show ?thesis by (rule supply_repatriate_move)
  qed
qed

lemma adjust_total_mint:
  assumes "adjust_total checked_add amount info = Inr (u, info')"
  shows "(\<exists>n tot. info = FND10 n tot \<and> info' = info \<and> u = tot) \<or>
    ((\<nexists>n tot. info' = FND10 n tot) \<and> unat (xtoken_total info') = unat (xtoken_total info) + unat u)"
  using assms by (cases info) (auto simp: Let_def res_simps checked_add_Some)

lemma adjust_total_burn:
  assumes "adjust_total checked_sub amount info = Inr (u, info')"
  shows "(\<exists>n tot. info = FND10 n tot \<and> info' = info \<and> u = tot) \<or>
    ((\<nexists>n tot. info' = FND10 n tot) \<and> unat (xtoken_total info) = unat (xtoken_total info') + unat u)"
  using assms by (cases info) (auto simp: Let_def res_simps checked_sub_Some)

lemma do_mint_elim:
  assumes "do_mint t w v s = Inr s'" and "v \<noteq> 0"
  obtains info u info' f where "Tokens s t = Some info"
    and "adjust_total checked_add v info = Inr (u, info')" and "u \<noteq> 0"
    and "unat f = unat (free (get_token_balance s (t, w))) + unat u"
    and "s' = deposit_event (TokenEv (TokenMinted t w u))
      ((store_account (t, w) (Some (get_token_balance s (t, w)\<lparr>free := f\<rparr>)) s)\<lparr>Tokens := (Tokens s)(t := Some info')\<rparr>)"
  using assms by (auto simp: do_mint_def Let_def res_simps checked_add_Some)

lemma do_burn_elim:
  assumes "do_burn t w v s = Inr (v', s')"
  obtains info u info' acc f where "Tokens s t = Some info"
    and "adjust_total checked_sub v info = Inr (u, info')" and "u \<noteq> 0" and "v' = v"
    and "Balances s (t, w) = Some acc" and "unat (free acc) = unat u + unat f"
    and "s' = deposit_event (TokenEv (TokenBurned t w u))
      ((store_account (t, w) (alive (acc\<lparr>free := f\<rparr>)) s)\<lparr>Tokens := (Tokens s)(t := Some info')\<rparr>)"
  using assms by (auto simp: do_burn_def Let_def res_simps checked_sub_Some)

lemma supply_mint:
  assumes "s' = deposit_event e ((store_account (t, w) (Some (get_token_balance s (t, w)\<lparr>free := f\<rparr>)) s)\<lparr>Tokens := m\<rparr>)"
    and "unat f = unat (free (get_token_balance s (t, w))) + unat u" and "fin_balances s"
  shows "tok_supply s' k = tok_supply s k + (if k = t then unat u else 0) \<and> fin_balances s'"
proof -
  have "tok_supply s' t + holding (get_token_balance s (t, w))
      = tok_supply s t + (unat f + unat (reserved (get_token_balance s (t, w))))"
    using supply_store [OF assms(3), of t w] by (simp add: assms(1) holding_upd)
  then show ?thesis using assms by (auto simp: holding_def)
qed

lemma supply_burn:
  assumes "s' = deposit_event e ((store_account (t, w) (alive (acc\<lparr>free := f\<rparr>)) s)\<lparr>Tokens := m\<rparr>)"
    and "Balances s (t, w) = Some acc" and "unat (free acc) = unat u + unat f" and "fin_balances s"
  shows "tok_supply s' k + (if k = t then unat u else 0) = tok_supply s k \<and> fin_balances s'"
proof -
  have "tok_supply s' t + holding acc = tok_supply s t + (unat f + unat (reserved acc))"
    using supply_store [OF assms(4), of t w "alive (acc\<lparr>free := f\<rparr>)"] assms(2)
    by (simp add: assms(1) holding_upd)
  then show ?thesis using assms by (auto simp: holding_def)
qed

section \<open>The state machine of balance-writing operations\<close>

text \<open>The label says by how much the step changes the balances of each token beyond its issuance: a transfer
  of an account to itself loses the amount, and \<open>try_mutate_account\<close> writes what its closure computes, which
  may touch the storage of other pallets. All other steps have the label \<open>no_drift\<close>. Token ids are handed
  out once, until the counter wraps around.\<close>

abbreviation no_drift :: "token_id \<Rightarrow> int" where "no_drift \<equiv> (\<lambda>_. 0)"

definition same_tokens :: "('b, 'z) token_chain_scheme \<Rightarrow> ('b, 'z) token_chain_scheme \<Rightarrow> bool" where
  "same_tokens s s' \<longleftrightarrow> Balances s' = Balances s \<and> Tokens s' = Tokens s \<and> NextTokenId s' = NextTokenId s"

inductive token_step ::
  "('b, 'x) token_env_scheme \<Rightarrow> (token_id \<Rightarrow> int) \<Rightarrow> ('b, 'z) token_chain_scheme \<Rightarrow> ('b, 'z) token_chain_scheme \<Rightarrow> bool"
  for E where
  step_issue: "issue E orig info s = Inr s' \<Longrightarrow> NextTokenId s \<noteq> - 1 \<Longrightarrow> token_step E no_drift s s'"
| step_create: "create info s = Inr (tid, s') \<Longrightarrow> NextTokenId s \<noteq> - 1 \<Longrightarrow> token_step E no_drift s s'"
| step_mark_stable: "mark_stable orig t s = Inr s' \<Longrightarrow> token_step E no_drift s s'"
| step_associate: "associate_token E orig c contr t s = Inr s' \<Longrightarrow> token_step E no_drift s s'"
| step_transfer: "transfer_token E a t v b s = Inr s' \<Longrightarrow>
    token_step E (if a = b \<and> t \<noteq> native_token_id E then no_drift(t := - int (unat v)) else no_drift) s s'"
| step_mint: "do_mint t w v s = Inr s' \<Longrightarrow> token_step E no_drift s s'"
| step_burn: "do_burn t w v s = Inr (v', s') \<Longrightarrow> token_step E no_drift s s'"
| step_reserve: "token_reserve E t w v s = Inr s' \<Longrightarrow> token_step E no_drift s s'"
| step_unreserve: "token_unreserve E t w v s = Inr s' \<Longrightarrow> token_step E no_drift s s'"
| step_repatriate: "repatriate_reserved E t a b v st s = Inr s' \<Longrightarrow> token_step E no_drift s s'"
| step_mutate: "try_mutate_account E t w f s = Inr s' \<Longrightarrow> (\<forall>b u v u'. f b u = Inr (v, u') \<longrightarrow> same_tokens u u') \<Longrightarrow>
    token_step E (if t = native_token_id E then no_drift
      else no_drift(t := int (holding (get_token_balance s' (t, w))) - int (holding (get_token_balance s (t, w))))) s s'"
| step_issuance: "try_mutate_issuance E t h s = Inr s' \<Longrightarrow> token_step E no_drift s s'"
| step_other: "same_tokens s s' \<Longrightarrow> token_step E no_drift s s'"

definition token_genesis :: "('b, 'z) token_chain_scheme \<Rightarrow> bool" where
  "token_genesis s \<longleftrightarrow> Balances s = Map.empty \<and> Tokens s = Map.empty \<and> NextTokenId s = 1"

inductive token_reachable ::
  "('b, 'x) token_env_scheme \<Rightarrow> (token_id \<Rightarrow> int) \<Rightarrow> ('b, 'z) token_chain_scheme \<Rightarrow> bool" for E where
  reach_genesis: "token_genesis s \<Longrightarrow> token_reachable E no_drift s"
| reach_step: "token_reachable E d s \<Longrightarrow> token_step E g s s' \<Longrightarrow> token_reachable E (\<lambda>t. d t + g t) s'"

definition token_inv :: "(token_id \<Rightarrow> int) \<Rightarrow> ('b, 'z) token_chain_scheme \<Rightarrow> bool" where
  "token_inv d s \<longleftrightarrow>
     fin_balances s \<and>
     (\<forall>t. int (tok_supply s t) = int (issued s t) + d t) \<and>
     (\<forall>t n tot. Tokens s t = Some (FND10 n tot) \<longrightarrow> tot = 0) \<and>
     (\<forall>t. NextTokenId s \<le> t \<longrightarrow> Tokens s t = None)"

lemma token_inv_frame:
  assumes "token_inv x s" and "Balances s' = Balances s \<and> Tokens s' = Tokens s \<and> NextTokenId s' = NextTokenId s"
  shows "token_inv x s'"
  using assms supply_same [of s' s] fin_same [of s' s] by (simp add: token_inv_def issued_def)

lemma token_inv_moves:
  assumes "token_inv x s" and "\<And>u. tok_supply s' u = tok_supply s u" and "fin_balances s'"
    and "Tokens s' = Tokens s" and "NextTokenId s' = NextTokenId s"
  shows "token_inv x s'"
  using assms by (simp add: token_inv_def issued_def)

lemma token_inv_conserve:
  assumes "token_inv x s"
    and "\<And>u. fin_balances s \<Longrightarrow> tok_supply s' u = tok_supply s u \<and> fin_balances s' \<and> Tokens s' = Tokens s"
    and "NextTokenId s' = NextTokenId s"
  shows "token_inv x s'"
proof -
  have "fin_balances s" using assms(1) by (simp add: token_inv_def)
  with assms(2) have "tok_supply s' u = tok_supply s u" "fin_balances s'" "Tokens s' = Tokens s" for u
    by blast+
  with assms(1,3) show ?thesis by (auto intro: token_inv_moves)
qed

lemma next_id_reserve: "token_reserve E t w v s = Inr s' \<Longrightarrow> NextTokenId s' = NextTokenId s"
  by (auto simp: token_reserve_def res_simps split: if_splits)

lemma next_id_unreserve: "token_unreserve E t w v s = Inr s' \<Longrightarrow> NextTokenId s' = NextTokenId s"
  by (auto simp: token_unreserve_def res_simps split: if_splits)

lemma next_id_repatriate:
  "repatriate_reserved E t a b v st s = Inr s' \<Longrightarrow> NextTokenId s' = NextTokenId s"
  by (auto simp: repatriate_reserved_def Let_def res_simps next_id_reserve next_id_unreserve
      split: if_splits balance_status.splits)

lemma insert_token_effect:
  "insert_token info s = Inr (tid, s') \<Longrightarrow>
   tid = NextTokenId s \<and> NextTokenId s' = NextTokenId s + 1 \<and> Balances s' = Balances s \<and>
   Tokens s' = (Tokens s)(NextTokenId s \<mapsto> info)"
  by (auto simp: insert_token_def Let_def)

lemma create_insert:
  assumes "create info s = Inr (tid, s')"
  obtains info' m where "insert_token info' (s\<lparr>TokenByName := m\<rparr>) = Inr (tid, s')" "xtoken_total info' = 0"
proof (cases info)
  case (NEP141 x11 x12 x13 x14 x15)
  then show ?thesis using assms by (intro that) (auto simp: res_simps)
next
  case (ERC20 x11 x12 x13 x14 x15)
  then show ?thesis using assms that [of "ERC20 x11 x12 0 x14 x15" "TokenByName s"]  by (simp add: res_simps)
next
  case (BEP20 x11 x12 x13 x14 x15)
  then show ?thesis using assms that [of "BEP20 x11 x12 0 x14 x15" "TokenByName s"]  by (simp add: res_simps)
next
  case (FND10 n x15)
  then show ?thesis using assms that [of "FND10 n 0" "TokenByName s"]  by (simp add: res_simps)
qed

lemma create_effect:
  assumes "create info s = Inr (tid, s')"
  shows "tid = NextTokenId s" "NextTokenId s' = NextTokenId s + 1" "Balances s' = Balances s"
    "\<exists>info'. Tokens s' = (Tokens s)(tid \<mapsto> info') \<and> xtoken_total info' = 0"
proof -
  from assms obtain info' m where ins: "insert_token info' (s\<lparr>TokenByName := m\<rparr>) = Inr (tid, s')"
    and z: "xtoken_total info' = 0" by (rule create_insert)
  from insert_token_effect [OF ins] show "tid = NextTokenId s" "NextTokenId s' = NextTokenId s + 1" "Balances s' = Balances s"
     by simp_all
  from insert_token_effect [OF ins] z show "\<exists>info'. Tokens s' = (Tokens s)(tid \<mapsto> info') \<and> xtoken_total info' = 0"
    by auto
qed

lemma unat_Suc_id: "(n::u32) \<noteq> - 1 \<Longrightarrow> unat (n + 1) = Suc (unat n)"
  by (metis add.commute add_cancel_left_right eq_neg_iff_add_eq_0 plus_1_eq_Suc unatSuc)

lemma token_inv_create:
  assumes "create info s = Inr (tid, s')" and "token_inv x s" and "NextTokenId s \<noteq> - 1"
  shows "token_inv x s'"
proof -
  note eff = create_effect [OF assms(1)]
  from eff(4) obtain info' where T: "Tokens s' = (Tokens s)(tid \<mapsto> info')" and z: "xtoken_total info' = 0"
    by blast
  have none: "Tokens s tid = None" using assms(2) by (simp add: token_inv_def eff(1))
  then have iss: "issued s' u = issued s u" for u by (simp add: issued_def T z)
  have sup: "tok_supply s' u = tok_supply s u" for u by (rule supply_same [OF eff(3)])
  have fin: "fin_balances s'" using assms(2) fin_same [OF eff(3)] by (simp add: token_inv_def)
  have fnd: "tot = 0" if "Tokens s' u = Some (FND10 n tot)" for u n tot
    using that assms(2) z by (cases "u = tid") (auto simp: T token_inv_def)
  have "Tokens s' u = None" if "NextTokenId s' \<le> u" for u
  proof -
    have "Suc (unat (NextTokenId s)) \<le> unat u"
      using that assms(3) by (simp add: eff(2) word_le_nat_alt unat_Suc_id)
    then have "u \<noteq> tid" "NextTokenId s \<le> u" by (auto simp: eff(1) word_le_nat_alt)
    with assms(2) show ?thesis by (simp add: T token_inv_def)
  qed
  with iss sup fin fnd assms(2) show ?thesis by (simp add: token_inv_def)
qed

lemma token_inv_mint:
  assumes "do_mint t w v s = Inr s'" and "token_inv x s"
  shows "token_inv x s'"
proof (cases "v = 0")
  case True
  with assms show ?thesis by (simp add: do_mint_def)
next
  case False
  with assms(1) obtain info u info' f where info: "Tokens s t = Some info"
    and adj: "adjust_total checked_add v info = Inr (u, info')" and "u \<noteq> 0"
    and f: "unat f = unat (free (get_token_balance s (t, w))) + unat u"
    and s': "s' = deposit_event (TokenEv (TokenMinted t w u))
      ((store_account (t, w) (Some (get_token_balance s (t, w)\<lparr>free := f\<rparr>)) s)\<lparr>Tokens := (Tokens s)(t := Some info')\<rparr>)"
    by (rule do_mint_elim)
  have "\<nexists>n tot. info' = FND10 n tot" and tot: "unat (xtoken_total info') = unat (xtoken_total info) + unat u"
    using adjust_total_mint [OF adj] assms(2) info \<open>u \<noteq> 0\<close> by (auto simp: token_inv_def)
  moreover have "issued s' k = issued s k + (if k = t then unat u else 0)" for k
    using info tot by (simp add: issued_def s')
  moreover have "NextTokenId s \<le> k \<Longrightarrow> k \<noteq> t" for k using assms(2) info by (auto simp: token_inv_def)
  ultimately show ?thesis
    using supply_mint [OF s' f] assms(2) by (auto simp: token_inv_def s')
qed

lemma token_inv_burn:
  assumes "do_burn t w v s = Inr (v', s')" and "token_inv x s"
  shows "token_inv x s'"
proof -
  from assms(1) obtain info u info' acc f where info: "Tokens s t = Some info"
    and adj: "adjust_total checked_sub v info = Inr (u, info')" and "u \<noteq> 0" and "v' = v"
    and acc: "Balances s (t, w) = Some acc" and f: "unat (free acc) = unat u + unat f"
    and s': "s' = deposit_event (TokenEv (TokenBurned t w u))
      ((store_account (t, w) (alive (acc\<lparr>free := f\<rparr>)) s)\<lparr>Tokens := (Tokens s)(t := Some info')\<rparr>)"
    by (rule do_burn_elim)
  have "\<nexists>n tot. info' = FND10 n tot" and tot: "unat (xtoken_total info) = unat (xtoken_total info') + unat u"
    using adjust_total_burn [OF adj] assms(2) info \<open>u \<noteq> 0\<close> by (auto simp: token_inv_def)
  moreover have iss: "issued s' k + (if k = t then unat u else 0) = issued s k" for k
    using info tot by (simp add: issued_def s')
  moreover have "NextTokenId s \<le> k \<Longrightarrow> k \<noteq> t" for k using assms(2) info by (auto simp: token_inv_def)
  moreover have fin: "fin_balances s" using assms(2) by (simp add: token_inv_def)
  moreover have "int (tok_supply s' k) = int (issued s' k) + x k" for k
  proof -
    have "int (tok_supply s k) = int (issued s k) + x k" using assms(2) by (simp add: token_inv_def)
    then show ?thesis using supply_burn [OF s' acc f fin, of k] iss [of k] by linarith
  qed
  ultimately show ?thesis
    using supply_burn [OF s' acc f] assms(2) by (auto simp: token_inv_def s')
qed

lemma token_inv_transfer:
  assumes "transfer_token E a t v b s = Inr s'" and "token_inv x s"
  shows "token_inv (\<lambda>u. x u + (if a = b \<and> t \<noteq> native_token_id E then no_drift(t := - int (unat v)) else no_drift) u) s'"
proof -
  have fin: "fin_balances s" using assms(2) by (simp add: token_inv_def)
  have sup: "int (tok_supply s' u) = int (tok_supply s u) +
      (if a = b \<and> t \<noteq> native_token_id E then no_drift(t := - int (unat v)) else no_drift) u" for u
  proof (cases "a = b")
    case False
    with supply_transfer [OF assms(1) fin False, of u] show ?thesis by simp
  next
    case True
    note self = assms(1) [folded True]
    show ?thesis
    proof (cases "t \<noteq> native_token_id E \<and> u = t")
      case True
      then have "int (tok_supply s' t) = int (tok_supply s t) - int (unat v)"
        using supply_transfer_self [OF self fin] by linarith
      with True \<open>a = b\<close> show ?thesis by simp
    next
      case False
      then have "tok_supply s' u = tok_supply s u" by (intro supply_transfer_self_other [OF self]) auto
      with False show ?thesis by auto
    qed
  qed
  have "issued s' u = issued s u" for u by (rule issued_same [OF transfer_token_storage(1) [OF assms(1)]])
  then show ?thesis using assms(2) transfer_token_storage [OF assms(1)] fin_transfer [OF assms(1) fin]
    by (simp add: token_inv_def sup)
qed

lemma token_inv_mutate:
  assumes "try_mutate_account E t w f s = Inr s'" and "\<forall>b u v u'. f b u = Inr (v, u') \<longrightarrow> same_tokens u u'" and "token_inv x s"
  shows "token_inv (\<lambda>u. x u + (if t = native_token_id E then no_drift
      else no_drift(t := int (holding (get_token_balance s' (t, w))) - int (holding (get_token_balance s (t, w))))) u) s'"
proof (cases "t = native_token_id E")
  case True
  with assms(1) obtain b v s1 m where "f b s = Inr (v, s1)" and s': "s' = s1\<lparr>native := m\<rparr>"
    by (auto simp: try_mutate_account_def res_simps)
  with assms(2) have "same_tokens s s1" by blast
  with True s' show ?thesis using token_inv_frame [OF assms(3), of s'] by (simp add: same_tokens_def)
next
  case False
  with assms(1) obtain b v s1 a where "f b s = Inr (v, s1)" and s': "s' = store_account (t, w) (alive a) s1"
    by (auto simp: try_mutate_account_def Let_def res_simps)
  with assms(2) have same: "same_tokens s s1" by blast
  then have inv: "token_inv x s1" using token_inv_frame [OF assms(3), of s1] by (simp add: same_tokens_def)
  have old: "get_token_balance s1 k = get_token_balance s k" for k
    using same by (intro get_balance_same) (simp add: same_tokens_def)
  have fin: "fin_balances s1" using inv by (simp add: token_inv_def)
  have here: "tok_supply s' t + holding (get_token_balance s (t, w)) = tok_supply s1 t + holding (get_token_balance s' (t, w))"
    using supply_store [OF fin, of t w "alive a"] by (simp add: s' old)
  have there: "tok_supply s' u = tok_supply s1 u" if "u \<noteq> t" for u using that by (simp add: s')
  have iss: "issued s' u = issued s1 u" for u by (rule issued_same) (simp add: s')
  have "int (tok_supply s' u) = int (issued s' u) + (x u + (no_drift(t :=
      int (holding (get_token_balance s' (t, w))) - int (holding (get_token_balance s (t, w))))) u)" for u
  proof (cases "u = t")
    case True
    have "int (tok_supply s1 t) = int (issued s1 t) + x t" using inv by (simp add: token_inv_def)
    with here iss [of t] have "int (tok_supply s' t) = int (issued s' t) + (x t +
        (int (holding (get_token_balance s' (t, w))) - int (holding (get_token_balance s (t, w)))))" by linarith
    with True show ?thesis by simp
  next
    case False
    with there iss inv show ?thesis by (simp add: token_inv_def)
  qed
  with False inv fin show ?thesis by (simp add: token_inv_def s')
qed

lemma token_step_inv:
  assumes "token_step E g s s'" and "token_inv x s"
  shows "token_inv (\<lambda>t. x t + g t) s'"
  using assms
proof (induction rule: token_step.induct)
  case (step_issue orig info s s')
  then obtain b tid s1 where "create info (s\<lparr>native := b\<rparr>) = Inr (tid, s1)"
    and s': "Balances s' = Balances s1" "Tokens s' = Tokens s1" "NextTokenId s' = NextTokenId s1"
    by (auto simp: issue_def res_simps)
  moreover have "token_inv x (s\<lparr>native := b\<rparr>)" by (rule token_inv_frame [OF step_issue.prems]) simp
  ultimately have "token_inv x s1" using step_issue.hyps by (auto intro: token_inv_create)
  then show ?case using s' by (auto intro: token_inv_frame)
next
  case (step_create info s tid s')
  then show ?case by (auto intro: token_inv_create)
next
  case (step_mark_stable orig t s s')
  then obtain info info' where "Tokens s t = Some info" "set_stable info = Inr info'"
    and s': "s' = s\<lparr>Tokens := (Tokens s)(t := Some info')\<rparr>"
    by (auto simp: mark_stable_def res_simps)
  then have "issued s' u = issued s u" "(\<exists>n tot. info' = FND10 n tot) \<longleftrightarrow> False" for u
    by (cases info; auto simp: issued_def)+
  moreover have "NextTokenId s \<le> k \<Longrightarrow> k \<noteq> t" for k
    using step_mark_stable.prems \<open>Tokens s t = Some info\<close> by (auto simp: token_inv_def)
  ultimately show ?case
    using step_mark_stable.prems by (simp add: token_inv_def s')
next
  case (step_associate orig c contr t s s')
  then show ?case by (auto simp: associate_token_def res_simps intro: token_inv_frame)
next
  case (step_transfer a t v b s s')
  then show ?case by (rule token_inv_transfer)
next
  case (step_mutate t w f s s')
  then show ?case by (rule token_inv_mutate)
next
  case (step_issuance t h s s')
  then have "same_tokens s s'" by (auto simp: try_mutate_issuance_def res_simps same_tokens_def split: if_splits)
  with step_issuance.prems show ?case by (auto simp: same_tokens_def intro: token_inv_frame)
next
  case (step_other s s')
  then show ?case by (auto simp: same_tokens_def intro: token_inv_frame)
next
  case (step_mint t w v s s')
  then show ?case by (auto intro: token_inv_mint)
next
  case (step_burn t w v s v' s')
  then show ?case by (auto intro: token_inv_burn)
next
  case (step_reserve t w v s s')
  then show ?case
    using token_inv_conserve [OF step_reserve.prems supply_reserve [OF step_reserve.hyps] next_id_reserve [OF step_reserve.hyps]]
    by simp
next
  case (step_unreserve t w v s s')
  then show ?case
    using token_inv_conserve [OF step_unreserve.prems supply_unreserve [OF step_unreserve.hyps] next_id_unreserve [OF step_unreserve.hyps]]
    by simp
next
  case (step_repatriate t a b v st s s')
  then show ?case
    using token_inv_conserve [OF step_repatriate.prems supply_repatriate [OF step_repatriate.hyps] next_id_repatriate [OF step_repatriate.hyps]]
    by simp
qed

lemma token_reachable_inv: "token_reachable E d s \<Longrightarrow> token_inv d s"
proof (induction rule: token_reachable.induct)
  case (reach_genesis s)
  then show ?case
    by (simp add: token_genesis_def token_inv_def fin_balances_def slice_def tok_supply_def msum_def issued_def)
next
  case (reach_step d s g s')
  then show ?case by (blast intro: token_step_inv)
qed


section \<open>The contract of the trait ReservableToken\<close>

text \<open>The laws are what the trait's documentation promises of \<open>reserve\<close> and \<open>unreserve\<close>; \<open>ok\<close> is
  the condition under which the provider keeps them. \<open>part s s'\<close> holds when a call leaves the
  storage of the pallet's clients alone.\<close>

locale reservable_token =
  fixes reserve unreserve :: "token_id \<Rightarrow> account \<Rightarrow> u128 \<Rightarrow> 's \<Rightarrow> 's result"
    and free_of reserved_of :: "'s \<Rightarrow> token_id \<Rightarrow> account \<Rightarrow> u128"
    and ok :: bool
  assumes reserve_free: "ok \<Longrightarrow> reserve t w v s = Inr s' \<Longrightarrow>
      unat (free_of s t w) = unat (free_of s' t w) + unat v"
    and reserve_reserved: "ok \<Longrightarrow> reserve t w v s = Inr s' \<Longrightarrow>
      unat (reserved_of s' t w) = unat (reserved_of s t w) + unat v"
    and reserve_frame: "ok \<Longrightarrow> reserve t w v s = Inr s' \<Longrightarrow> t' \<noteq> t \<or> w' \<noteq> w \<Longrightarrow>
      free_of s' t' w' = free_of s t' w' \<and> reserved_of s' t' w' = reserved_of s t' w'"
    and unreserve_reserved: "ok \<Longrightarrow> unreserve t w v s = Inr s' \<Longrightarrow>
      unat (reserved_of s t w) = unat (reserved_of s' t w) + unat v"
    and unreserve_free: "ok \<Longrightarrow> unreserve t w v s = Inr s' \<Longrightarrow>
      unat (free_of s' t w) = unat (free_of s t w) + unat v"
    and unreserve_frame: "ok \<Longrightarrow> unreserve t w v s = Inr s' \<Longrightarrow> t' \<noteq> t \<or> w' \<noteq> w \<Longrightarrow>
      free_of s' t' w' = free_of s t' w' \<and> reserved_of s' t' w' = reserved_of s t' w'"
begin

lemma reserve_total:
  "ok \<Longrightarrow> reserve t w v s = Inr s' \<Longrightarrow>
   unat (free_of s' t' w') + unat (reserved_of s' t' w') = unat (free_of s t' w') + unat (reserved_of s t' w')"
  using reserve_free [of t w v s s'] reserve_reserved [of t w v s s'] reserve_frame [of t w v s s' t' w']
  by (cases "t' = t \<and> w' = w") auto

lemma unreserve_total:
  "ok \<Longrightarrow> unreserve t w v s = Inr s' \<Longrightarrow>
   unat (free_of s' t' w') + unat (reserved_of s' t' w') = unat (free_of s t' w') + unat (reserved_of s t' w')"
  using unreserve_free [of t w v s s'] unreserve_reserved [of t w v s s'] unreserve_frame [of t w v s s' t' w']
  by (cases "t' = t \<and> w' = w") auto

lemma reserve_needs_free: "ok \<Longrightarrow> reserve t w v s = Inr s' \<Longrightarrow> v \<le> free_of s t w"
  using reserve_free [of t w v s s'] by (simp add: word_le_nat_alt)

lemma unreserve_needs_reserved: "ok \<Longrightarrow> unreserve t w v s = Inr s' \<Longrightarrow> v \<le> reserved_of s t w"
  using unreserve_reserved [of t w v s s'] by (simp add: word_le_nat_alt)

lemma reserve_then_unreserve:
  assumes "ok" "reserve t w v s = Inr s1" "unreserve t w v s1 = Inr s2"
  shows "free_of s2 t' w' = free_of s t' w' \<and> reserved_of s2 t' w' = reserved_of s t' w'"
proof (cases "t' = t \<and> w' = w")
  case True
  have "unat (free_of s2 t w) = unat (free_of s t w)"
    using reserve_free [OF assms(1,2)] unreserve_free [OF assms(1,3)] by simp
  moreover have "unat (reserved_of s2 t w) = unat (reserved_of s t w)"
    using reserve_reserved [OF assms(1,2)] unreserve_reserved [OF assms(1,3)] by simp
  ultimately have "free_of s2 t w = free_of s t w" "reserved_of s2 t w = reserved_of s t w"
    by (simp_all only: word_unat_eq_iff)
  with True show ?thesis by simp
next
  case False
  then show ?thesis
    using reserve_frame [OF assms(1,2)] unreserve_frame [OF assms(1,3)] by auto
qed

end

lemma pallet_reserve_laws:
  assumes "balances_spec E" "token_reserve E t w v s = Inr s'"
  shows "unat (free_balance E s t w) = unat (free_balance E s' t w) + unat v \<and>
      unat (reserved_balance E s' t w) = unat (reserved_balance E s t w) + unat v \<and>
      (t' \<noteq> t \<or> w' \<noteq> w \<longrightarrow> free_balance E s' t' w' = free_balance E s t' w' \<and>
        reserved_balance E s' t' w' = reserved_balance E s t' w')"
proof -
  consider (zero) "v = 0" | (nat) "v \<noteq> 0" "t = native_token_id E" | (tok) "t \<noteq> native_token_id E"
    by blast
  then show ?thesis
  proof cases
    case zero
    with assms(2) show ?thesis by (simp add: token_reserve_def)
  next
    case nat
    with assms(2) obtain b where b: "bal_reserve E w v (native s) = Inr b" and s': "s' = s\<lparr>native := b\<rparr>"
      by (auto simp: token_reserve_def res_simps)
    note law = balances_reserveD [OF assms(1) b]
    have "get_token_balance s' k = get_token_balance s k" for k by (simp add: s' get_token_balance_def)
    with nat law(1,2) law(3) [of w'] show ?thesis
      by (cases "t' = t") (simp_all add: s' free_balance_def reserved_balance_def same_account_def)
  next
    case tok
    have "native s' = native s" by (rule token_reserve_frame(2) [OF assms(2) tok])
    then show ?thesis
      using tok token_reserve_effect [OF assms(2) tok] token_reserve_frame(1) [OF assms(2), of "(t', w')"]
      by (auto simp: free_balance_def reserved_balance_def)
  qed
qed

lemma pallet_unreserve_laws:
  assumes "balances_spec E" "token_unreserve E t w v s = Inr s'"
  shows "unat (reserved_balance E s t w) = unat (reserved_balance E s' t w) + unat v \<and>
      unat (free_balance E s' t w) = unat (free_balance E s t w) + unat v \<and>
      (t' \<noteq> t \<or> w' \<noteq> w \<longrightarrow> free_balance E s' t' w' = free_balance E s t' w' \<and>
        reserved_balance E s' t' w' = reserved_balance E s t' w')"
proof -
  consider (zero) "v = 0" | (nat) "v \<noteq> 0" "t = native_token_id E" | (tok) "t \<noteq> native_token_id E"
    by blast
  then show ?thesis
  proof cases
    case zero
    with assms(2) show ?thesis by (simp add: token_unreserve_def)
  next
    case nat
    with assms(2) have b: "v \<le> bal_reserved E (native s) w"
      and s': "s' = s\<lparr>native := bal_unreserve E w v (native s)\<rparr>"
      by (auto simp: token_unreserve_def res_simps)
    note law = balances_unreserveD [OF assms(1) b]
    have "get_token_balance s' k = get_token_balance s k" for k by (simp add: s' get_token_balance_def)
    with nat law(1,2) law(3) [of w'] show ?thesis
      by (cases "t' = t") (simp_all add: s' free_balance_def reserved_balance_def same_account_def)
  next
    case tok
    have "native s' = native s" by (rule token_unreserve_frame(2) [OF assms(2) tok])
    then show ?thesis
      using tok token_unreserve_effect [OF assms(2) tok] token_unreserve_frame(1) [OF assms(2), of "(t', w')"]
      by (auto simp: free_balance_def reserved_balance_def)
  qed
qed

interpretation tok: reservable_token
  "token_reserve E" "token_unreserve E" "free_balance E" "reserved_balance E" "balances_spec E"
  for E
proof unfold_locales
  fix t t' w w' v s and s' :: "('a, 'c) token_chain_scheme"
  assume E: "balances_spec E"
  {
    assume "token_reserve E t w v s = Inr s'"
    note law = pallet_reserve_laws [OF E this]
    show "unat (free_balance E s t w) = unat (free_balance E s' t w) + unat v"
      "unat (reserved_balance E s' t w) = unat (reserved_balance E s t w) + unat v"
      using law by simp_all
    assume "t' \<noteq> t \<or> w' \<noteq> w"
    with law show "free_balance E s' t' w' = free_balance E s t' w' \<and>
      reserved_balance E s' t' w' = reserved_balance E s t' w'" by simp
  next
    assume "token_unreserve E t w v s = Inr s'"
    note law = pallet_unreserve_laws [OF E this]
    show "unat (reserved_balance E s t w) = unat (reserved_balance E s' t w) + unat v"
      "unat (free_balance E s' t w) = unat (free_balance E s t w) + unat v"
      using law by simp_all
    assume "t' \<noteq> t \<or> w' \<noteq> w"
    with law show "free_balance E s' t' w' = free_balance E s t' w' \<and>
      reserved_balance E s' t' w' = reserved_balance E s t' w'" by simp
  }
qed

end
