(* ===== verification/Fuso_Samples.thy ===== *)
theory Fuso_Samples
  imports Fuso_Token Fuso_Balances
begin

text \<open>
  The accounts and the runtime configuration that the witnesses of all components share.
  \<open>tok_env\<close> completes the concrete environment of \<open>sample_env\<close> with the token pallet's
  constants: the native token is 0, issuing a token burns 100 units.
\<close>

definition alice :: account where "alice = replicate 32 1"
definition bob :: account where "bob = replicate 32 2"

lemma alice_bob [simp]: "alice \<noteq> bob" "bob \<noteq> alice"
  by (simp_all add: alice_def bob_def)

definition tok_env :: "sample_bal token_env" where
  "tok_env = env.extend (sample_env ()) (token_env.fields 255 1 2 42 0 100 (\<lambda>orig. orig = Root))"

lemma tok_env_simps [simp]:
  "bal_free tok_env = sb_free" "bal_reserved tok_env = sb_reserved" "bal_issuance tok_env = snd"
  "bal_set_issuance tok_env = (\<lambda>n b. (fst b, n))" "bal_transfer tok_env = sb_transfer"
  "bal_can_reserve tok_env = (\<lambda>b a v. v \<le> sb_free b a)"
  "bal_reserve tok_env = sb_reserve" "bal_unreserve tok_env = sb_unreserve"
  "bal_repatriate tok_env = sb_repatriate" "bal_mutate_account tok_env = sb_mutate"
  "bal_burn_from tok_env = sb_burn" "perquintill_from_rational tok_env = sample_ratio"
  "perquintill_mul tok_env = sample_mul" "permill_from_parts tok_env = sample_parts"
  "permill_mul_ceil tok_env = sample_mul_ceil" "lookup tok_env = (\<lambda>a. Some a)"
  "NativeTokenId tok_env = 0" "native_token_id tok_env = 0" "BurnTAOwhenIssue tok_env = 100"
  "NativeChainId tok_env = 42" "EthChainId tok_env = 1" "BnbChainId tok_env = 2"
  by (simp_all add: tok_env_def env.defs token_env.defs sample_env_def native_token_id_def)

lemma balances_tok_env: "balances_spec tok_env"
  using sample_balances_spec [of "token_env.fields 255 1 2 42 0 100 (\<lambda>orig. orig = Root)"]
  by (simp add: tok_env_def env.defs token_env.defs sample_env_def)

end
