(* ===== verification/Fuso_Token_Props.thy ===== *)
theory Fuso_Token_Props
  imports Fuso_Token_Laws Fuso_Samples
begin

text \<open>
  The properties of the token pallet, each with a witness in the concrete environment
  \<open>tok_env\<close>: a genesis state, a token issued by \<open>alice\<close> and minted to her.
\<close>

section \<open>A concrete chain\<close>

definition tok_genesis :: "sample_bal token_chain" where
  "tok_genesis = \<lparr>block_number = 1, account_nonce = (\<lambda>_. 0), events = [],
     native = ((\<lambda>_. (1000, 0)), 2000), Balances = Map.empty, Tokens = Map.empty, NextTokenId = 1,
     TokenByName = Map.empty, TokenByContract = Map.empty\<rparr>"

definition usdt :: xtoken where "usdt = NEP141 [85, 83] [1, 2, 3] 0 True 6"

definition tok_issued :: "sample_bal token_chain" where
  "tok_issued = (case issue tok_env (Signed alice) usdt tok_genesis of Inr s \<Rightarrow> s | Inl _ \<Rightarrow> tok_genesis)"

definition tok_minted :: "sample_bal token_chain" where
  "tok_minted = (case do_mint 1 alice 7 tok_issued of Inr s \<Rightarrow> s | Inl _ \<Rightarrow> tok_genesis)"

lemma tok_issued_run: "issue tok_env (Signed alice) usdt tok_genesis = Inr tok_issued"
  by (simp add: tok_issued_def issue_def usdt_def tok_genesis_def sb_burn_def sb_free_def sb_reserved_def
      valid_symbol_def MAX_DECIMALS_def insert_token_def)

lemma tok_issued_Tokens: "Tokens tok_issued = [1 \<mapsto> usdt]" "Balances tok_issued = Map.empty"
  "TokenByName tok_issued = [[1, 2, 3] \<mapsto> 1]" "NextTokenId tok_issued = 2"
  by (simp_all add: tok_issued_def issue_def usdt_def tok_genesis_def sb_burn_def sb_free_def sb_reserved_def
      valid_symbol_def MAX_DECIMALS_def insert_token_def)

lemma mul_times_eq: "mul_times n a = a * 10 ^ n"
  by (induction n arbitrary: a) simp_all

lemma unat_div_times: "unat (div_times n a) = unat a div 10 ^ n"
  by (induction n arbitrary: a) (simp_all add: unat_div div_mult2_eq)

lemma unat_mul_times: "unat (mul_times n a) = unat a * 10 ^ n mod 2 ^ 128"
proof -
  have "mul_times n a = of_nat (unat a * 10 ^ n)" by (simp add: mul_times_eq)
  then show ?thesis by (simp only: unat_of_nat) simp
qed

lemma unify_below: "d \<le> 18 \<Longrightarrow> unify_decimals a d = a * 10 ^ (18 - unat d)"
  by (simp add: unify_decimals_def STANDARD_DECIMALS_def mul_times_eq unat_sub not_less)

lemma unify_sample: "unify_decimals 7 6 = 7000000000000"
  by (simp add: unify_below)

lemma tok_minted_run: "do_mint 1 alice 7 tok_issued = Inr tok_minted"
  by (simp add: tok_minted_def do_mint_def tok_issued_Tokens usdt_def unify_sample checked_add_def
      get_token_balance_def default_account_def)

lemma tok_minted_state:
  "Balances tok_minted = [(1, alice) \<mapsto> \<lparr>free = 7000000000000, reserved = 0\<rparr>]"
  "Tokens tok_minted = [1 \<mapsto> NEP141 [85, 83] [1, 2, 3] 7000000000000 True 6]"
  by (simp_all add: tok_minted_def do_mint_def tok_issued_Tokens usdt_def unify_sample checked_add_def
      get_token_balance_def default_account_def)

lemma tok_minted_reachable: "token_reachable tok_env no_drift tok_minted"
proof -
  have "token_reachable tok_env no_drift tok_genesis"
    by (rule reach_genesis) (simp add: token_genesis_def tok_genesis_def)
  moreover have "token_step tok_env no_drift tok_genesis tok_issued"
    by (rule step_issue [OF tok_issued_run]) (simp add: tok_genesis_def)
  ultimately have "token_reachable tok_env (\<lambda>t. no_drift t + no_drift t) tok_issued" by (rule reach_step)
  from reach_step [OF this step_mint [OF tok_minted_run]] show ?thesis by simp
qed

text \<open>A client of the trait writes five more units to Bob.\<close>

definition tok_credited :: "sample_bal token_chain" where
  "tok_credited = store_account (1, bob) (Some \<lparr>free = 5, reserved = 0\<rparr>) tok_minted"

lemma tok_credited_run:
  "try_mutate_account tok_env 1 bob (\<lambda>b u. Inr ((fst b + 5, snd b), u)) tok_minted = Inr tok_credited"
  by (simp add: try_mutate_account_def tok_minted_state get_token_balance_def default_account_def alive_def tok_credited_def)

lemma tok_credited_reachable: "token_reachable tok_env (no_drift(1 := 5)) tok_credited"
proof -
  have b: "get_token_balance tok_credited (1, bob) = \<lparr>free = 5, reserved = 0\<rparr>"
    "get_token_balance tok_minted (1, bob) = default_account"
    by (simp_all add: tok_credited_def) (simp add: get_token_balance_def tok_minted_state)
  have "(\<lambda>t. no_drift t + (if 1 = native_token_id tok_env then no_drift
      else no_drift(1 := int (holding (get_token_balance tok_credited (1, bob))) -
        int (holding (get_token_balance tok_minted (1, bob))))) t) = no_drift(1 := 5)"
    by (simp add: fun_eq_iff b) (simp add: holding_def)
  with reach_step [OF tok_minted_reachable step_mutate [OF tok_credited_run]] show ?thesis
    by (simp add: same_tokens_def)
qed

section \<open>Conservation\<close>

text \<open>
  C4: in every state that calls and trait methods of the token pallet reach from the empty genesis, issuing
  at most \<open>2 ^ 32 - 2\<close> tokens, the free and reserved balances of a token other than the native one add up to
  its recorded total issuance and its drift: what closures of \<^verbatim>\<open>try_mutate_account\<close> have written beyond the
  balances before, less what accounts have transferred to themselves. Every other operation keeps
  the difference, and minting and burning move both sides by the same amount.
\<close>

theorem token_conservation:
  assumes "token_reachable E d s" and "t \<noteq> native_token_id E"
  shows "int (\<Sum>w\<in>{w. Balances s (t, w) \<noteq> None}.
      unat (free_balance E s t w) + unat (reserved_balance E s t w)) = int (unat (total_issuance E s t)) + d t"
proof -
  have "(\<Sum>w\<in>{w. Balances s (t, w) \<noteq> None}.
      unat (free_balance E s t w) + unat (reserved_balance E s t w)) = tok_supply s t"
    unfolding tok_supply_def msum_def using assms(2)
    by (intro sum.cong)
      (auto simp: slice_def dom_def free_balance_def reserved_balance_def holding_def get_token_balance_def)
  moreover have "unat (total_issuance E s t) = issued s t"
    using assms(2) by (simp add: total_issuance_def issued_def split: option.split)
  ultimately show ?thesis
    using token_reachable_inv [OF assms(1)] by (simp only: token_inv_def)
qed

theorem token_conservation_witness:
  "token_reachable tok_env (no_drift(1 := 5)) tok_credited \<and> total_issuance tok_env tok_credited 1 = 7000000000000 \<and>
   int (\<Sum>w\<in>{w. Balances tok_credited (1, w) \<noteq> None}.
      unat (free_balance tok_env tok_credited 1 w) + unat (reserved_balance tok_env tok_credited 1 w)) = 7000000000005"
proof -
  have "total_issuance tok_env tok_credited 1 = 7000000000000"
    by (simp add: total_issuance_def tok_credited_def tok_minted_state)
  with token_conservation [OF tok_credited_reachable, of 1] tok_credited_reachable show ?thesis by simp
qed

section \<open>Transfers\<close>

text \<open>
  C27: between two different accounts, a transfer of a non-native token succeeds exactly when the
  sender has an entry, the amount does not exceed its free balance and the receiver's free balance
  does not overflow; it then moves the amount, leaves reserved balances and every other entry
  as they were, and writes nothing else but its event.
\<close>

theorem transfer_token_correct:
  assumes "t \<noteq> native_token_id E" and "v \<noteq> 0" and "a \<noteq> b"
  shows "((\<exists>s'. transfer_token E a t v b s = Inr s') \<longleftrightarrow>
      Balances s (t, a) \<noteq> None \<and> v \<le> free_balance E s t a \<and>
      unat (free_balance E s t b) + unat v < 2 ^ 128) \<and>
    (\<forall>s'. transfer_token E a t v b s = Inr s' \<longrightarrow>
      unat (free_balance E s' t a) = unat (free_balance E s t a) - unat v \<and>
      unat (free_balance E s' t b) = unat (free_balance E s t b) + unat v \<and>
      (\<forall>u. reserved_balance E s' t u = reserved_balance E s t u) \<and>
      (\<forall>k. k \<noteq> (t, a) \<longrightarrow> k \<noteq> (t, b) \<longrightarrow> Balances s' k = Balances s k) \<and>
      s' = s\<lparr>Balances := Balances s', events := events s @ [TokenEv (TokenTransfered t a b v)]\<rparr>)"
proof (intro conjI allI impI)
  show "(\<exists>s'. transfer_token E a t v b s = Inr s') \<longleftrightarrow>
      Balances s (t, a) \<noteq> None \<and> v \<le> free_balance E s t a \<and>
      unat (free_balance E s t b) + unat v < 2 ^ 128"
    using assms
    by (cases "Balances s (t, a)")
      (auto simp: transfer_token_def Let_def res_simps checked_sub_def checked_add_def free_balance_def split: if_splits)
next
  fix s'
  assume tr: "transfer_token E a t v b s = Inr s'"
  note other = transfer_token_other [OF tr assms(1,3)]
  show "unat (free_balance E s' t a) = unat (free_balance E s t a) - unat v"
    "unat (free_balance E s' t b) = unat (free_balance E s t b) + unat v"
    using other(1,2) assms(1) by (simp_all add: free_balance_def)
  show "reserved_balance E s' t u = reserved_balance E s t u" for u
    using other(3,4) transfer_token_frame [OF tr, of "(t, u)"] assms(1)
    by (cases "u = a"; cases "u = b") (simp_all add: reserved_balance_def)
  show "s' = s\<lparr>Balances := Balances s', events := events s @ [TokenEv (TokenTransfered t a b v)]\<rparr>"
    "k \<noteq> (t, a) \<Longrightarrow> k \<noteq> (t, b) \<Longrightarrow> Balances s' k = Balances s k" for k
    using tr assms
    by (auto simp: transfer_token_def Let_def res_simps store_account_def deposit_event_def)
qed

theorem transfer_token_correct_witness:
  "\<exists>s'. transfer_token tok_env alice 1 5 bob tok_minted = Inr s' \<and>
     unat (free_balance tok_env s' 1 bob) = unat (free_balance tok_env tok_minted 1 bob) + 5"
  using transfer_token_correct [of 1 tok_env 5 alice bob tok_minted] alice_bob
  by (auto simp: tok_minted_state free_balance_def get_token_balance_def default_account_def)

text \<open>
  C28: a transfer of a non-native token to the sender himself succeeds under the same condition,
  but the sender is debited and never credited: the supply shrinks by the amount while the
  recorded issuance stays.
\<close>

theorem self_transfer_destroys:
  assumes "transfer_token E a t v a s = Inr s'" and "t \<noteq> native_token_id E" and "fin_balances s"
  shows "unat (free_balance E s' t a) = unat (free_balance E s t a) - unat v \<and>
    tok_supply s' t = tok_supply s t - unat v \<and> total_issuance E s' t = total_issuance E s t"
  using transfer_token_self(1) [OF assms(1,2)] supply_transfer_self [OF assms(1,3,2)]
    transfer_token_storage(1) [OF assms(1)] assms(2)
  by (auto simp: free_balance_def total_issuance_def)

theorem self_transfer_destroys_witness:
  "\<exists>s'. transfer_token tok_env alice 1 5 alice tok_minted = Inr s' \<and>
     unat (free_balance tok_env tok_minted 1 alice) = 7000000000000 \<and>
     unat (free_balance tok_env s' 1 alice) = 6999999999995 \<and>
     total_issuance tok_env s' 1 = total_issuance tok_env tok_minted 1"
proof -
  have fin: "fin_balances tok_minted"
    using token_reachable_inv [OF tok_minted_reachable] by (simp add: token_inv_def)
  obtain s' where tr: "transfer_token tok_env alice 1 5 alice tok_minted = Inr s'"
    by (simp add: transfer_token_def tok_minted_state get_token_balance_def checked_sub_def checked_add_def)
  moreover have "unat (free_balance tok_env tok_minted 1 alice) = 7000000000000"
    by (simp add: free_balance_def get_token_balance_def tok_minted_state)
  ultimately show ?thesis
    using self_transfer_destroys [OF tr _ fin] by simp
qed

section \<open>Reserving\<close>

lemma unat_u128_less: "unat (x :: u128) < 340282366920938463463374607431768211456"
  using unsigned_less [of x, where ?'a = nat] by simp

lemma unreserve_after_reserve_ok:
  assumes "balances_spec E" and "token_reserve E t w v s = Inr s1"
  shows "\<exists>s2. token_unreserve E t w v s1 = Inr s2"
proof -
  have le: "v \<le> reserved_balance E s1 t w"
    using tok.reserve_reserved [OF assms] by (simp add: word_le_nat_alt)
  have "unat (free_balance E s1 t w) + unat v < 2 ^ 128"
    using tok.reserve_free [OF assms] unat_u128_less [of "free_balance E s t w"] by simp
  moreover have "v \<noteq> 0 \<Longrightarrow> t \<noteq> native_token_id E \<Longrightarrow> Balances s1 (t, w) \<noteq> None"
    using assms(2) by (auto simp: token_reserve_def res_simps)
  ultimately show ?thesis using le
    by (cases "Balances s1 (t, w)")
      (auto simp: token_unreserve_def checked_sub_def checked_add_def free_balance_def reserved_balance_def)
qed

text \<open>
  Whatever has been reserved can be unreserved, and that restores the free and reserved
  balance of every token and account, for the native currency as for the other tokens. The
  behaviour of \<^verbatim>\<open>pallet_balances\<close> is the hypothesis \<open>balances_spec\<close>.
\<close>

theorem reserve_unreserve_roundtrip:
  assumes "balances_spec E" and "token_reserve E t w v s = Inr s1"
  shows "\<exists>s2. token_unreserve E t w v s1 = Inr s2 \<and>
    (\<forall>t' w'. free_balance E s2 t' w' = free_balance E s t' w' \<and>
             reserved_balance E s2 t' w' = reserved_balance E s t' w')"
proof -
  obtain s2 where "token_unreserve E t w v s1 = Inr s2"
    using unreserve_after_reserve_ok [OF assms] by blast
  with tok.reserve_then_unreserve [OF assms this] show ?thesis by blast
qed

theorem reserve_unreserve_roundtrip_witness:
  "\<exists>s1 s2. token_reserve tok_env 1 alice 5 tok_minted = Inr s1 \<and> token_unreserve tok_env 1 alice 5 s1 = Inr s2 \<and>
     reserved_balance tok_env s1 1 alice = 5 \<and> reserved_balance tok_env s2 1 alice = 0"
proof -
  let ?acc = "\<lparr>free = 6999999999995, reserved = 5\<rparr>"
  let ?s1 = "store_account (1, alice) (Some ?acc) (deposit_event (TokenEv (TokenReserved 1 alice 5)) tok_minted)"
  have r: "token_reserve tok_env 1 alice 5 tok_minted = Inr ?s1"
    by (simp add: token_reserve_def tok_minted_state checked_sub_def checked_add_def)
  from reserve_unreserve_roundtrip [OF balances_tok_env r] obtain s2
    where "token_unreserve tok_env 1 alice 5 ?s1 = Inr s2"
      "reserved_balance tok_env s2 1 alice = reserved_balance tok_env tok_minted 1 alice"
    by blast
  moreover have "reserved_balance tok_env tok_minted 1 alice = 0" "reserved_balance tok_env ?s1 1 alice = 5"
    by (simp_all add: reserved_balance_def tok_minted_state)
  ultimately show ?thesis using r by auto
qed

section \<open>Decimals, minting and burning\<close>

text \<open>
  \<open>unify_decimals\<close> multiplies by the power of ten that separates the token's decimals from
  eighteen, modulo \<open>2 ^ 128\<close>, or divides by it rounding down.
\<close>

theorem unify_decimals_correct:
  "unat (unify_decimals amount decimals) =
     (if unat decimals > 18 then unat amount div 10 ^ (unat decimals - 18)
      else unat amount * 10 ^ (18 - unat decimals) mod 2 ^ 128)"
proof (cases "decimals > STANDARD_DECIMALS")
  case True
  then have "unat (decimals - STANDARD_DECIMALS) = unat decimals - 18" "18 < unat decimals"
    by (simp_all add: STANDARD_DECIMALS_def unat_sub word_less_nat_alt word_le_nat_alt)
  with True show ?thesis by (simp add: unify_decimals_def unat_div_times)
next
  case False
  then have "unat (STANDARD_DECIMALS - decimals) = 18 - unat decimals" "\<not> 18 < unat decimals"
    by (simp_all add: STANDARD_DECIMALS_def unat_sub word_less_nat_alt word_le_nat_alt)
  with False show ?thesis by (simp add: unify_decimals_def unat_mul_times)
qed

text \<open>The decimals of a token; tokens of the foundation have none.\<close>

fun decimals_of :: "xtoken \<Rightarrow> u8 option" where
  "decimals_of (NEP141 _ _ _ _ d) = Some d"
| "decimals_of (ERC20 _ _ _ _ d) = Some d"
| "decimals_of (BEP20 _ _ _ _ d) = Some d"
| "decimals_of (FND10 _ _) = None"

lemma adjust_burn_amount:
  assumes "adjust_total checked_sub v info = Inr (u, info')" "decimals_of info = Some d"
  shows "u = unify_decimals v d \<and> unat (xtoken_total info) = unat (xtoken_total info') + unat u"
  using assms by (cases info) (auto simp: Let_def res_simps checked_sub_Some)

text \<open>
  C29: a burn takes from the target and from the total issuance the amount converted to eighteen decimals
  modulo \<open>2 ^ 128\<close>, but reports the amount it was asked for. So for a token of at most eighteen decimals
  it reports more than it takes exactly when the conversion wraps around, and nothing else tells the caller.
\<close>

theorem burn_reports_unburnt:
  assumes "do_burn t w v s = Inr (n, s')" and "Tokens s t = Some info" and "decimals_of info = Some d"
    and "t \<noteq> native_token_id E"
  shows "n = v \<and> (\<exists>u. events s' = events s @ [TokenEv (TokenBurned t w u)] \<and>
    unat u = (if unat d > 18 then unat v div 10 ^ (unat d - 18) else unat v * 10 ^ (18 - unat d) mod 2 ^ 128) \<and>
    unat (free_balance E s t w) = unat (free_balance E s' t w) + unat u \<and>
    unat (total_issuance E s t) = unat (total_issuance E s' t) + unat u \<and>
    (unat d \<le> 18 \<longrightarrow> (unat u < unat v * 10 ^ (18 - unat d) \<longleftrightarrow> 2 ^ 128 \<le> unat v * 10 ^ (18 - unat d))))"
proof -
  obtain u info' acc f where adj: "adjust_total checked_sub v info = Inr (u, info')" and "n = v"
    and acc: "Balances s (t, w) = Some acc" and f: "unat (free acc) = unat u + unat f"
    and s': "s' = deposit_event (TokenEv (TokenBurned t w u))
      ((store_account (t, w) (alive (acc\<lparr>free := f\<rparr>)) s)\<lparr>Tokens := (Tokens s)(t := Some info')\<rparr>)"
    by (rule do_burn_elim [OF assms(1)]) (use assms(2) in auto)
  note a = adjust_burn_amount [OF adj assms(3)]
  have u: "unat u = (if unat d > 18 then unat v div 10 ^ (unat d - 18) else unat v * 10 ^ (18 - unat d) mod 2 ^ 128)"
    using a unify_decimals_correct [of v d] by simp
  let ?m = "unat v * 10 ^ (18 - unat d)"
  have "?m mod 2 ^ 128 < ?m \<longleftrightarrow> 2 ^ 128 \<le> ?m"
  proof (cases "2 ^ 128 \<le> ?m")
    case True
    have "?m mod 2 ^ 128 < 2 ^ 128" by (rule mod_less_divisor) simp
    with True show ?thesis by (simp only: order.strict_trans2)
  next
    case False
    then show ?thesis by (simp add: not_le)
  qed
  then have wrap: "unat d \<le> 18 \<longrightarrow> (unat u < ?m \<longleftrightarrow> 2 ^ 128 \<le> ?m)" unfolding u by simp
  have "events s' = events s @ [TokenEv (TokenBurned t w u)]" by (simp add: s' deposit_event_def)
  moreover have "unat (free_balance E s t w) = unat (free_balance E s' t w) + unat u"
    using acc f assms(4) by (simp add: s' free_balance_def get_token_balance_def alive_def default_account_def)
  moreover have "unat (total_issuance E s t) = unat (total_issuance E s' t) + unat u"
    using a assms(2,4) by (simp add: s' total_issuance_def)
  ultimately show ?thesis using \<open>n = v\<close> u wrap by blast
qed

text \<open>With six decimals a burn of \<open>2 ^ 116 + 1\<close> units takes a single unit.\<close>

theorem burn_reports_unburnt_witness:
  "\<exists>s'. do_burn 1 alice (2 ^ 116 + 1) tok_minted = Inr (2 ^ 116 + 1, s') \<and>
     unat (free_balance tok_env tok_minted 1 alice) = 7 * 10 ^ 12 \<and>
     unat (free_balance tok_env s' 1 alice) = 6 * 10 ^ 12 \<and>
     unat (total_issuance tok_env s' 1) = 6 * 10 ^ 12"
proof -
  have u: "unify_decimals 83076749736557242056487941267521537 6 = 1000000000000"
    by (simp add: unify_below)
  have "\<exists>n s'. do_burn 1 alice (2 ^ 116 + 1) tok_minted = Inr (n, s')"
    by (simp add: do_burn_def tok_minted_state u checked_sub_def)
  then obtain n s' where b: "do_burn 1 alice (2 ^ 116 + 1) tok_minted = Inr (n, s')" by blast
  have i: "Tokens tok_minted 1 = Some (NEP141 [85, 83] [1, 2, 3] 7000000000000 True 6)" by (simp add: tok_minted_state)
  from burn_reports_unburnt [OF b i, of 6 tok_env] b show ?thesis
    by (auto simp: free_balance_def total_issuance_def tok_minted_state)
qed

text \<open>
  Minting and then burning the same amount succeeds and restores every balance and the token
  information, for any token and amount that can be minted.
\<close>

theorem mint_burn_roundtrip:
  assumes "do_mint t w v s = Inr s1" and "v \<noteq> 0" and "\<nexists>n tot. Tokens s t = Some (FND10 n tot)"
  shows "\<exists>s2. do_burn t w v s1 = Inr (v, s2) \<and> Tokens s2 = Tokens s \<and>
    (\<forall>k. get_token_balance s2 k = get_token_balance s k)"
proof -
  obtain info u info' f where info: "Tokens s t = Some info"
    and adj: "adjust_total checked_add v info = Inr (u, info')" and "u \<noteq> 0"
    and f: "unat f = unat (free (get_token_balance s (t, w))) + unat u"
    and s1: "s1 = deposit_event (TokenEv (TokenMinted t w u))
      ((store_account (t, w) (Some (get_token_balance s (t, w)\<lparr>free := f\<rparr>)) s)\<lparr>Tokens := (Tokens s)(t := Some info')\<rparr>)"
    using assms(1,2) by (rule do_mint_elim)
  have bk: "checked_sub f u = Some (free (get_token_balance s (t, w)))"
    using f by (simp add: checked_sub_Some)
  have adj': "adjust_total checked_sub v info' = Inr (u, info)"
    using adj assms(3) info
    by (cases info) (auto simp: Let_def res_simps checked_add_Some checked_sub_Some)
  show ?thesis using \<open>u \<noteq> 0\<close> assms(2) info
    by (auto simp: do_burn_def s1 adj' bk get_token_balance_def)
qed

theorem mint_burn_roundtrip_witness:
  "\<exists>s2. do_burn 1 alice 7 tok_minted = Inr (7, s2) \<and> Tokens s2 = Tokens tok_issued \<and>
     get_token_balance s2 (1, alice) = default_account"
proof -
  have "\<nexists>n tot. Tokens tok_issued 1 = Some (FND10 n tot)" by (simp add: tok_issued_Tokens usdt_def)
  from mint_burn_roundtrip [OF tok_minted_run _ this] obtain s2
    where "do_burn 1 alice 7 tok_minted = Inr (7, s2)" "Tokens s2 = Tokens tok_issued"
      "get_token_balance s2 (1, alice) = get_token_balance tok_issued (1, alice)" by auto
  then show ?thesis by (simp add: get_token_balance_def tok_issued_Tokens)
qed

end
