(* ===== verification/Fuso_Reward.thy ===== *)
theory Fuso_Reward
  imports Fuso_Token
begin

text \<open>
  The reward pallet (\<^verbatim>\<open>pallet-fuso-reward/src/lib.rs\<close>): trading volume per era and per trader, and
  the rewards a trader has confirmed. \<open>Volumes\<close> is a storage map whose entries default to zero
  and whose existence the code never tests, hence a total function; \<open>Rewards\<close> keeps the
  existence of its entries, which \<open>claim_reward\<close> tests. Both \<open>claim_reward\<close> and
  \<open>rotate_reward\<close> are transactional: a failure leaves no change.
\<close>

record reward =
  confirmed :: u128
  pending_vol :: u128
  last_modify :: u32

record 'b reward_chain = "'b token_chain" +
  Rewards :: "account \<Rightarrow> reward option"
  EraRewards :: "u128 option"
  Volumes :: "u32 \<Rightarrow> u128"

record 'b reward_env = "'b token_env" +
  EraDuration :: u32
  RewardsPerEra :: u128
  RewardTerminateAt :: u32

definition default_reward :: reward where
  "default_reward = \<lparr>confirmed = 0, pending_vol = 0, last_modify = 0\<rparr>"

definition rewards :: "('b, 'z) reward_chain_scheme \<Rightarrow> account \<Rightarrow> reward" where
  "rewards s who = (case Rewards s who of None \<Rightarrow> default_reward | Some r \<Rightarrow> r)"

definition era_rewards :: "('b, 'x) reward_env_scheme \<Rightarrow> ('b, 'z) reward_chain_scheme \<Rightarrow> u128" where
  "era_rewards E s = (case EraRewards s of None \<Rightarrow> RewardsPerEra E | Some v \<Rightarrow> v)"

definition era_duration :: "('b, 'x) reward_env_scheme \<Rightarrow> u32" where
  "era_duration E = EraDuration E"

definition store_reward ::
  "account \<Rightarrow> reward option \<Rightarrow> ('b, 'z) reward_chain_scheme \<Rightarrow> ('b, 'z) reward_chain_scheme" where
  "store_reward who r s = s\<lparr>Rewards := (Rewards s)(who := r)\<rparr>"

text \<open>The first block of the era of a block.\<close>

definition era_start :: "('b, 'x) reward_env_scheme \<Rightarrow> u32 \<Rightarrow> u32 result" where
  "era_start E at = rbind (rem_u32 at (era_duration E)) (\<lambda>m. Inr (at - m))"

definition total_volume ::
  "('b, 'x) reward_env_scheme \<Rightarrow> ('b, 'z) reward_chain_scheme \<Rightarrow> u32 \<Rightarrow> u128 result" where
  "total_volume E s at = rbind (era_start E at) (\<lambda>era. Inr (Volumes s era))"

definition acked_reward :: "('b, 'z) reward_chain_scheme \<Rightarrow> account \<Rightarrow> u128" where
  "acked_reward s who = confirmed (rewards s who)"

definition rotate_reward ::
  "('b, 'x) reward_env_scheme \<Rightarrow> u32 \<Rightarrow> u128 \<Rightarrow> account \<Rightarrow> ('b, 'z) reward_chain_scheme
    \<Rightarrow> (u128 \<times> ('b, 'z) reward_chain_scheme) result" where
  "rotate_reward E at vol account s =
     (let r = rewards s account in
      if at = last_modify r
      then rbind (ok_or (checked_add (pending_vol r) vol) (RewardE rwd_err.Overflow)) (\<lambda>p.
             Inr (confirmed r, store_reward account (Some (r\<lparr>pending_vol := p\<rparr>)) s))
      else if pending_vol r = 0
      then Inr (confirmed r, store_reward account (Some (r\<lparr>pending_vol := vol, last_modify := at\<rparr>)) s)
      else let total_vol = Volumes s (last_modify r) in
           ensure (total_vol > 0) (RewardE rwd_err.DivideByZero) (
           let p = perquintill_from_rational E (pending_vol r) total_vol;
               era_reward = (if block_number s > RewardTerminateAt E then 0 else era_rewards E s);
               a = perquintill_mul E p era_reward
           in rbind (ok_or (checked_add (confirmed r) a) (RewardE rwd_err.Overflow)) (\<lambda>c.
                Inr (c, store_reward account (Some (r\<lparr>confirmed := c, pending_vol := vol, last_modify := at\<rparr>)) s))))"

text \<open>The payment: the confirmed reward is issued to the trader's native account.\<close>

definition pay_reward ::
  "('b, 'x) reward_env_scheme \<Rightarrow> account \<Rightarrow> u128 \<Rightarrow> ('b, 'z) reward_chain_scheme
    \<Rightarrow> ('b, 'z) reward_chain_scheme result" where
  "pay_reward E who amount s =
     try_mutate_account E (native_token_id E) who (\<lambda>b s1.
       rbind (try_mutate_issuance E (native_token_id E)
                (\<lambda>v. ok_or (checked_add v amount) (RewardE rwd_err.Overflow)) s1) (\<lambda>s2.
         Inr ((fst b + amount, snd b), s2))) s"

definition claim_reward ::
  "('b, 'x) reward_env_scheme \<Rightarrow> account \<Rightarrow> u32 \<Rightarrow> ('b, 'z) reward_chain_scheme
    \<Rightarrow> (u128 \<times> ('b, 'z) reward_chain_scheme) result" where
  "claim_reward E who at s =
     rbind (era_start E at) (\<lambda>era.
     rbind (rotate_reward E era 0 who s) (\<lambda>(c, s1).
       if c = 0 then Inr (0, s1)
       else rbind (ok_or (Rewards s1 who) (RewardE rwd_err.RewardNotFound)) (\<lambda>r.
            let amount = confirmed r;
                r' = r\<lparr>confirmed := 0\<rparr>;
                entry = (if pending_vol r' > 0 then Some r' else None)
            in rbind (if amount > 0 then pay_reward E who amount s1 else Inr s1) (\<lambda>s2.
                 Inr (amount, store_reward who entry s2)))))"

definition take_reward ::
  "('b, 'x) reward_env_scheme \<Rightarrow> origin \<Rightarrow> ('b, 'z) reward_chain_scheme
    \<Rightarrow> ('b, 'z) reward_chain_scheme result" where
  "take_reward E orig s =
     rbind (ensure_signed orig) (\<lambda>who.
     rbind (claim_reward E who (block_number s) s) (\<lambda>(r, s1).
       Inr (deposit_event (RewardEv (RewardClaimed who r)) s1)))"

definition set_era_rewards ::
  "origin \<Rightarrow> u128 \<Rightarrow> ('b, 'z) reward_chain_scheme \<Rightarrow> ('b, 'z) reward_chain_scheme result" where
  "set_era_rewards orig amount s =
     rbind (ensure_root orig) (\<lambda>_.
       Inr (deposit_event (RewardEv (EraRewardsUpdated amount)) (s\<lparr>EraRewards := Some amount\<rparr>)))"

definition save_trading ::
  "('b, 'x) reward_env_scheme \<Rightarrow> account \<Rightarrow> u128 \<Rightarrow> u32 \<Rightarrow> ('b, 'z) reward_chain_scheme
    \<Rightarrow> ('b, 'z) reward_chain_scheme result" where
  "save_trading E trader vol at s =
     (if vol = 0 then Inr s
      else rbind (era_start E at) (\<lambda>era.
           rbind (ok_or (checked_add (Volumes s era) vol) (RewardE rwd_err.Overflow)) (\<lambda>v.
           rbind (rotate_reward E era vol trader (s\<lparr>Volumes := (Volumes s)(era := v)\<rparr>)) (\<lambda>(c, s2).
             Inr s2))))"

end
