(* ===== verification/Fuso_Indicator.thy ===== *)
theory Fuso_Indicator
  imports Fuso_Reward
begin

text \<open>
  The indicator pallet (\<^verbatim>\<open>pallet-fuso-indicator/src/lib.rs\<close>): the price of a token, from the
  amount and the volume matched last. Its storage extends that of the reward pallet, which the
  verifier uses beside it.
\<close>

record price_info =
  price :: u128
  recent_matched_amount :: u128
  recent_matched_vol :: u128
  updated_at :: u32

record 'b indicator_chain = "'b reward_chain" +
  OnChainPrices :: "token_id \<Rightarrow> price_info"

definition QUINTILL :: u128 where "QUINTILL = 1000000000000000000"

definition get_price ::
  "('b, 'x) token_env_scheme \<Rightarrow> ('b, 'z) indicator_chain_scheme \<Rightarrow> token_id \<Rightarrow> u128" where
  "get_price E s tid = (if is_stable E s tid then QUINTILL else price (OnChainPrices s tid))"

text \<open>The intermediate products are \<^verbatim>\<open>u128\<close> and wrap around.\<close>

definition set_price ::
  "('b, 'x) token_env_scheme \<Rightarrow> token_id \<Rightarrow> u128 \<Rightarrow> u128 \<Rightarrow> u32 \<Rightarrow> ('b, 'z) indicator_chain_scheme
    \<Rightarrow> ('b, 'z) indicator_chain_scheme" where
  "set_price E tid amount volume at s =
     (if volume \<noteq> 0 \<and> amount \<noteq> 0
      then let p = volume div amount * QUINTILL
                   + ucast (perquintill_from_rational E (volume mod amount) amount);
               info = \<lparr>price = p, recent_matched_amount = amount, recent_matched_vol = volume, updated_at = at\<rparr>
           in deposit_event (IndicatorEv (PriceUpdated tid p))
                (s\<lparr>OnChainPrices := (OnChainPrices s)(tid := info)\<rparr>)
      else s)"

end
