(* ===== verification/Fuso_Reward_Props.thy ===== *)
theory Fuso_Reward_Props
  imports Fuso_Indicator Fuso_Samples
begin

text \<open>
  Laws and properties of the reward and indicator pallets. The ledger invariant of the reward
  pallet is that the volumes pending for an era never exceed the era's total volume, so that a
  trader's share is a true ratio and the division is always defined.
\<close>

section \<open>The volume invariant\<close>

definition pending_in :: "u32 \<Rightarrow> reward \<Rightarrow> nat" where
  "pending_in era r = (if last_modify r = era then unat (pending_vol r) else 0)"

definition reward_inv :: "('b, 'z) reward_chain_scheme \<Rightarrow> bool" where
  "reward_inv s \<longleftrightarrow> finite (dom (Rewards s)) \<and>
     (\<forall>era. msum (pending_in era) (Rewards s) \<le> unat (Volumes s era))"

lemma pending_default [simp]: "pending_in era default_reward = 0"
  by (simp add: pending_in_def default_reward_def)

lemma owt_pending [simp]: "owt (pending_in era) (Rewards s w) = pending_in era (rewards s w)"
  by (simp add: rewards_def split: option.split)

lemma store_reward_simps [simp]:
  "Rewards (store_reward w r s) = (Rewards s)(w := r)" "Volumes (store_reward w r s) = Volumes s"
  "block_number (store_reward w r s) = block_number s" "native (store_reward w r s) = native s"
  by (simp_all add: store_reward_def)

lemma reward_deposit [simp]:
  "Rewards (deposit_event e s) = Rewards s" "Volumes (deposit_event e s) = Volumes s"
  by (cases s; simp add: deposit_event_def)+

lemma pay_reward_frame:
  "pay_reward E w v s = Inr s' \<Longrightarrow> Rewards s' = Rewards s \<and> Volumes s' = Volumes s"
  by (auto simp: pay_reward_def try_mutate_account_def try_mutate_issuance_def res_simps split_beta)

lemma rotate_reward_effect:
  assumes "rotate_reward E at vol w s = Inr (c, s')"
  shows "\<exists>r. s' = store_reward w (Some r) s \<and> confirmed r = c \<and> last_modify r = at \<and>
    (if at = last_modify (rewards s w)
     then unat (pending_vol r) = unat (pending_vol (rewards s w)) + unat vol else pending_vol r = vol)"
proof (cases "at = last_modify (rewards s w)")
  case True
  with assms obtain p where "unat p = unat (pending_vol (rewards s w)) + unat vol"
    "c = confirmed (rewards s w)" "s' = store_reward w (Some (rewards s w\<lparr>pending_vol := p\<rparr>)) s"
    by (auto simp: rotate_reward_def Let_def res_simps checked_add_Some)
  with True show ?thesis by (intro exI [of _ "rewards s w\<lparr>pending_vol := p\<rparr>"]) simp
next
  case False
  show ?thesis
  proof (cases "pending_vol (rewards s w) = 0")
    case True
    with False assms show ?thesis
      by (intro exI [of _ "rewards s w\<lparr>pending_vol := vol, last_modify := at\<rparr>"])
        (simp add: rotate_reward_def Let_def)
  next
    case pending: False
    with False assms show ?thesis
      by (intro exI [of _ "rewards s w\<lparr>confirmed := c, pending_vol := vol, last_modify := at\<rparr>"])
        (auto simp: rotate_reward_def Let_def res_simps)
  qed
qed

lemma rotate_pending:
  assumes "rotate_reward E at vol w s = Inr (c, s')" and "finite (dom (Rewards s))"
  shows "msum (pending_in era) (Rewards s')
    \<le> msum (pending_in era) (Rewards s) + (if era = at then unat vol else 0)"
proof -
  obtain r where s': "s' = store_reward w (Some r) s" and at: "last_modify r = at"
    and p: "if at = last_modify (rewards s w)
      then unat (pending_vol r) = unat (pending_vol (rewards s w)) + unat vol else pending_vol r = vol"
    using rotate_reward_effect [OF assms(1)] by blast
  have "pending_in era r \<le> pending_in era (rewards s w) + (if era = at then unat vol else 0)"
    using p at by (cases "at = last_modify (rewards s w)") (auto simp: pending_in_def)
  then show ?thesis
    using msum_update [OF assms(2), of "pending_in era" w "Some r"] by (simp add: s')
qed

lemma rotate_frame:
  assumes "rotate_reward E at vol w s = Inr (c, s')"
  shows "Volumes s' = Volumes s" "finite (dom (Rewards s)) \<Longrightarrow> finite (dom (Rewards s'))"
    "native s' = native s" "Rewards s' w \<noteq> None"
  using rotate_reward_effect [OF assms] by auto

lemma reward_inv_le:
  assumes "reward_inv s" and "finite (dom (Rewards s'))" and "Volumes s' = Volumes s"
    and "\<And>e. msum (pending_in e) (Rewards s') \<le> msum (pending_in e) (Rewards s)"
  shows "reward_inv s'"
  using assms by (auto simp: reward_inv_def intro: le_trans)

lemma reward_inv_rotate:
  assumes "rotate_reward E at 0 w s = Inr (c, s')" and "reward_inv s"
  shows "reward_inv s'"
proof -
  have fin: "finite (dom (Rewards s))" using assms(2) by (simp add: reward_inv_def)
  have "msum (pending_in e) (Rewards s') \<le> msum (pending_in e) (Rewards s)" for e
    using rotate_pending [OF assms(1) fin, of e] by (simp split: if_splits)
  then show ?thesis
    by (intro reward_inv_le [OF assms(2)]) (use rotate_frame [OF assms(1)] fin in simp_all)
qed

lemma reward_inv_save:
  assumes "save_trading E w vol at s = Inr s'" and "reward_inv s"
  shows "reward_inv s'"
proof (cases "vol = 0")
  case True
  with assms show ?thesis by (simp add: save_trading_def)
next
  case False
  with assms(1) obtain era v c where v: "unat v = unat (Volumes s era) + unat vol"
    and rot: "rotate_reward E era vol w (s\<lparr>Volumes := (Volumes s)(era := v)\<rparr>) = Inr (c, s')"
    by (auto simp: save_trading_def res_simps checked_add_Some)
  have fin: "finite (dom (Rewards s))" using assms(2) by (simp add: reward_inv_def)
  have "msum (pending_in e) (Rewards s') \<le> unat (((Volumes s)(era := v)) e)" for e
  proof -
    have "msum (pending_in e) (Rewards s) \<le> unat (Volumes s e)" using assms(2) by (simp add: reward_inv_def)
    moreover have "msum (pending_in e) (Rewards s')
        \<le> msum (pending_in e) (Rewards s) + (if e = era then unat vol else 0)"
      using rotate_pending [OF rot, of e] fin by simp
    ultimately show ?thesis using v by (auto split: if_splits)
  qed
  then show ?thesis using rotate_frame [OF rot] fin by (simp add: reward_inv_def)
qed

lemma claim_reward_elim:
  assumes "claim_reward E w at s = Inr (amount, s')"
  obtains (none) era s1 where "era_start E at = Inr era" "rotate_reward E era 0 w s = Inr (0, s1)"
      "amount = 0" "s' = s1"
  | (some) era s1 r s2 where "era_start E at = Inr era" "rotate_reward E era 0 w s = Inr (amount, s1)"
      "amount \<noteq> 0" "Rewards s1 w = Some r" "confirmed r = amount" "pay_reward E w amount s1 = Inr s2"
      "s' = store_reward w (if pending_vol r > 0 then Some (r\<lparr>confirmed := 0\<rparr>) else None) s2"
proof -
  from assms obtain era c s1 where era: "era_start E at = Inr era"
    and rot: "rotate_reward E era 0 w s = Inr (c, s1)"
    and rest: "(if c = 0 then Inr (0, s1)
       else rbind (ok_or (Rewards s1 w) (RewardE rwd_err.RewardNotFound)) (\<lambda>r.
            let amount = confirmed r;
                r' = r\<lparr>confirmed := 0\<rparr>;
                entry = (if pending_vol r' > 0 then Some r' else None)
            in rbind (if amount > 0 then pay_reward E w amount s1 else Inr s1) (\<lambda>s2.
                 Inr (amount, store_reward w entry s2)))) = Inr (amount, s')"
    unfolding claim_reward_def rbind_eq_Inr by (force simp only: prod.case)
  from rotate_reward_effect [OF rot] obtain r
    where s1: "s1 = store_reward w (Some r) s" and c: "confirmed r = c" by blast
  show thesis
  proof (cases "c = 0")
    case True
    with rest rot era show thesis by (intro none) auto
  next
    case False
    have r: "Rewards s1 w = Some r" by (simp add: s1)
    from False rest c obtain s2 where "pay_reward E w c s1 = Inr s2" "amount = c"
      "s' = store_reward w (if pending_vol r > 0 then Some (r\<lparr>confirmed := 0\<rparr>) else None) s2"
      by (auto simp: r Let_def res_simps word_greater_zero_iff)
    with era rot r c False show thesis by (intro some) auto
  qed
qed

lemma reward_inv_claim:
  assumes "claim_reward E w at s = Inr (amount, s')" and "reward_inv s"
  shows "reward_inv s'"
  using assms(1)
proof (cases rule: claim_reward_elim)
  case (none era s1)
  with reward_inv_rotate [OF none(2) assms(2)] show ?thesis by simp
next
  case (some era s1 r s2)
  have inv: "reward_inv s1" by (rule reward_inv_rotate [OF some(2) assms(2)])
  note pay = pay_reward_frame [OF some(6)]
  have le: "owt (pending_in e) (if pending_vol r > 0 then Some (r\<lparr>confirmed := 0\<rparr>) else None)
      \<le> owt (pending_in e) (Rewards s1 w)" for e
    using some(4) by (simp add: pending_in_def)
  have "msum (pending_in e) (Rewards s') \<le> msum (pending_in e) (Rewards s1)" for e
    using msum_update [of "Rewards s1" "pending_in e" w
        "if pending_vol r > 0 then Some (r\<lparr>confirmed := 0\<rparr>) else None"] le [of e] inv pay
    by (simp add: some(7) reward_inv_def)
  then show ?thesis
    by (intro reward_inv_le [OF inv]) (use inv pay in \<open>simp_all add: some(7) reward_inv_def\<close>)
qed

inductive reward_reachable :: "('b, 'x) reward_env_scheme \<Rightarrow> ('b, 'z) reward_chain_scheme \<Rightarrow> bool"
  for E where
  reward_genesis: "Rewards s = Map.empty \<Longrightarrow> reward_reachable E s"
| reward_trade: "reward_reachable E s \<Longrightarrow> save_trading E w vol at s = Inr s' \<Longrightarrow> reward_reachable E s'"
| reward_take: "reward_reachable E s \<Longrightarrow> take_reward E orig s = Inr s' \<Longrightarrow> reward_reachable E s'"
| reward_set: "reward_reachable E s \<Longrightarrow> set_era_rewards orig v s = Inr s' \<Longrightarrow> reward_reachable E s'"
| reward_other: "reward_reachable E s \<Longrightarrow> Rewards s' = Rewards s \<Longrightarrow> Volumes s' = Volumes s \<Longrightarrow> reward_reachable E s'"

lemma reward_reachable_inv: "reward_reachable E s \<Longrightarrow> reward_inv s"
proof (induction rule: reward_reachable.induct)
  case (reward_genesis s)
  then show ?case by (simp add: reward_inv_def)
next
  case (reward_trade s w vol at s')
  then show ?case by (blast intro: reward_inv_save)
next
  case (reward_take s orig s')
  then obtain w r s1 where "claim_reward E w (block_number s) s = Inr (r, s1)"
    and s': "s' = deposit_event (RewardEv (RewardClaimed w r)) s1"
    by (auto simp: take_reward_def res_simps)
  with reward_take.IH have "reward_inv s1" by (blast intro: reward_inv_claim)
  then show ?case by (simp add: reward_inv_def s')
next
  case (reward_set s orig v s')
  then show ?case by (auto simp: set_era_rewards_def res_simps reward_inv_def)
next
  case (reward_other s s')
  then show ?case by (simp add: reward_inv_def)
qed

section \<open>A concrete chain\<close>

definition rwd_env :: "sample_bal reward_env" where
  "rwd_env = token_env.extend tok_env (reward_env.fields 100 1000 5000)"

definition rwd_genesis :: "sample_bal indicator_chain" where
  "rwd_genesis = \<lparr>block_number = 150, account_nonce = (\<lambda>_. 0), events = [],
     native = ((\<lambda>_. (1000, 0)), 2000), Balances = Map.empty, Tokens = Map.empty, NextTokenId = 1,
     TokenByName = Map.empty, TokenByContract = Map.empty,
     Rewards = Map.empty, EraRewards = None, Volumes = (\<lambda>_. 0),
     OnChainPrices = (\<lambda>_. \<lparr>price = 0, recent_matched_amount = 0, recent_matched_vol = 0, updated_at = 0\<rparr>)\<rparr>"

definition rwd_traded :: "sample_bal indicator_chain" where
  "rwd_traded = rwd_genesis\<lparr>Rewards := [alice \<mapsto> \<lparr>confirmed = 0, pending_vol = 7, last_modify = 100\<rparr>],
     Volumes := (\<lambda>_. 0)(100 := 7)\<rparr>"

lemma rwd_env_simps [simp]:
  "EraDuration rwd_env = 100" "RewardTerminateAt rwd_env = 5000" "RewardsPerEra rwd_env = 1000"
  "native_token_id rwd_env = 0" "perquintill_from_rational rwd_env = sample_ratio"
  "perquintill_mul rwd_env = sample_mul" "bal_free rwd_env = sb_free" "bal_reserved rwd_env = sb_reserved"
  "bal_issuance rwd_env = snd" "bal_set_issuance rwd_env = (\<lambda>n b. (fst b, n))"
  "bal_mutate_account rwd_env = sb_mutate"
  by (simp_all add: rwd_env_def tok_env_def token_env.defs reward_env.defs env.defs sample_env_def native_token_id_def)

lemma spec_rwd_env: "balances_spec rwd_env" "arith_spec rwd_env"
  using sample_balances_spec [of "env.more rwd_env"] sample_arith_spec [of "env.more rwd_env"]
  by (simp_all add: rwd_env_def tok_env_def token_env.defs reward_env.defs env.defs sample_env_def)

lemma rwd_traded_run: "save_trading rwd_env alice 7 150 rwd_genesis = Inr rwd_traded"
  by (simp add: save_trading_def era_start_def era_duration_def rem_u32_def rwd_genesis_def rwd_traded_def
      checked_add_def rotate_reward_def rewards_def default_reward_def store_reward_def)

lemma rwd_traded_reachable: "reward_reachable rwd_env rwd_traded"
  by (rule reward_trade [OF reward_genesis rwd_traded_run]) (simp add: rwd_genesis_def)

section \<open>Properties of the reward pallet\<close>

text \<open>
  C10: in every reachable state the volumes that the traders have pending for an era add up to at
  most the total volume recorded for that era, so that no reward computation divides by zero.
\<close>

theorem reward_volume_bound:
  assumes "reward_reachable E s"
  shows "(\<Sum>w\<in>{w\<in>dom (Rewards s). last_modify (rewards s w) = era}. unat (pending_vol (rewards s w)))
      \<le> unat (Volumes s era) \<and>
    rotate_reward E at vol w s \<noteq> Inl (RewardE rwd_err.DivideByZero)"
proof (intro conjI notI)
  have inv: "reward_inv s" by (rule reward_reachable_inv [OF assms])
  then have fin: "finite (dom (Rewards s))" by (simp add: reward_inv_def)
  have "(\<Sum>w\<in>{w\<in>dom (Rewards s). last_modify (rewards s w) = era}. unat (pending_vol (rewards s w)))
      = (\<Sum>w\<in>dom (Rewards s). pending_in era (the (Rewards s w)))"
    by (rule sum.mono_neutral_cong_left) (use fin in \<open>auto simp: pending_in_def rewards_def\<close>)
  also have "\<dots> \<le> unat (Volumes s era)" using inv by (simp add: reward_inv_def msum_def)
  finally show "(\<Sum>w\<in>{w\<in>dom (Rewards s). last_modify (rewards s w) = era}. unat (pending_vol (rewards s w)))
      \<le> unat (Volumes s era)" .
  assume bad: "rotate_reward E at vol w s = Inl (RewardE rwd_err.DivideByZero)"
  let ?r = "rewards s w"
  have "pending_in (last_modify ?r) ?r \<le> unat (Volumes s (last_modify ?r))"
    using owt_le_msum [OF fin, of "pending_in (last_modify ?r)" w] inv
    by (simp add: reward_inv_def) (meson le_trans)
  then have "pending_vol ?r \<le> Volumes s (last_modify ?r)" by (simp add: pending_in_def word_le_nat_alt)
  with bad show False
    by (auto simp: rotate_reward_def Let_def rbind_eq_Inl ensure_eq_Inl ok_or_eq_Inl word_greater_zero_iff
        split: if_splits)
qed

theorem reward_volume_bound_witness:
  "reward_reachable rwd_env rwd_traded \<and>
   (\<Sum>w\<in>{w\<in>dom (Rewards rwd_traded). last_modify (rewards rwd_traded w) = 100}.
      unat (pending_vol (rewards rwd_traded w))) \<le> 7 \<and>
   rotate_reward rwd_env 200 0 alice rwd_traded \<noteq> Inl (RewardE rwd_err.DivideByZero)"
proof -
  have "unat (Volumes rwd_traded 100) = 7" by (simp add: rwd_traded_def)
  with reward_volume_bound [OF rwd_traded_reachable, of 100 200 0 alice] rwd_traded_reachable
  show ?thesis by simp
qed

lemma pay_reward_effect:
  assumes "balances_spec E" and "pay_reward E w v s = Inr s'"
  shows "bal_free E (native s') w = bal_free E (native s) w + v"
  using assms(2) balances_mutateD [OF assms(1)]
  by (auto simp: pay_reward_def try_mutate_account_def try_mutate_issuance_def res_simps split_beta)

lemma claim_again:
  assumes "era_start E at = Inr era" and "confirmed (rewards s w) = 0"
    and "last_modify (rewards s w) = era \<or> pending_vol (rewards s w) = 0"
  shows "\<exists>s'. claim_reward E w at s = Inr (0, s') \<and> native s' = native s"
  using assms
  by (cases "era = last_modify (rewards s w)")
    (simp_all add: claim_reward_def rotate_reward_def Let_def checked_add_def unsigned_less [where ?'b = 128, simplified])

text \<open>
  A successful claim pays the confirmed reward into the trader's free native balance, adds
  it to the issuance, and leaves nothing confirmed: a second claim in the same era succeeds and
  pays nothing.
\<close>

theorem claim_reward_once:
  assumes "balances_spec E" and "claim_reward E w at s = Inr (c, s')"
  shows "free_balance E s' (native_token_id E) w = free_balance E s (native_token_id E) w + c \<and>
    acked_reward s' w = 0 \<and>
    (\<exists>s''. claim_reward E w at s' = Inr (0, s'') \<and> native s'' = native s')"
  using assms(2)
proof (cases rule: claim_reward_elim)
  case (none era s1)
  then obtain r where s': "s' = store_reward w (Some r) s" and r: "confirmed r = 0" "last_modify r = era"
    using rotate_reward_effect [OF none(2)] by blast
  have "rewards s' w = r" by (simp add: s' rewards_def)
  with r none(3) claim_again [OF none(1), of s' w] show ?thesis
    by (simp add: free_balance_def acked_reward_def) (simp add: s')
next
  case (some era s1 r s2)
  have "last_modify r = era" using rotate_reward_effect [OF some(2)] some(4) by auto
  then have r': "confirmed (rewards s' w) = 0 \<and>
      (last_modify (rewards s' w) = era \<or> pending_vol (rewards s' w) = 0)"
    by (simp add: some(7) rewards_def default_reward_def)
  moreover have "bal_free E (native s') w = bal_free E (native s) w + c"
    using pay_reward_effect [OF assms(1) some(6)] rotate_frame(3) [OF some(2)] by (simp add: some(7))
  ultimately show ?thesis
    using claim_again [OF some(1), of s' w] by (simp add: free_balance_def acked_reward_def)
qed

definition rwd_later :: "sample_bal indicator_chain" where
  "rwd_later = rwd_traded\<lparr>block_number := 250\<rparr>"

lemma rwd_later_ratio: "sample_mul (sample_ratio 7 7) 1000 = 1000"
  by (simp add: sample_ratio_def sample_mul_def QUINT_def)

lemma rwd_later_claim: "\<exists>s'. claim_reward rwd_env alice 250 rwd_later = Inr (1000, s')"
  by (simp add: claim_reward_def era_start_def era_duration_def rem_u32_def rotate_reward_def
      rewards_def rwd_later_def rwd_traded_def rwd_genesis_def store_reward_def era_rewards_def rwd_later_ratio
      checked_add_def pay_reward_def try_mutate_account_def try_mutate_issuance_def sb_mutate_def
      sb_free_def sb_reserved_def)

theorem claim_reward_once_witness:
  "\<exists>s'. claim_reward rwd_env alice 250 rwd_later = Inr (1000, s') \<and>
     free_balance rwd_env s' 0 alice = free_balance rwd_env rwd_later 0 alice + 1000 \<and>
     (\<exists>s''. claim_reward rwd_env alice 250 s' = Inr (0, s''))"
  using rwd_later_claim claim_reward_once [OF spec_rwd_env(1)] by fastforce

text \<open>
  One rotation confirms at most the reward of an era, and nothing once the reward programme
  has terminated; the volume that is not yet rewarded is never lost within its era.
\<close>

theorem rotate_reward_bound:
  assumes "arith_spec E" and "rotate_reward E at vol w s = Inr (c, s')"
  shows "acked_reward s w \<le> c \<and> unat c \<le> unat (acked_reward s w) + unat (era_rewards E s) \<and>
    (RewardTerminateAt E < block_number s \<longrightarrow> c = acked_reward s w) \<and>
    acked_reward s' w = c \<and> (\<forall>w'. w' \<noteq> w \<longrightarrow> Rewards s' w' = Rewards s w') \<and>
    (last_modify (rewards s w) = at \<longrightarrow>
       c = acked_reward s w \<and> unat (pending_vol (rewards s' w)) = unat (pending_vol (rewards s w)) + unat vol)"
proof -
  let ?r = "rewards s w"
  let ?R = "if block_number s > RewardTerminateAt E then 0 else era_rewards E s"
  let ?a = "perquintill_mul E (perquintill_from_rational E (pending_vol ?r) (Volumes s (last_modify ?r))) ?R"
  obtain r where s': "s' = store_reward w (Some r) s" "confirmed r = c" "last_modify r = at"
    and p: "at = last_modify ?r \<longrightarrow> unat (pending_vol r) = unat (pending_vol ?r) + unat vol"
    using rotate_reward_effect [OF assms(2)] by (auto split: if_splits)
  have a: "?a \<le> ?R" by (rule arith_shareD [OF assms(1)])
  have c: "c = confirmed ?r \<or> (at \<noteq> last_modify ?r \<and> unat c = unat (confirmed ?r) + unat ?a)"
    using assms(2) by (auto simp: rotate_reward_def Let_def res_simps checked_add_Some split: if_splits)
  have "rewards s' w = r" "\<forall>w'. w' \<noteq> w \<longrightarrow> Rewards s' w' = Rewards s w'"
    by (simp_all add: s' rewards_def)
  moreover have "RewardTerminateAt E < block_number s \<longrightarrow> c = confirmed ?r"
    using c a by (auto simp: word_unat_eq_iff)
  moreover have "confirmed ?r \<le> c \<and> unat c \<le> unat (confirmed ?r) + unat (era_rewards E s)"
    using c a by (auto simp: word_le_nat_alt split: if_splits)
  ultimately show ?thesis using s' p c by (auto simp: acked_reward_def)
qed

theorem rotate_reward_bound_witness:
  "\<exists>s'. rotate_reward rwd_env 200 0 alice rwd_later = Inr (1000, s') \<and>
     unat (1000 :: u128) \<le> unat (acked_reward rwd_later alice) + unat (era_rewards rwd_env rwd_later)"
proof -
  have "\<exists>s'. rotate_reward rwd_env 200 0 alice rwd_later = Inr (1000, s')"
    by (simp add: rotate_reward_def rewards_def rwd_later_def rwd_traded_def rwd_genesis_def
        era_rewards_def rwd_later_ratio checked_add_def)
  then show ?thesis using rotate_reward_bound [OF spec_rwd_env(2)] by blast
qed

section \<open>Properties of the indicator pallet\<close>

lemma price_split: "0 < a \<Longrightarrow> v div a * q + v mod a * q div a = v * q div a" for v a q :: nat
proof -
  assume "0 < a"
  have "v * q = (v div a * q) * a + v mod a * q"
    by (metis add_mult_distrib div_mult_mod_eq mult.assoc mult.commute)
  with \<open>0 < a\<close> show ?thesis by (metis add.commute div_mult_self1 less_not_refl2)
qed

text \<open>The quotient in units of \<open>10 ^ 18\<close>, computed from the whole part and the ratio of the rest.\<close>

lemma quint_quotient:
  assumes "arith_spec E" and "a \<noteq> 0"
  shows "v div a * QUINTILL + ucast (perquintill_from_rational E (v mod a) a) = of_nat (unat v * 10 ^ 18 div unat a)"
proof -
  have a: "0 < unat a" using assms(2) by (simp add: unat_gt_0)
  have "unat (v mod a) < unat a" using a by (simp add: unat_mod)
  then have "v mod a \<le> a" by (simp add: word_le_nat_alt)
  from arith_ratioD [OF assms this]
  have "ucast (perquintill_from_rational E (v mod a) a) = (of_nat (unat v mod unat a * 10 ^ 18 div unat a) :: u128)"
    by (metis QUINT_def of_nat_unat unat_mod)
  moreover have "v div a * QUINTILL = of_nat (unat v div unat a * 10 ^ 18)"
    by (simp add: QUINTILL_def flip: unat_div)
  ultimately show ?thesis
    using price_split [OF a, of "unat v" "10 ^ 18"] by (metis of_nat_add)
qed

text \<open>
  After a trade of \<open>amount\<close> for \<open>volume\<close>, the price of a token that is not a stable
  coin is the quotient in units of \<open>10 ^ 18\<close>, rounded down, modulo \<open>2 ^ 128\<close>; a stable coin is
  always worth exactly one, and a trade with a zero side changes no price.
\<close>

theorem set_price_correct:
  assumes "arith_spec E" and "amount \<noteq> 0" and "volume \<noteq> 0"
  shows "get_price E (set_price E t amount volume at s) t =
      (if is_stable E s t then 10 ^ 18 else of_nat (unat volume * 10 ^ 18 div unat amount)) \<and>
    (t' \<noteq> t \<longrightarrow> get_price E (set_price E t amount volume at s) t' = get_price E s t') \<and>
    set_price E t 0 volume at s = s \<and> set_price E t amount 0 at s = s"
proof -
  note p = quint_quotient [OF assms(1,2), of volume]
  have st: "is_stable E (set_price E t amount volume at s) u = is_stable E s u" for u
    by (simp add: set_price_def is_stable_def deposit_event_def Let_def)
  show ?thesis
    using p by (simp add: get_price_def st) (simp add: set_price_def assms Let_def deposit_event_def QUINTILL_def)
qed

theorem set_price_correct_witness:
  "get_price rwd_env (set_price rwd_env 1 2 7 150 rwd_genesis) 1 = 3500000000000000000"
  using set_price_correct [OF spec_rwd_env(2), of 2 7 1 150 rwd_genesis]
  by (simp add: is_stable_def rwd_genesis_def)

end
