(* ===== verification/Fuso_Verifier_Data.thy ===== *)
theory Fuso_Verifier_Data
  imports Fuso_Indicator
begin

text \<open>
  The data of the verifier pallet (\<^verbatim>\<open>pallet-fuso-verifier/src/lib.rs\<close>): Merkle leaves and their
  decoders, commands, proofs, receipts, dominators, stakings, bonuses, the storage of the
  pallet as an extension of the chain state, and its configuration.

  \<open>Dominators\<close> and \<open>PendingUnstakings\<close> are iterated over by the code and are association
  lists; a \<^verbatim>\<open>BTreeMap\<close> is an association list in ascending key order. The type variable
  \<open>'c\<close> stands for the runtime's call type, which receipts carry as a callback.
\<close>

section \<open>Ordered maps\<close>

text \<open>\<open>entry(k).and_modify(f).or_insert(v)\<close> of a \<^verbatim>\<open>BTreeMap\<close>.\<close>

fun btree_entry :: "'k::linorder \<Rightarrow> ('v \<Rightarrow> 'v) \<Rightarrow> 'v \<Rightarrow> ('k \<times> 'v) list \<Rightarrow> ('k \<times> 'v) list" where
  "btree_entry k f v [] = [(k, v)]"
| "btree_entry k f v ((k', v') # m) =
     (if k = k' then (k', f v') # m
      else if k < k' then (k, v) # (k', v') # m
      else (k', v') # btree_entry k f v m)"

lemma map_of_btree_entry:
  "sorted_wrt (<) (map fst m) \<Longrightarrow>
   map_of (btree_entry k f v m) =
     (map_of m)(k \<mapsto> (case map_of m k of None \<Rightarrow> v | Some x \<Rightarrow> f x))"
proof (induction m)
  case Nil
  then show ?case by simp
next
  case (Cons e m)
  obtain k' v' where e: "e = (k', v')" by (cases e)
  have none: "map_of m k = None" if "k < k'"
    using Cons.prems that by (auto simp: e map_of_eq_None_iff dest: less_asym)
  show ?case
    using Cons none by (auto simp: e fun_eq_iff)
qed

lemma keys_btree_entry: "fst ` set (btree_entry k f v m) = insert k (fst ` set m)"
  by (induction k f v m rule: btree_entry.induct) (simp_all add: insert_commute)

lemma sorted_btree_entry:
  "sorted_wrt (<) (map fst m) \<Longrightarrow> sorted_wrt (<) (map fst (btree_entry k f v m))"
proof (induction m)
  case Nil
  then show ?case by simp
next
  case (Cons e m)
  obtain k' v' where e: "e = (k', v')" by (cases e)
  have "set (map fst (btree_entry k f v m)) = insert k (fst ` set m)" by (simp add: keys_btree_entry)
  with Cons show ?case by (auto simp: e)
qed

section \<open>Merkle leaves\<close>

record merkle_leaf =
  l_key :: bytes
  old_v :: merkle_hash
  new_v :: merkle_hash

definition ACCOUNT_KEY :: u8 where "ACCOUNT_KEY = 0"
definition ORDERBOOK_KEY :: u8 where "ORDERBOOK_KEY = 1"
definition BESTPRICE_KEY :: u8 where "BESTPRICE_KEY = 2"
definition ORDERPAGE_KEY :: u8 where "ORDERPAGE_KEY = 3"

abbreviation unsatisfied :: error where
  "unsatisfied \<equiv> VerifierE vrf_err.ProofsUnsatisfied"

definition sub_bytes :: "nat \<Rightarrow> nat \<Rightarrow> bytes \<Rightarrow> bytes" where
  "sub_bytes i j bs = drop i (take j bs)"

definition try_get_account :: "merkle_leaf \<Rightarrow> (u32 \<times> account) result" where
  "try_get_account l =
     ensure (length (l_key l) = 37) unsatisfied (
       if l_key l ! 0 = ACCOUNT_KEY
       then Inr (from_le_bytes (drop 33 (l_key l)), sub_bytes 1 33 (l_key l))
       else Inl unsatisfied)"

definition try_get_symbol :: "merkle_leaf \<Rightarrow> (u32 \<times> u32) result" where
  "try_get_symbol l =
     ensure (length (l_key l) = 9) unsatisfied (
       if l_key l ! 0 = ORDERBOOK_KEY \<or> l_key l ! 0 = BESTPRICE_KEY
       then Inr (from_le_bytes (sub_bytes 1 5 (l_key l)), from_le_bytes (drop 5 (l_key l)))
       else Inl unsatisfied)"

definition try_get_orderpage :: "merkle_leaf \<Rightarrow> (u32 \<times> u32 \<times> u128) result" where
  "try_get_orderpage l =
     ensure (length (l_key l) = 25) unsatisfied (
       if l_key l ! 0 = ORDERPAGE_KEY
       then Inr (from_le_bytes (sub_bytes 1 5 (l_key l)), from_le_bytes (sub_bytes 5 9 (l_key l)),
                 from_le_bytes (drop 9 (l_key l)))
       else Inl unsatisfied)"

definition split_value :: "bytes \<Rightarrow> bytes \<times> bytes" where
  "split_value v = (take 16 v, drop 16 v)"

definition split_old_to_u128 :: "merkle_leaf \<Rightarrow> u128 \<times> u128" where
  "split_old_to_u128 l = (case split_value (old_v l) of (a, b) \<Rightarrow> (from_le_bytes a, from_le_bytes b))"

definition split_old_to_sum :: "merkle_leaf \<Rightarrow> u128" where
  "split_old_to_sum l = (case split_old_to_u128 l of (a, b) \<Rightarrow> a + b)"

definition split_new_to_u128 :: "merkle_leaf \<Rightarrow> u128 \<times> u128" where
  "split_new_to_u128 l = (case split_value (new_v l) of (a, b) \<Rightarrow> (from_le_bytes a, from_le_bytes b))"

definition split_new_to_sum :: "merkle_leaf \<Rightarrow> u128" where
  "split_new_to_sum l = (case split_new_to_u128 l of (a, b) \<Rightarrow> a + b)"

section \<open>Commands, proofs and receipts\<close>

text \<open>Arguments of the orders: price, amount, maker fee, taker fee, base, quote.\<close>

datatype command =
    AskLimit u128 u128 u32 u32 u32 u32
  | BidLimit u128 u128 u32 u32 u32 u32
  | Cancel u32 u32
  | TransferOut u32 u128
  | TransferIn u32 u128
  | RejectTransferOut u32 u128
  | RejectTransferIn

record proof_rec =
  event_id :: u64
  user_id :: account
  cmd :: command
  leaves :: "merkle_leaf list"
  maker_page_delta :: u8
  maker_account_delta :: u8
  merkle_proof :: bytes
  proof_root :: merkle_hash

datatype 'c receipt =
    Authorize token_id u128 u32
  | Revoke token_id u128 u32
  | RevokeWithCallback token_id u128 u32 'c

record trade =
  trade_token :: token_id
  trade_root :: merkle_hash
  trade_amount :: u128
  trade_vol :: u128

section \<open>Dominators and stakings\<close>

record dominator =
  d_name :: bytes
  d_staked :: u128
  d_merkle_root :: merkle_hash
  d_start_from :: u32
  d_sequence :: "u64 \<times> u32"
  d_status :: u8

record staking =
  from_season :: u32
  stk_amount :: u128

record bonus =
  b_staked :: u128
  b_profit :: "(token_id \<times> u128) list"

record dominator_setting =
  ds_beneficiary :: "account option"
  ds_x25519_pubkey :: bytes
  ds_rpc_endpoint :: bytes

record broker =
  br_beneficiary :: account
  br_staked :: u128
  br_register_at :: u32
  br_rpc_endpoint :: bytes

record distribution =
  dist_from :: u32
  dist_to :: u32
  dist_staking :: u128

record token_mutation =
  tm_who :: account
  matched_volume :: u128
  matched_amount :: u128
  base_value :: u128
  quote_value :: u128

record clearing_result =
  users_mutation :: "token_mutation list"
  base_fee :: u128
  quote_fee :: u128

section \<open>Storage and configuration\<close>

record ('b, 'c) verifier_chain = "'b indicator_chain" +
  Receipts :: "account \<times> account \<Rightarrow> 'c receipt option"
  Dominators :: "(account \<times> dominator) list"
  DominatorSettings :: "account \<Rightarrow> dominator_setting option"
  Brokers :: "account \<Rightarrow> broker option"
  Reserves :: "(u8 \<times> account \<times> token_id) \<times> account \<Rightarrow> u128 option"
  Bonuses :: "account \<times> u32 \<Rightarrow> bonus"
  Stakings :: "account \<times> account \<Rightarrow> staking option"
  PendingUnstakings :: "u32 \<Rightarrow> (account \<times> u128) list"

text \<open>
  Besides the constants of the pallet: the pallet's own account, the signature check of
  \<^verbatim>\<open>sp_io\<close> and the encoding it is applied to, the LZ4 decompressor, the proof decoder, the
  hash and the verifier of compiled Merkle proofs (\<open>None\<close> for an error).
\<close>

record 'b verifier_env = "'b reward_env" +
  DominatorOnlineThreshold :: u128
  BrokerStakingThreshold :: u128
  SeasonDuration :: u32
  DominatorCheckGracePeriod :: u32
  MinimalStakingAmount :: u128
  MaxMakerFee :: u32
  MaxTakerFee :: u32
  system_account :: account
  sr25519_verify :: "bytes \<Rightarrow> bytes \<Rightarrow> account \<Rightarrow> bool"
  encode_nonce_account :: "u64 \<times> account \<Rightarrow> bytes"
  uncompressed_size :: "bytes \<Rightarrow> (nat \<times> bytes) option"
  lz4_decompress :: "bytes \<Rightarrow> nat \<Rightarrow> bytes option"
  decode_proofs :: "bytes \<Rightarrow> proof_rec list option"
  blake2_256 :: "bytes \<Rightarrow> bytes"
  smt_verify :: "bytes \<Rightarrow> merkle_hash \<Rightarrow> (bytes \<times> merkle_hash) list \<Rightarrow> bool option"

definition UNSTAKE_DELAY_BLOCKS :: u32 where "UNSTAKE_DELAY_BLOCKS = 14400 * 4"
definition MAX_PROOF_SIZE :: nat where "MAX_PROOF_SIZE = 10 * 1024 * 1024"

definition default_staking :: staking where
  "default_staking = \<lparr>from_season = 0, stk_amount = 0\<rparr>"

definition get_dominator :: "('b, 'c, 'z) verifier_chain_scheme \<Rightarrow> account \<Rightarrow> dominator option" where
  "get_dominator s w = map_of (Dominators s) w"

definition put_dominator ::
  "account \<Rightarrow> dominator \<Rightarrow> ('b, 'c, 'z) verifier_chain_scheme \<Rightarrow> ('b, 'c, 'z) verifier_chain_scheme" where
  "put_dominator w d s = s\<lparr>Dominators := AList.update w d (Dominators s)\<rparr>"

definition get_reserve ::
  "('b, 'c, 'z) verifier_chain_scheme \<Rightarrow> (u8 \<times> account \<times> token_id) \<times> account \<Rightarrow> u128" where
  "get_reserve s k = (case Reserves s k of None \<Rightarrow> 0 | Some v \<Rightarrow> v)"

definition put_reserve ::
  "(u8 \<times> account \<times> token_id) \<times> account \<Rightarrow> u128 option \<Rightarrow> ('b, 'c, 'z) verifier_chain_scheme
    \<Rightarrow> ('b, 'c, 'z) verifier_chain_scheme" where
  "put_reserve k v s = s\<lparr>Reserves := (Reserves s)(k := v)\<rparr>"

definition get_staking :: "('b, 'c, 'z) verifier_chain_scheme \<Rightarrow> account \<times> account \<Rightarrow> staking" where
  "get_staking s k = (case Stakings s k of None \<Rightarrow> default_staking | Some v \<Rightarrow> v)"

definition put_staking ::
  "account \<times> account \<Rightarrow> staking option \<Rightarrow> ('b, 'c, 'z) verifier_chain_scheme
    \<Rightarrow> ('b, 'c, 'z) verifier_chain_scheme" where
  "put_staking k v s = s\<lparr>Stakings := (Stakings s)(k := v)\<rparr>"

definition put_receipt ::
  "account \<times> account \<Rightarrow> 'c receipt option \<Rightarrow> ('b, 'c, 'z) verifier_chain_scheme
    \<Rightarrow> ('b, 'c, 'z) verifier_chain_scheme" where
  "put_receipt k v s = s\<lparr>Receipts := (Receipts s)(k := v)\<rparr>"

end
