(* ===== verification/Fuso_Matching.thy ===== *)
theory Fuso_Matching
  imports Fuso_Verifier_Data
begin

text \<open>
  What a proof must show of its Merkle leaves: the checks of
  \<^verbatim>\<open>pallet-fuso-verifier/src/lib.rs\<close> for limit orders, cancellations and transfers. The two
  order checks are long functions of the source; each is a composition of the definitions for
  its consecutive parts (order book leaf, taker, makers, fees, order pages), in the order of the
  code, so that the first failing check decides the error.

  Leaf positions are computed as in the code: \<open>4u8 + maker_accounts + pages\<close> wraps around in
  eight bits, the positions themselves are \<^verbatim>\<open>usize\<close>; an index out of range panics. Sums
  and differences of balances that the code does not check wrap around.
\<close>

section \<open>Authorised amounts\<close>

definition has_authorized_morethan ::
  "('b, 'c, 'z) verifier_chain_scheme \<Rightarrow> account \<Rightarrow> token_id \<Rightarrow> u128 \<Rightarrow> account \<Rightarrow> bool" where
  "has_authorized_morethan s who tid amount dom_id \<longleftrightarrow>
     get_reserve s ((RESERVE_FOR_AUTHORIZING, who, tid), dom_id) \<ge> amount"

definition has_authorized_exactly_on ::
  "('b, 'c, 'z) verifier_chain_scheme \<Rightarrow> account \<Rightarrow> token_id \<Rightarrow> u128 \<Rightarrow> account \<Rightarrow> bool" where
  "has_authorized_exactly_on s who tid amount dom_id =
     (let c = get_reserve s ((RESERVE_FOR_AUTHORIZING, who, tid), dom_id)
      in if c \<ge> amount then c - amount \<le> 100000000000 else amount - c \<le> 100000000000)"

section \<open>Ask orders\<close>

definition leaves_count :: "u8 \<Rightarrow> u8 \<Rightarrow> nat" where
  "leaves_count maker_accounts pages = unat (4 + maker_accounts + pages)"

text \<open>The order book leaf gives the change of the two sides of the book.\<close>

definition ask_header :: "u32 \<Rightarrow> u32 \<Rightarrow> u8 \<Rightarrow> u8 \<Rightarrow> merkle_leaf list \<Rightarrow> (u128 \<times> u128) result" where
  "ask_header base quote maker_accounts pages ls =
     ensure (length ls = leaves_count maker_accounts pages) unsatisfied (
     ensure (maker_accounts mod 2 = 0) unsatisfied (
     rbind (index ls 0) (\<lambda>l.
     rbind (try_get_symbol l) (\<lambda>(b, q).
     ensure (b = base \<and> q = quote) unsatisfied (
       let (ask0, bid0) = split_old_to_u128 l;
           (ask1, bid1) = split_new_to_u128 l
       in Inr (ask1 - ask0, bid0 - bid1))))))"

text \<open>The taker's base and quote leaves; the result is the taker and the two differences.\<close>

definition ask_taker ::
  "('b, 'c, 'z) verifier_chain_scheme \<Rightarrow> u128 \<Rightarrow> u32 \<Rightarrow> u32 \<Rightarrow> u8 \<Rightarrow> account \<Rightarrow> merkle_leaf list
    \<Rightarrow> u128 \<Rightarrow> u128 \<Rightarrow> (account \<times> u128 \<times> u128) result" where
  "ask_taker s amount base quote maker_accounts dom_id ls ask_delta bid_delta =
     rbind (index ls (unat maker_accounts + 1)) (\<lambda>taker_base.
     rbind (try_get_account taker_base) (\<lambda>(bk, taker_b_id).
     let (tba0, tbf0) = split_old_to_u128 taker_base;
         (tba1, tbf1) = split_new_to_u128 taker_base
     in rbind (ok_or (checked_add tba0 tbf0) (VerifierE vrf_err.Overflow)) (\<lambda>tb0.
     ensure (has_authorized_exactly_on s taker_b_id base tb0 dom_id) unsatisfied (
     let tb_delta = (tba0 + tbf0) - (tba1 + tbf1)
     in rbind (index ls (unat maker_accounts + 2)) (\<lambda>taker_quote.
     rbind (try_get_account taker_quote) (\<lambda>(qk, taker_q_id).
     let (tqa0, tqf0) = split_old_to_u128 taker_quote;
         (tqa1, tqf1) = split_new_to_u128 taker_quote
     in ensure (has_authorized_exactly_on s taker_q_id quote (tqa0 + tqf0) dom_id) unsatisfied (
     rbind (ok_or (checked_add tqa1 tqf1) (VerifierE vrf_err.Overflow)) (\<lambda>tq1.
     rbind (ok_or (checked_add tqa0 tqf0) (VerifierE vrf_err.Overflow)) (\<lambda>tq0.
     rbind (ok_or (checked_sub tq1 tq0) (VerifierE vrf_err.Overflow)) (\<lambda>tq_delta.
     ensure (bk = base \<and> qk = quote) unsatisfied (
     ensure (taker_b_id = taker_q_id) unsatisfied (
     ensure (if ask_delta \<noteq> 0 then amount = tba0 - tba1 else tbf0 = tbf1) unsatisfied (
     ensure (bid_delta = tb_delta) unsatisfied (
       Inr (taker_b_id, tb_delta, tq_delta)))))))))))))))"

text \<open>One iteration over the makers: the base and the quote leaf of maker \<open>i\<close>. The accumulator
  holds the two sums and the mutations, in order.\<close>

definition ask_maker ::
  "('b, 'c, 'z) verifier_chain_scheme \<Rightarrow> u32 \<Rightarrow> u32 \<Rightarrow> account \<Rightarrow> merkle_leaf list
    \<Rightarrow> nat \<Rightarrow> u128 \<times> u128 \<times> token_mutation list \<Rightarrow> (u128 \<times> u128 \<times> token_mutation list) result" where
  "ask_maker s base quote dom_id ls i acc =
     (case acc of (mb_delta, mq_delta, delta) \<Rightarrow>
     rbind (index ls (i * 2 + 1)) (\<lambda>maker_base.
     rbind (try_get_account maker_base) (\<lambda>(bk, maker_b_id).
     let mb0 = split_old_to_sum maker_base
     in ensure (has_authorized_exactly_on s maker_b_id base mb0 dom_id) unsatisfied (
     let mb1 = split_new_to_sum maker_base;
         base_incr = mb1 - mb0
     in rbind (index ls (i * 2 + 2)) (\<lambda>maker_quote.
     rbind (try_get_account maker_quote) (\<lambda>(qk, maker_q_id).
     ensure (base = bk \<and> quote = qk) unsatisfied (
     let mq0 = split_old_to_sum maker_quote
     in ensure (has_authorized_exactly_on s maker_q_id quote mq0 dom_id) unsatisfied (
     let mq1 = split_new_to_sum maker_quote;
         quote_decr = mq0 - mq1
     in ensure (maker_b_id = maker_q_id) unsatisfied (
       Inr (mb_delta + base_incr, mq_delta + quote_decr,
            delta @ [\<lparr>tm_who = maker_q_id, matched_volume = quote_decr, matched_amount = base_incr,
                      base_value = mb1, quote_value = mq1\<rparr>]))))))))))"

definition ask_makers ::
  "('b, 'c, 'z) verifier_chain_scheme \<Rightarrow> u32 \<Rightarrow> u32 \<Rightarrow> u8 \<Rightarrow> account \<Rightarrow> merkle_leaf list
    \<Rightarrow> (u128 \<times> u128 \<times> token_mutation list) result" where
  "ask_makers s base quote maker_accounts dom_id ls =
     rfold (ask_maker s base quote dom_id ls) [0..<unat maker_accounts div 2] (0, 0, [])"

text \<open>What the makers and the taker are charged.\<close>

definition ask_fees ::
  "('b, 'x) env_scheme \<Rightarrow> u32 \<Rightarrow> u32 \<Rightarrow> u128 \<Rightarrow> u128 \<Rightarrow> u128 \<Rightarrow> u128 \<Rightarrow> (u128 \<times> u128) result" where
  "ask_fees E maker_fee taker_fee tb_delta tq_delta mb_delta mq_delta =
     (let base_charged = permill_mul_ceil E maker_fee tb_delta
      in ensure (mb_delta + base_charged = tb_delta) unsatisfied (
         let quote_charged = permill_mul_ceil E taker_fee mq_delta
         in rbind (ok_or (checked_add tq_delta quote_charged) (VerifierE vrf_err.Overflow)) (\<lambda>t.
            ensure (mq_delta = t) unsatisfied (Inr (base_charged, quote_charged)))))"

text \<open>The pages that the order has emptied: ever lower prices, nothing left on them.\<close>

definition ask_page ::
  "u32 \<Rightarrow> u32 \<Rightarrow> u8 \<Rightarrow> merkle_leaf list \<Rightarrow> nat \<Rightarrow> u128 \<times> u128 \<Rightarrow> (u128 \<times> u128) result" where
  "ask_page base quote maker_accounts ls i acc =
     (case acc of (pre_best, taken_bids) \<Rightarrow>
     rbind (index ls (unat maker_accounts + 4 + i)) (\<lambda>page.
     rbind (try_get_orderpage page) (\<lambda>(b, q, p).
     ensure (b = base \<and> q = quote) unsatisfied (
     ensure (pre_best > p) unsatisfied (
     ensure (split_new_to_sum page = 0) unsatisfied (
       Inr (p, taken_bids + split_old_to_sum page)))))))"

definition ask_traded ::
  "u128 \<Rightarrow> u128 \<Rightarrow> u32 \<Rightarrow> u32 \<Rightarrow> u8 \<Rightarrow> u8 \<Rightarrow> merkle_leaf list \<Rightarrow> merkle_leaf \<Rightarrow> u128 \<Rightarrow> u128 \<Rightarrow> unit result" where
  "ask_traded prc amount base quote maker_accounts pages ls best ask_delta tb_delta =
     (let (best_ask0, best_bid0) = split_old_to_u128 best;
          (best_ask1, best_bid1) = split_new_to_u128 best
      in ensure (pages > 0 \<and> prc \<le> best_bid0) unsatisfied (
         rbind (rfold (ask_page base quote maker_accounts ls) [0..<unat pages - 1] (best_bid0 + 1, 0)) (\<lambda>(pre_best, taken_bids).
         rbind (last_unwrap ls) (\<lambda>page.
         rbind (try_get_orderpage page) (\<lambda>(b, q, p).
         ensure (b = base \<and> q = quote) unsatisfied (
         ensure (pre_best > p \<and> p \<ge> best_bid1) unsatisfied (
         if ask_delta \<noteq> 0
         then ensure (best_ask1 = prc \<and> p = prc) unsatisfied (
              ensure (taken_bids + split_old_to_sum page + split_new_to_sum page = amount) unsatisfied (Inr ()))
         else ensure (best_ask1 = best_ask0) unsatisfied (
              ensure (tb_delta = taken_bids + split_old_to_sum page - split_new_to_sum page) unsatisfied (Inr ())))))))))"

definition ask_untraded ::
  "u128 \<Rightarrow> u32 \<Rightarrow> u32 \<Rightarrow> merkle_leaf list \<Rightarrow> merkle_leaf \<Rightarrow> u128 \<Rightarrow> unit result" where
  "ask_untraded amount base quote ls best ask_delta =
     (let (best_ask0, best_bid0) = split_old_to_u128 best;
          (best_ask1, best_bid1) = split_new_to_u128 best
      in ensure (best_bid1 = best_bid0) unsatisfied (
         if ask_delta \<noteq> 0
         then rbind (last_unwrap ls) (\<lambda>page.
              rbind (try_get_orderpage page) (\<lambda>(b, q, p).
              ensure (b = base \<and> q = quote \<and> p > best_bid1) unsatisfied (
              ensure (amount = split_new_to_sum page - split_old_to_sum page) unsatisfied (Inr ()))))
         else Inr ()))"

definition ask_pages ::
  "u128 \<Rightarrow> u128 \<Rightarrow> u32 \<Rightarrow> u32 \<Rightarrow> u8 \<Rightarrow> u8 \<Rightarrow> merkle_leaf list \<Rightarrow> u128 \<Rightarrow> u128 \<Rightarrow> u128 \<Rightarrow> unit result" where
  "ask_pages prc amount base quote maker_accounts pages ls ask_delta bid_delta tb_delta =
     rbind (index ls (unat maker_accounts + 3)) (\<lambda>best.
     rbind (try_get_symbol best) (\<lambda>(b, q).
     ensure (b = base \<and> q = quote) unsatisfied (
       if bid_delta \<noteq> 0
       then ask_traded prc amount base quote maker_accounts pages ls best ask_delta tb_delta
       else ask_untraded amount base quote ls best ask_delta)))"

text \<open>The mutation of the taker comes last.\<close>

definition taker_mutation ::
  "account \<Rightarrow> u8 \<Rightarrow> merkle_leaf list \<Rightarrow> u128 \<Rightarrow> u128 \<Rightarrow> token_mutation" where
  "taker_mutation taker maker_accounts ls vol amount =
     \<lparr>tm_who = taker, matched_volume = vol, matched_amount = amount,
      base_value = split_new_to_sum (ls ! (unat maker_accounts + 1)),
      quote_value = split_new_to_sum (ls ! (unat maker_accounts + 2))\<rparr>"

definition verify_ask_limit ::
  "('b, 'x) env_scheme \<Rightarrow> ('b, 'c, 'z) verifier_chain_scheme \<Rightarrow> u128 \<Rightarrow> u128 \<Rightarrow> u32 \<Rightarrow> u32 \<Rightarrow> u32 \<Rightarrow> u32
    \<Rightarrow> u8 \<Rightarrow> u8 \<Rightarrow> account \<Rightarrow> merkle_leaf list \<Rightarrow> clearing_result result" where
  "verify_ask_limit E s prc amount maker_fee taker_fee base quote maker_accounts pages dom_id ls =
     rbind (ask_header base quote maker_accounts pages ls) (\<lambda>(ask_delta, bid_delta).
     rbind (ask_taker s amount base quote maker_accounts dom_id ls ask_delta bid_delta) (\<lambda>(taker, tb_delta, tq_delta).
     rbind (ask_makers s base quote maker_accounts dom_id ls) (\<lambda>(mb_delta, mq_delta, delta).
     rbind (ask_fees E maker_fee taker_fee tb_delta tq_delta mb_delta mq_delta) (\<lambda>(base_charged, quote_charged).
     rbind (ask_pages prc amount base quote maker_accounts pages ls ask_delta bid_delta tb_delta) (\<lambda>_.
       Inr \<lparr>users_mutation = delta @ [taker_mutation taker maker_accounts ls mq_delta tb_delta],
            base_fee = base_charged, quote_fee = quote_charged\<rparr>)))))"

section \<open>Bid orders\<close>

text \<open>The key of the order book leaf is not looked at.\<close>

definition bid_header :: "u8 \<Rightarrow> u8 \<Rightarrow> merkle_leaf list \<Rightarrow> (u128 \<times> u128) result" where
  "bid_header maker_accounts pages ls =
     ensure (length ls = leaves_count maker_accounts pages) unsatisfied (
     ensure (maker_accounts mod 2 = 0) unsatisfied (
     rbind (index ls 0) (\<lambda>l.
       let (ask0, bid0) = split_old_to_u128 l;
           (ask1, bid1) = split_new_to_u128 l
       in Inr (ask0 - ask1, bid1 - bid0))))"

definition bid_taker ::
  "('b, 'c, 'z) verifier_chain_scheme \<Rightarrow> u32 \<Rightarrow> u32 \<Rightarrow> u8 \<Rightarrow> account \<Rightarrow> merkle_leaf list
    \<Rightarrow> (account \<times> u128 \<times> u128) result" where
  "bid_taker s base quote maker_accounts dom_id ls =
     rbind (index ls (unat maker_accounts + 1)) (\<lambda>taker_base.
     let (tba0, tbf0) = split_old_to_u128 taker_base;
         (tba1, tbf1) = split_new_to_u128 taker_base;
         tb_delta = (tba1 + tbf1) - (tba0 + tbf0)
     in rbind (try_get_account taker_base) (\<lambda>(bk, taker_b_id).
     ensure (has_authorized_exactly_on s taker_b_id base (tba0 + tbf0) dom_id) unsatisfied (
     rbind (index ls (unat maker_accounts + 2)) (\<lambda>taker_quote.
     let (tqa0, tqf0) = split_old_to_u128 taker_quote;
         (tqa1, tqf1) = split_new_to_u128 taker_quote
     in rbind (try_get_account taker_quote) (\<lambda>(qk, taker_q_id).
     ensure (has_authorized_exactly_on s taker_q_id quote (tqa0 + tqf0) dom_id) unsatisfied (
     rbind (ok_or (checked_add tqa0 tqf0) (VerifierE vrf_err.Overflow)) (\<lambda>tq0.
     rbind (ok_or (checked_add tqa1 tqf1) (VerifierE vrf_err.Overflow)) (\<lambda>tq1.
     rbind (ok_or (checked_sub tq0 tq1) (VerifierE vrf_err.Overflow)) (\<lambda>tq_delta.
     ensure (bk = base \<and> qk = quote) unsatisfied (
     ensure (taker_b_id = taker_q_id) unsatisfied (
       Inr (taker_b_id, tb_delta, tq_delta))))))))))))"

definition bid_maker ::
  "('b, 'c, 'z) verifier_chain_scheme \<Rightarrow> u32 \<Rightarrow> u32 \<Rightarrow> account \<Rightarrow> merkle_leaf list
    \<Rightarrow> nat \<Rightarrow> u128 \<times> u128 \<times> token_mutation list \<Rightarrow> (u128 \<times> u128 \<times> token_mutation list) result" where
  "bid_maker s base quote dom_id ls i acc =
     (case acc of (mb_delta, mq_delta, delta) \<Rightarrow>
     rbind (index ls (i * 2 + 1)) (\<lambda>maker_base.
     rbind (try_get_account maker_base) (\<lambda>(bk, maker_b_id).
     let mb0 = split_old_to_sum maker_base
     in ensure (has_authorized_exactly_on s maker_b_id base mb0 dom_id) unsatisfied (
     let mb1 = split_new_to_sum maker_base;
         base_decr = mb0 - mb1
     in rbind (index ls (i * 2 + 2)) (\<lambda>maker_quote.
     rbind (try_get_account maker_quote) (\<lambda>(qk, maker_q_id).
     ensure (quote = qk \<and> base = bk) unsatisfied (
     ensure (maker_b_id = maker_q_id) unsatisfied (
     let mq0 = split_old_to_sum maker_quote
     in ensure (has_authorized_exactly_on s maker_q_id quote mq0 dom_id) unsatisfied (
     let mq1 = split_new_to_sum maker_quote
     in rbind (ok_or (checked_sub mq1 mq0) (VerifierE vrf_err.Overflow)) (\<lambda>quote_incr.
     rbind (ok_or (checked_add mq_delta quote_incr) (VerifierE vrf_err.Overflow)) (\<lambda>mq_delta'.
       Inr (mb_delta + base_decr, mq_delta',
            delta @ [\<lparr>tm_who = maker_b_id, matched_volume = quote_incr, matched_amount = base_decr,
                      base_value = mb1, quote_value = mq1\<rparr>]))))))))))))"

definition bid_makers ::
  "('b, 'c, 'z) verifier_chain_scheme \<Rightarrow> u32 \<Rightarrow> u32 \<Rightarrow> u8 \<Rightarrow> account \<Rightarrow> merkle_leaf list
    \<Rightarrow> (u128 \<times> u128 \<times> token_mutation list) result" where
  "bid_makers s base quote maker_accounts dom_id ls =
     rfold (bid_maker s base quote dom_id ls) [0..<unat maker_accounts div 2] (0, 0, [])"

definition bid_fees ::
  "('b, 'x) env_scheme \<Rightarrow> u128 \<Rightarrow> u32 \<Rightarrow> u32 \<Rightarrow> u128 \<Rightarrow> u128 \<Rightarrow> u128 \<Rightarrow> u128 \<Rightarrow> u128 \<Rightarrow> u128
    \<Rightarrow> (u128 \<times> u128) result" where
  "bid_fees E amount maker_fee taker_fee ask_delta bid_delta tb_delta tq_delta mb_delta mq_delta =
     (let quote_charged = permill_mul_ceil E maker_fee tq_delta
      in rbind (ok_or (checked_add mq_delta quote_charged) (VerifierE vrf_err.Overflow)) (\<lambda>t.
         ensure (t = tq_delta) unsatisfied (
         let base_charged = permill_mul_ceil E taker_fee mb_delta
         in rbind (ok_or (checked_add tb_delta base_charged) (VerifierE vrf_err.Overflow)) (\<lambda>u.
            ensure (u = mb_delta) unsatisfied (
            ensure (ask_delta = mb_delta) unsatisfied (
            ensure (bid_delta \<noteq> 0 \<longrightarrow> bid_delta = amount - mb_delta) unsatisfied (
              Inr (base_charged, quote_charged))))))))"

text \<open>The pages that the order has emptied: prices that do not fall, nothing left on them.\<close>

definition bid_page ::
  "u32 \<Rightarrow> u32 \<Rightarrow> u8 \<Rightarrow> merkle_leaf list \<Rightarrow> nat \<Rightarrow> u128 \<times> u128 \<Rightarrow> (u128 \<times> u128) result" where
  "bid_page base quote maker_accounts ls i acc =
     (case acc of (pre_best, taken_asks) \<Rightarrow>
     rbind (index ls (unat maker_accounts + 4 + i)) (\<lambda>page.
     rbind (try_get_orderpage page) (\<lambda>(b, q, p).
     ensure (b = base \<and> q = quote) unsatisfied (
     ensure (pre_best \<le> p) unsatisfied (
     ensure (split_new_to_sum page = 0) unsatisfied (
       Inr (p, taken_asks + split_old_to_sum page)))))))"

definition bid_partial ::
  "u128 \<Rightarrow> u128 \<Rightarrow> u32 \<Rightarrow> u32 \<Rightarrow> merkle_leaf list \<Rightarrow> u128 \<Rightarrow> u128 \<Rightarrow> unit result" where
  "bid_partial prc amount base quote ls best_bid1 taken_asks =
     rbind (last_unwrap ls) (\<lambda>page.
     rbind (try_get_orderpage page) (\<lambda>(b, q, p).
     ensure (b = base \<and> q = quote \<and> p = prc) unsatisfied (
     ensure (best_bid1 = prc) unsatisfied (
     ensure (taken_asks + split_old_to_sum page + split_new_to_sum page = amount) unsatisfied (Inr ())))))"

definition bid_filled ::
  "u32 \<Rightarrow> u32 \<Rightarrow> merkle_leaf list \<Rightarrow> u128 \<Rightarrow> u128 \<Rightarrow> u128 \<Rightarrow> u128 \<Rightarrow> u128 \<Rightarrow> unit result" where
  "bid_filled base quote ls best_bid0 best_bid1 taken_asks tb_delta base_charged =
     rbind (last_unwrap ls) (\<lambda>page.
     rbind (try_get_orderpage page) (\<lambda>(b, q, p).
     ensure (b = base \<and> q = quote) unsatisfied (
     ensure (best_bid1 = best_bid0) unsatisfied (
     rbind (ok_or (checked_add tb_delta base_charged) (VerifierE vrf_err.Overflow)) (\<lambda>u.
     rbind (ok_or (checked_add taken_asks (split_old_to_sum page)) (VerifierE vrf_err.Overflow)) (\<lambda>v.
     rbind (ok_or (checked_sub v (split_new_to_sum page)) (VerifierE vrf_err.Overflow)) (\<lambda>w.
     ensure (u = w) unsatisfied (Inr ()))))))))"

definition bid_traded ::
  "u128 \<Rightarrow> u128 \<Rightarrow> u32 \<Rightarrow> u32 \<Rightarrow> u8 \<Rightarrow> u8 \<Rightarrow> merkle_leaf list \<Rightarrow> merkle_leaf \<Rightarrow> u128 \<Rightarrow> u128 \<Rightarrow> u128 \<Rightarrow> unit result" where
  "bid_traded prc amount base quote maker_accounts pages ls best bid_delta tb_delta base_charged =
     (let (best_ask0, best_bid0) = split_old_to_u128 best;
          (best_ask1, best_bid1) = split_new_to_u128 best
      in ensure (pages > 0 \<and> prc \<ge> best_ask0) unsatisfied (
         rbind (rfold (bid_page base quote maker_accounts ls) [0..<unat pages - 1] (best_ask0, 0)) (\<lambda>(pre_best, taken_asks).
         if bid_delta \<noteq> 0
         then bid_partial prc amount base quote ls best_bid1 taken_asks
         else bid_filled base quote ls best_bid0 best_bid1 taken_asks tb_delta base_charged)))"

definition bid_untraded ::
  "u128 \<Rightarrow> u128 \<Rightarrow> u32 \<Rightarrow> u32 \<Rightarrow> merkle_leaf list \<Rightarrow> merkle_leaf \<Rightarrow> u128 \<Rightarrow> unit result" where
  "bid_untraded prc amount base quote ls best bid_delta =
     (let (best_ask0, best_bid0) = split_old_to_u128 best;
          (best_ask1, best_bid1) = split_new_to_u128 best
      in ensure (best_ask1 = best_ask0) unsatisfied (
         if bid_delta \<noteq> 0
         then rbind (last_unwrap ls) (\<lambda>page.
              rbind (try_get_orderpage page) (\<lambda>(b, q, p).
              ensure (b = base \<and> q = quote \<and> p = prc) unsatisfied (
              ensure (amount = split_new_to_sum page - split_old_to_sum page) unsatisfied (Inr ()))))
         else Inr ()))"

definition bid_pages ::
  "u128 \<Rightarrow> u128 \<Rightarrow> u32 \<Rightarrow> u32 \<Rightarrow> u8 \<Rightarrow> u8 \<Rightarrow> merkle_leaf list \<Rightarrow> u128 \<Rightarrow> u128 \<Rightarrow> u128 \<Rightarrow> u128 \<Rightarrow> unit result" where
  "bid_pages prc amount base quote maker_accounts pages ls ask_delta bid_delta tb_delta base_charged =
     rbind (index ls (unat maker_accounts + 3)) (\<lambda>best.
     rbind (try_get_symbol best) (\<lambda>(b, q).
     ensure (b = base \<and> q = quote) unsatisfied (
       if ask_delta \<noteq> 0
       then bid_traded prc amount base quote maker_accounts pages ls best bid_delta tb_delta base_charged
       else bid_untraded prc amount base quote ls best bid_delta)))"

text \<open>The new balances of the taker are added with overflow checks.\<close>

definition bid_taker_values :: "u8 \<Rightarrow> merkle_leaf list \<Rightarrow> unit result" where
  "bid_taker_values maker_accounts ls =
     (let (tba1, tbf1) = split_new_to_u128 (ls ! (unat maker_accounts + 1));
          (tqa1, tqf1) = split_new_to_u128 (ls ! (unat maker_accounts + 2))
      in rbind (ok_or (checked_add tba1 tbf1) (VerifierE vrf_err.Overflow)) (\<lambda>_.
         rbind (ok_or (checked_add tqa1 tqf1) (VerifierE vrf_err.Overflow)) (\<lambda>_. Inr ())))"

definition verify_bid_limit ::
  "('b, 'x) env_scheme \<Rightarrow> ('b, 'c, 'z) verifier_chain_scheme \<Rightarrow> u128 \<Rightarrow> u128 \<Rightarrow> u32 \<Rightarrow> u32 \<Rightarrow> u32 \<Rightarrow> u32
    \<Rightarrow> u8 \<Rightarrow> u8 \<Rightarrow> account \<Rightarrow> merkle_leaf list \<Rightarrow> clearing_result result" where
  "verify_bid_limit E s prc amount maker_fee taker_fee base quote maker_accounts pages dom_id ls =
     rbind (bid_header maker_accounts pages ls) (\<lambda>(ask_delta, bid_delta).
     rbind (bid_taker s base quote maker_accounts dom_id ls) (\<lambda>(taker, tb_delta, tq_delta).
     rbind (bid_makers s base quote maker_accounts dom_id ls) (\<lambda>(mb_delta, mq_delta, delta).
     rbind (bid_fees E amount maker_fee taker_fee ask_delta bid_delta tb_delta tq_delta mb_delta mq_delta) (\<lambda>(base_charged, quote_charged).
     rbind (bid_taker_values maker_accounts ls) (\<lambda>_.
     rbind (bid_pages prc amount base quote maker_accounts pages ls ask_delta bid_delta tb_delta base_charged) (\<lambda>_.
       Inr \<lparr>users_mutation = delta @ [taker_mutation taker maker_accounts ls tq_delta mb_delta],
            base_fee = base_charged, quote_fee = quote_charged\<rparr>))))))"

section \<open>Transfers and cancellations\<close>

definition verify_transfer_in :: "u32 \<Rightarrow> u128 \<Rightarrow> account \<Rightarrow> merkle_leaf list \<Rightarrow> unit result" where
  "verify_transfer_in currency amount account ls =
     ensure (length ls = 1) unsatisfied (
     rbind (index ls 0) (\<lambda>l.
     let (a0, f0) = split_old_to_u128 l;
         (a1, f1) = split_new_to_u128 l
     in ensure (a1 - a0 = amount) unsatisfied (
        ensure (f1 = f0) unsatisfied (
        rbind (try_get_account l) (\<lambda>(c, w).
        ensure (currency = c \<and> account = w) unsatisfied (Inr ()))))))"

definition check_fee :: "('b, 'x) verifier_env_scheme \<Rightarrow> u32 \<Rightarrow> u32 \<Rightarrow> unit result" where
  "check_fee E taker_fee maker_fee =
     ensure (maker_fee \<le> MaxMakerFee E \<and> taker_fee \<le> MaxTakerFee E) (VerifierE vrf_err.FeesTooHigh) (Inr ())"

definition verify_transfer_out :: "u32 \<Rightarrow> u128 \<Rightarrow> account \<Rightarrow> merkle_leaf list \<Rightarrow> unit result" where
  "verify_transfer_out currency amount account ls =
     ensure (length ls = 1) unsatisfied (
     rbind (index ls 0) (\<lambda>l.
     let (a0, f0) = split_old_to_u128 l;
         (a1, f1) = split_new_to_u128 l
     in ensure (a0 - a1 = amount) unsatisfied (
        ensure (f1 = f0) unsatisfied (
        rbind (try_get_account l) (\<lambda>(c, w).
        ensure (currency = c \<and> account = w) unsatisfied (Inr ()))))))"

definition verify_reject_transfer_out :: "u32 \<Rightarrow> u128 \<Rightarrow> account \<Rightarrow> merkle_leaf list \<Rightarrow> unit result" where
  "verify_reject_transfer_out currency amount account ls =
     ensure (length ls = 1) unsatisfied (
     rbind (index ls 0) (\<lambda>l.
     let (a0, f0) = split_old_to_u128 l
     in ensure (a0 < amount) unsatisfied (
        rbind (try_get_account l) (\<lambda>(c, w).
        ensure (currency = c \<and> account = w) unsatisfied (Inr ())))))"

text \<open>The account leaves of a cancellation: the cancelled amount is unfrozen, the sum stays.\<close>

definition cancel_account :: "u32 \<Rightarrow> account \<Rightarrow> merkle_leaf list \<Rightarrow> nat \<Rightarrow> unit result" where
  "cancel_account currency account ls i =
     rbind (index ls i) (\<lambda>l.
     rbind (try_get_account l) (\<lambda>(c, w).
     ensure (c = currency) unsatisfied (
     ensure (account = w) unsatisfied (
       let (a0, f0) = split_old_to_u128 l;
           (a1, f1) = split_new_to_u128 l
       in ensure (a0 + f0 = a1 + f1) unsatisfied (Inr ())))))"

definition verify_cancel :: "u32 \<Rightarrow> u32 \<Rightarrow> account \<Rightarrow> merkle_leaf list \<Rightarrow> unit result" where
  "verify_cancel base quote account ls =
     ensure (length ls = 5) unsatisfied (
     rbind (index ls 0) (\<lambda>l0.
     rbind (try_get_symbol l0) (\<lambda>(b, q).
     ensure (b = base \<and> q = quote) unsatisfied (
     let (ask0, bid0) = split_old_to_u128 l0;
         (ask1, bid1) = split_new_to_u128 l0;
         ask_delta = ask0 - ask1;
         bid_delta = bid0 - bid1
     in ensure (ask_delta + bid_delta \<noteq> 0) unsatisfied (
        ensure (and ask_delta bid_delta = 0) unsatisfied (
        rbind (cancel_account base account ls 1) (\<lambda>_.
        rbind (cancel_account quote account ls 2) (\<lambda>_.
        rbind (index ls 3) (\<lambda>l3.
        let (best_ask0, best_bid0) = split_old_to_u128 l3
        in rbind (index ls 4) (\<lambda>l4.
           rbind (try_get_orderpage l4) (\<lambda>(b', q', cancel_at).
           ensure (b' = base \<and> q' = quote \<and> (cancel_at \<ge> best_ask0 \<or> cancel_at \<le> best_bid0)) unsatisfied (
           let before_cancel = split_old_to_sum l4;
               after_cancel = split_new_to_sum l4
           in if cancel_at \<ge> best_ask0 \<and> best_ask0 \<noteq> 0
              then ensure (ask_delta = before_cancel - after_cancel) unsatisfied (Inr ())
              else ensure (bid_delta = before_cancel - after_cancel) unsatisfied (Inr ())))))))))))))"

end
