(* ===== verification/Fuso_Matching_Props.thy ===== *)
theory Fuso_Matching_Props
  imports Fuso_Matching Fuso_Samples
begin

text \<open>
  Laws of the order checks. The makers' loop is characterised once by what it adds up; from it
  follows that an accepted order neither creates nor destroys base or quote currency: the new
  balances and the fees add up to the old balances, in the arithmetic of 128-bit words, and exactly
  when the totals before and after stay below \<open>2 ^ 128\<close>. The last section has accepted leaves
  whose totals do not.
\<close>

section \<open>Leaf sums\<close>

definition old_sums :: "merkle_leaf list \<Rightarrow> nat list \<Rightarrow> u128" where
  "old_sums ls is = (\<Sum>i\<leftarrow>is. split_old_to_sum (ls ! i))"

definition new_sums :: "merkle_leaf list \<Rightarrow> nat list \<Rightarrow> u128" where
  "new_sums ls is = (\<Sum>i\<leftarrow>is. split_new_to_sum (ls ! i))"

text \<open>The positions of the base and of the quote leaves, makers first.\<close>

definition base_positions :: "u8 \<Rightarrow> nat list" where
  "base_positions ma = map (\<lambda>i. i * 2 + 1) [0..<unat ma div 2] @ [unat ma + 1]"

definition quote_positions :: "u8 \<Rightarrow> nat list" where
  "quote_positions ma = map (\<lambda>i. i * 2 + 2) [0..<unat ma div 2] @ [unat ma + 2]"

lemma sums_simps [simp]:
  "old_sums ls [] = 0" "new_sums ls [] = 0"
  "old_sums ls (is @ js) = old_sums ls is + old_sums ls js"
  "new_sums ls (is @ js) = new_sums ls is + new_sums ls js"
  "old_sums ls (i # is) = split_old_to_sum (ls ! i) + old_sums ls is"
  "new_sums ls (i # is) = split_new_to_sum (ls ! i) + new_sums ls is"
  by (simp_all add: old_sums_def new_sums_def)

lemma add_diffs: "m + (a - b) + (c - d) = m + ((a + c) - (b + d))" for m :: "'a::ab_group_add"
  by (simp add: algebra_simps)

lemma fee_balance:
  fixes n :: "'a::ab_group_add"
  assumes "m = n - k" and "t = K - N" and "m + f = t"
  shows "n + N + f = k + K"
proof -
  from assms have "n - k + f = K - N" by simp
  then show ?thesis by (simp add: algebra_simps)
qed

lemma ask_maker_effect:
  assumes "ask_maker s base quote dom_id ls i (mb, mq, dl) = Inr (mb', mq', dl')"
  shows "\<exists>w. dl' = dl @ [\<lparr>tm_who = w, matched_volume = split_old_to_sum (ls ! (i * 2 + 2)) - split_new_to_sum (ls ! (i * 2 + 2)),
        matched_amount = split_new_to_sum (ls ! (i * 2 + 1)) - split_old_to_sum (ls ! (i * 2 + 1)),
        base_value = split_new_to_sum (ls ! (i * 2 + 1)), quote_value = split_new_to_sum (ls ! (i * 2 + 2))\<rparr>] \<and>
      mb' = mb + (split_new_to_sum (ls ! (i * 2 + 1)) - split_old_to_sum (ls ! (i * 2 + 1))) \<and>
      mq' = mq + (split_old_to_sum (ls ! (i * 2 + 2)) - split_new_to_sum (ls ! (i * 2 + 2))) \<and>
      try_get_account (ls ! (i * 2 + 1)) = Inr (base, w) \<and> try_get_account (ls ! (i * 2 + 2)) = Inr (quote, w) \<and>
      has_authorized_exactly_on s w base (split_old_to_sum (ls ! (i * 2 + 1))) dom_id \<and>
      has_authorized_exactly_on s w quote (split_old_to_sum (ls ! (i * 2 + 2))) dom_id"
  using assms by (auto simp: ask_maker_def Let_def res_simps split: prod.splits)

lemma ask_makers_effect:
  assumes "rfold (ask_maker s base quote dom_id ls) is (mb, mq, dl) = Inr (mb', mq', dl')"
  shows "mb' = mb + (new_sums ls (map (\<lambda>i. i * 2 + 1) is) - old_sums ls (map (\<lambda>i. i * 2 + 1) is)) \<and>
    mq' = mq + (old_sums ls (map (\<lambda>i. i * 2 + 2) is) - new_sums ls (map (\<lambda>i. i * 2 + 2) is)) \<and>
    map base_value dl' = map base_value dl @ map (\<lambda>i. split_new_to_sum (ls ! (i * 2 + 1))) is \<and>
    map quote_value dl' = map quote_value dl @ map (\<lambda>i. split_new_to_sum (ls ! (i * 2 + 2))) is"
  using assms
proof (induction "is" arbitrary: mb mq dl)
  case Nil
  then show ?case by simp
next
  case (Cons i "is")
  from Cons.prems obtain acc where step: "ask_maker s base quote dom_id ls i (mb, mq, dl) = Inr acc"
    and rest: "rfold (ask_maker s base quote dom_id ls) is acc = Inr (mb', mq', dl')"
    by (auto simp: res_simps)
  obtain mb1 mq1 dl1 where acc: "acc = (mb1, mq1, dl1)" by (cases acc)
  from ask_maker_effect [OF step [unfolded acc]] Cons.IH [OF rest [unfolded acc]]
  show ?case by (auto simp: add_diffs)
qed

lemma bid_maker_effect:
  assumes "bid_maker s base quote dom_id ls i (mb, mq, dl) = Inr (mb', mq', dl')"
  shows "\<exists>w. dl' = dl @ [\<lparr>tm_who = w, matched_volume = split_new_to_sum (ls ! (i * 2 + 2)) - split_old_to_sum (ls ! (i * 2 + 2)),
        matched_amount = split_old_to_sum (ls ! (i * 2 + 1)) - split_new_to_sum (ls ! (i * 2 + 1)),
        base_value = split_new_to_sum (ls ! (i * 2 + 1)), quote_value = split_new_to_sum (ls ! (i * 2 + 2))\<rparr>] \<and>
      mb' = mb + (split_old_to_sum (ls ! (i * 2 + 1)) - split_new_to_sum (ls ! (i * 2 + 1))) \<and>
      mq' = mq + (split_new_to_sum (ls ! (i * 2 + 2)) - split_old_to_sum (ls ! (i * 2 + 2)))"
proof -
  from assms obtain w qi where dl': "dl' = dl @ [\<lparr>tm_who = w, matched_volume = qi,
        matched_amount = split_old_to_sum (ls ! (i * 2 + 1)) - split_new_to_sum (ls ! (i * 2 + 1)),
        base_value = split_new_to_sum (ls ! (i * 2 + 1)), quote_value = split_new_to_sum (ls ! (i * 2 + 2))\<rparr>]"
    and mb': "mb' = mb + (split_old_to_sum (ls ! (i * 2 + 1)) - split_new_to_sum (ls ! (i * 2 + 1)))"
    and qi: "checked_sub (split_new_to_sum (ls ! (i * 2 + 2))) (split_old_to_sum (ls ! (i * 2 + 2))) = Some qi"
    and mq': "checked_add mq qi = Some mq'"
    by (auto simp: bid_maker_def Let_def res_simps split: prod.splits)
  with checked_sub_value [OF qi] checked_add_value [OF mq'] show ?thesis by auto
qed

lemma bid_makers_effect:
  assumes "rfold (bid_maker s base quote dom_id ls) is (mb, mq, dl) = Inr (mb', mq', dl')"
  shows "mb' = mb + (old_sums ls (map (\<lambda>i. i * 2 + 1) is) - new_sums ls (map (\<lambda>i. i * 2 + 1) is)) \<and>
    mq' = mq + (new_sums ls (map (\<lambda>i. i * 2 + 2) is) - old_sums ls (map (\<lambda>i. i * 2 + 2) is)) \<and>
    map base_value dl' = map base_value dl @ map (\<lambda>i. split_new_to_sum (ls ! (i * 2 + 1))) is \<and>
    map quote_value dl' = map quote_value dl @ map (\<lambda>i. split_new_to_sum (ls ! (i * 2 + 2))) is"
  using assms
proof (induction "is" arbitrary: mb mq dl)
  case Nil
  then show ?case by simp
next
  case (Cons i "is")
  from Cons.prems obtain acc where step: "bid_maker s base quote dom_id ls i (mb, mq, dl) = Inr acc"
    and rest: "rfold (bid_maker s base quote dom_id ls) is acc = Inr (mb', mq', dl')"
    by (auto simp: res_simps)
  obtain mb1 mq1 dl1 where acc: "acc = (mb1, mq1, dl1)" by (cases acc)
  from bid_maker_effect [OF step [unfolded acc]] Cons.IH [OF rest [unfolded acc]]
  show ?case by (auto simp: add_diffs)
qed

lemma ask_taker_effect:
  assumes "ask_taker s amount base quote ma dom_id ls ask_delta bid_delta = Inr (w, tb, tq)"
  shows "tb = split_old_to_sum (ls ! (unat ma + 1)) - split_new_to_sum (ls ! (unat ma + 1)) \<and>
    tq = split_new_to_sum (ls ! (unat ma + 2)) - split_old_to_sum (ls ! (unat ma + 2)) \<and> bid_delta = tb"
  using assms
  by (auto simp: ask_taker_def Let_def res_simps split_old_to_sum_def split_new_to_sum_def
      dest!: checked_add_value checked_sub_value split: prod.splits)

lemma bid_taker_effect:
  assumes "bid_taker s base quote ma dom_id ls = Inr (w, tb, tq)"
  shows "tb = split_new_to_sum (ls ! (unat ma + 1)) - split_old_to_sum (ls ! (unat ma + 1)) \<and>
    tq = split_old_to_sum (ls ! (unat ma + 2)) - split_new_to_sum (ls ! (unat ma + 2))"
  using assms
  by (auto simp: bid_taker_def Let_def res_simps split_old_to_sum_def split_new_to_sum_def
      dest!: checked_add_value checked_sub_value split: prod.splits)

lemma taker_values [simp]:
  "base_value (taker_mutation w ma ls v a) = split_new_to_sum (ls ! (unat ma + 1))"
  "quote_value (taker_mutation w ma ls v a) = split_new_to_sum (ls ! (unat ma + 2))"
  by (simp_all add: taker_mutation_def)

text \<open>What the settlement of both kinds of orders has in common: the values written are the new leaf
  sums, and currency is conserved.\<close>

definition conserves :: "clearing_result \<Rightarrow> u8 \<Rightarrow> merkle_leaf list \<Rightarrow> bool" where
  "conserves cr ma ls \<longleftrightarrow>
     map base_value (users_mutation cr) = map (\<lambda>i. split_new_to_sum (ls ! i)) (base_positions ma) \<and>
     map quote_value (users_mutation cr) = map (\<lambda>i. split_new_to_sum (ls ! i)) (quote_positions ma) \<and>
     sum_list (map base_value (users_mutation cr)) + base_fee cr = old_sums ls (base_positions ma) \<and>
     sum_list (map quote_value (users_mutation cr)) + quote_fee cr = old_sums ls (quote_positions ma)"

text \<open>The same sums over the natural numbers: what the users hold after the settlement with the fee, and what
  the leaves show before it. They are below \<open>2 ^ 128\<close> when no sum overflows.\<close>

definition total_after :: "(token_mutation \<Rightarrow> u128) \<Rightarrow> u128 \<Rightarrow> clearing_result \<Rightarrow> nat" where
  "total_after val fee cr = (\<Sum>m\<leftarrow>users_mutation cr. unat (val m)) + unat fee"

definition total_before :: "merkle_leaf list \<Rightarrow> nat list \<Rightarrow> nat" where
  "total_before ls is = (\<Sum>i\<leftarrow>is. unat (split_old_to_sum (ls ! i)))"

lemma word_of_sum: "word_of_nat (\<Sum>x\<leftarrow>xs. unat (f x)) = (\<Sum>x\<leftarrow>xs. f x)"
  by (induction xs) simp_all

lemma exact_sums:
  assumes "sum_list (map val (users_mutation cr)) + fee = old_sums ls is"
  shows "total_after val fee cr mod 2 ^ 128 = total_before ls is mod 2 ^ 128"
proof -
  have "(word_of_nat (total_after val fee cr) :: u128) = word_of_nat (total_before ls is)"
    using assms by (simp add: total_after_def total_before_def old_sums_def word_of_sum)
  then have "unat (word_of_nat (total_after val fee cr) :: u128) = unat (word_of_nat (total_before ls is) :: u128)" by simp
  then show ?thesis by (simp only: unat_of_nat) simp
qed

lemma conserves_exact:
  assumes "conserves cr ma ls"
  shows "total_after base_value (base_fee cr) cr mod 2 ^ 128 = total_before ls (base_positions ma) mod 2 ^ 128"
    "total_after quote_value (quote_fee cr) cr mod 2 ^ 128 = total_before ls (quote_positions ma) mod 2 ^ 128"
  using assms by (intro exact_sums; simp add: conserves_def)+

section \<open>Keys of leaves\<close>

lemma nat_le_le_nat: "nat_le (length bs) (le_nat bs) = bs"
proof (induction bs)
  case Nil
  then show ?case by simp
next
  case (Cons b bs)
  have b: "unat b < 256" using unsigned_less [of b] by simp
  then have "(unat b + 256 * le_nat bs) mod 256 = unat b" "(unat b + 256 * le_nat bs) div 256 = le_nat bs"
    by simp_all
  with Cons.IH show ?case by simp
qed

lemma to_from_le_bytes:
  assumes "length bs = k" and "LENGTH('a::len) = 8 * k"
  shows "to_le_bytes k (from_le_bytes bs :: 'a word) = bs"
proof -
  have "(2::nat) ^ LENGTH('a) = 256 ^ k"
    using power_mult [of "2::nat" 8 k] by (simp add: assms(2))
  then have "unat (from_le_bytes bs :: 'a word) = le_nat bs"
    using le_nat_bound [of bs] by (simp add: from_le_bytes_def unat_of_nat assms(1))
  then show ?thesis using nat_le_le_nat [of bs] by (simp add: to_le_bytes_def assms(1))
qed

lemma le_field_iff:
  fixes c :: "'a::len word"
  assumes "LENGTH('a) = 8 * k"
  shows "length bs = k \<and> c = from_le_bytes bs \<longleftrightarrow> bs = to_le_bytes k c"
  using from_to_le_bytes [OF assms, of c] to_from_le_bytes [OF _ assms, of bs] by auto

lemma append_iff: "r = x @ y \<longleftrightarrow> take (length x) r = x \<and> drop (length x) r = y"
  by (metis append_eq_conv_conj)

lemma account_key_exact:
  "try_get_account l = Inr (c, w) \<longleftrightarrow> length w = 32 \<and> l_key l = 0 # w @ to_le_bytes 4 c"
proof (cases "l_key l")
  case Nil
  then show ?thesis by (simp add: try_get_account_def ensure_def)
next
  case (Cons t r)
  have "try_get_account l = Inr (c, w) \<longleftrightarrow>
      t = 0 \<and> w = take 32 r \<and> length r = 36 \<and> c = from_le_bytes (drop 32 r)"
    by (auto simp: try_get_account_def ensure_def Cons ACCOUNT_KEY_def sub_bytes_def)
  also have "\<dots> \<longleftrightarrow> t = 0 \<and> length w = 32 \<and> w = take 32 r \<and> (length (drop 32 r) = 4 \<and> c = from_le_bytes (drop 32 r))"
    by auto
  also have "\<dots> \<longleftrightarrow> t = 0 \<and> length w = 32 \<and> r = w @ to_le_bytes 4 c"
    using le_field_iff [of 4 "drop 32 r" c] append_iff [of r w "to_le_bytes 4 c"] by auto
  finally show ?thesis by (auto simp: Cons)
qed

lemma symbol_key_exact:
  "try_get_symbol l = Inr (b, q) \<longleftrightarrow> (\<exists>t \<in> {1, 2}. l_key l = t # to_le_bytes 4 b @ to_le_bytes 4 q)"
proof (cases "l_key l")
  case Nil
  then show ?thesis by (simp add: try_get_symbol_def ensure_def)
next
  case (Cons t r)
  have "try_get_symbol l = Inr (b, q) \<longleftrightarrow>
      t \<in> {1, 2} \<and> length r = 8 \<and> b = from_le_bytes (take 4 r) \<and> q = from_le_bytes (drop 4 r)"
    by (auto simp: try_get_symbol_def ensure_def Cons ORDERBOOK_KEY_def BESTPRICE_KEY_def sub_bytes_def)
  also have "\<dots> \<longleftrightarrow> t \<in> {1, 2} \<and> (length (take 4 r) = 4 \<and> b = from_le_bytes (take 4 r)) \<and>
      (length (drop 4 r) = 4 \<and> q = from_le_bytes (drop 4 r))"
    by auto
  also have "\<dots> \<longleftrightarrow> t \<in> {1, 2} \<and> r = to_le_bytes 4 b @ to_le_bytes 4 q"
    using le_field_iff [of 4 "take 4 r" b] le_field_iff [of 4 "drop 4 r" q]
      append_iff [of r "to_le_bytes 4 b" "to_le_bytes 4 q"] by auto
  finally show ?thesis by (auto simp: Cons)
qed

lemma page_key_exact:
  "try_get_orderpage l = Inr (b, q, p) \<longleftrightarrow> l_key l = 3 # to_le_bytes 4 b @ to_le_bytes 4 q @ to_le_bytes 16 p"
proof (cases "l_key l")
  case Nil
  then show ?thesis by (simp add: try_get_orderpage_def ensure_def)
next
  case (Cons t r)
  have "try_get_orderpage l = Inr (b, q, p) \<longleftrightarrow>
      t = 3 \<and> length r = 24 \<and> b = from_le_bytes (take 4 r) \<and> q = from_le_bytes (drop 4 (take 8 r)) \<and>
      p = from_le_bytes (drop 8 r)"
    by (auto simp: try_get_orderpage_def ensure_def Cons ORDERPAGE_KEY_def sub_bytes_def)
  also have "\<dots> \<longleftrightarrow> t = 3 \<and> (length (take 4 r) = 4 \<and> b = from_le_bytes (take 4 r)) \<and>
      (length (drop 4 (take 8 r)) = 4 \<and> q = from_le_bytes (drop 4 (take 8 r))) \<and>
      (length (drop 8 r) = 16 \<and> p = from_le_bytes (drop 8 r))"
    by auto
  also have "\<dots> \<longleftrightarrow> t = 3 \<and> take 4 r = to_le_bytes 4 b \<and> drop 4 (take 8 r) = to_le_bytes 4 q \<and>
      drop 8 r = to_le_bytes 16 p"
    using le_field_iff [of 4 "take 4 r" b] le_field_iff [of 4 "drop 4 (take 8 r)" q]
      le_field_iff [of 16 "drop 8 r" p] by simp
  also have "\<dots> \<longleftrightarrow> t = 3 \<and> r = to_le_bytes 4 b @ to_le_bytes 4 q @ to_le_bytes 16 p"
    using append_iff [of r "to_le_bytes 4 b"] append_iff [of "drop 4 r" "to_le_bytes 4 q" "to_le_bytes 16 p"]
    by (auto simp: drop_take)
  finally show ?thesis by (auto simp: Cons)
qed

text \<open>
  The decoder of account keys accepts exactly the tag byte 0, the 32 bytes of the account and
  the little-endian currency; that of order pages exactly the tag 3, base, quote and price; that
  of symbols the tags 1 and 2, base and quote.
\<close>

theorem leaf_keys_exact:
  "(try_get_account l = Inr (c, w) \<longleftrightarrow> length w = 32 \<and> l_key l = 0 # w @ to_le_bytes 4 c) \<and>
   (try_get_orderpage l = Inr (b, q, p) \<longleftrightarrow>
      l_key l = 3 # to_le_bytes 4 b @ to_le_bytes 4 q @ to_le_bytes 16 p) \<and>
   (try_get_symbol l = Inr (b, q) \<longleftrightarrow>
      l_key l = 1 # to_le_bytes 4 b @ to_le_bytes 4 q \<or> l_key l = 2 # to_le_bytes 4 b @ to_le_bytes 4 q)"
  using account_key_exact page_key_exact symbol_key_exact by auto

section \<open>A concrete order book\<close>

text \<open>Alice (taker) sells 1000 units of token 1 to Bob (maker), who has bid for them; the makers' fee is
  0.1 percent and the takers' fee 0.2 percent.\<close>

definition vrf_state :: "(sample_bal, unit) verifier_chain" where
  "vrf_state = \<lparr>block_number = 100, account_nonce = (\<lambda>_. 0), events = [],
     native = ((\<lambda>_. (1000, 0)), 2000), Balances = Map.empty, Tokens = Map.empty, NextTokenId = 1,
     TokenByName = Map.empty, TokenByContract = Map.empty,
     Rewards = Map.empty, EraRewards = None, Volumes = (\<lambda>_. 0),
     OnChainPrices = (\<lambda>_. \<lparr>price = 0, recent_matched_amount = 0, recent_matched_vol = 0, updated_at = 0\<rparr>),
     Receipts = Map.empty, Dominators = [], DominatorSettings = Map.empty, Brokers = Map.empty,
     Reserves = Map.empty, Bonuses = (\<lambda>_. \<lparr>b_staked = 0, b_profit = []\<rparr>), Stakings = Map.empty,
     PendingUnstakings = (\<lambda>_. [])\<rparr>"

definition mk_leaf :: "bytes \<Rightarrow> u128 \<times> u128 \<Rightarrow> u128 \<times> u128 \<Rightarrow> merkle_leaf" where
  "mk_leaf k v v' = \<lparr>l_key = k, old_v = to_le_bytes 16 (fst v) @ to_le_bytes 16 (snd v),
     new_v = to_le_bytes 16 (fst v') @ to_le_bytes 16 (snd v')\<rparr>"

definition account_key :: "u32 \<Rightarrow> account \<Rightarrow> bytes" where
  "account_key c w = 0 # w @ to_le_bytes 4 c"

definition symbol_key :: "u8 \<Rightarrow> u32 \<Rightarrow> u32 \<Rightarrow> bytes" where
  "symbol_key t b q = t # to_le_bytes 4 b @ to_le_bytes 4 q"

definition page_key :: "u32 \<Rightarrow> u32 \<Rightarrow> u128 \<Rightarrow> bytes" where
  "page_key b q p = 3 # to_le_bytes 4 b @ to_le_bytes 4 q @ to_le_bytes 16 p"

lemma from_to_u128 [simp]: "(from_le_bytes (to_le_bytes 16 w) :: u128) = w"
  by (rule from_to_le_bytes) simp

lemma mk_leaf_simps [simp]:
  "l_key (mk_leaf k v v') = k" "split_old_to_u128 (mk_leaf k v v') = v" "split_new_to_u128 (mk_leaf k v v') = v'"
  "split_old_to_sum (mk_leaf k v v') = fst v + snd v" "split_new_to_sum (mk_leaf k v v') = fst v' + snd v'"
  by (simp_all add: mk_leaf_def split_old_to_u128_def split_new_to_u128_def split_value_def
      split_old_to_sum_def split_new_to_sum_def split_beta)

lemma mk_leaf_keys [simp]:
  "length w = 32 \<Longrightarrow> try_get_account (mk_leaf (account_key c w) v v') = Inr (c, w)"
  "t = 1 \<or> t = 2 \<Longrightarrow> try_get_symbol (mk_leaf (symbol_key t b q) v v') = Inr (b, q)"
  "try_get_orderpage (mk_leaf (page_key b q p) v v') = Inr (b, q, p)"
  using account_key_exact [of "mk_leaf (account_key c w) v v'" c w]
    symbol_key_exact [of "mk_leaf (symbol_key t b q) v v'" b q]
    page_key_exact [of "mk_leaf (page_key b q p) v v'" b q p]
  by (auto simp: account_key_def symbol_key_def page_key_def)

lemma length_accounts [simp]: "length alice = 32" "length bob = 32"
  by (simp_all add: alice_def bob_def)

definition ask_leaves :: "merkle_leaf list" where
  "ask_leaves =
     [mk_leaf (symbol_key 1 1 2) (0, 1000) (0, 0),
      mk_leaf (account_key 1 bob) (0, 0) (999, 0), mk_leaf (account_key 2 bob) (7000, 2000) (7000, 0),
      mk_leaf (account_key 1 alice) (5000, 0) (4000, 0), mk_leaf (account_key 2 alice) (10, 0) (2006, 0),
      mk_leaf (symbol_key 2 1 2) (50, 20) (50, 0), mk_leaf (page_key 1 2 20) (1000, 0) (0, 0)]"

definition ask_state :: "(sample_bal, unit) verifier_chain" where
  "ask_state = vrf_state\<lparr>Reserves := [((RESERVE_FOR_AUTHORIZING, bob, 2), bob) \<mapsto> 9000,
     ((RESERVE_FOR_AUTHORIZING, alice, 1), bob) \<mapsto> 5000, ((RESERVE_FOR_AUTHORIZING, alice, 2), bob) \<mapsto> 10]\<rparr>"

lemma ask_sample:
  "verify_ask_limit tok_env ask_state 20 1000 1000 2000 1 2 2 1 bob ask_leaves = Inr
     \<lparr>users_mutation = [\<lparr>tm_who = bob, matched_volume = 2000, matched_amount = 999, base_value = 999, quote_value = 7000\<rparr>,
        \<lparr>tm_who = alice, matched_volume = 2000, matched_amount = 1000, base_value = 4000, quote_value = 2006\<rparr>],
      base_fee = 1, quote_fee = 4\<rparr>"
proof -
  have h: "ask_header 1 2 2 1 ask_leaves = Inr (0, 1000)"
    by (simp add: ask_header_def leaves_count_def ask_leaves_def index_def)
  have t: "ask_taker ask_state 1000 1 2 2 bob ask_leaves 0 1000 = Inr (alice, 1000, 1996)"
    by (simp add: ask_taker_def ask_leaves_def index_def checked_add_def checked_sub_def
        has_authorized_exactly_on_def ask_state_def get_reserve_def)
  have m: "ask_makers ask_state 1 2 2 bob ask_leaves = Inr (999, 2000,
      [\<lparr>tm_who = bob, matched_volume = 2000, matched_amount = 999, base_value = 999, quote_value = 7000\<rparr>])"
    by (simp add: ask_makers_def ask_maker_def ask_leaves_def index_def upt_rec
        has_authorized_exactly_on_def ask_state_def vrf_state_def get_reserve_def)
  have f: "ask_fees tok_env 1000 2000 1000 1996 999 2000 = Inr (1, 4)"
    by (simp add: ask_fees_def checked_add_def sample_mul_ceil_def)
  have p: "ask_pages 20 1000 1 2 2 1 ask_leaves 0 1000 1000 = Inr ()"
    by (simp add: ask_pages_def ask_traded_def ask_leaves_def index_def last_unwrap_def)
  show ?thesis
    by (simp add: verify_ask_limit_def h t m f p taker_mutation_def) (simp add: ask_leaves_def)
qed

text \<open>Alice (taker) buys 1000 units of token 1 from Bob (maker), at the same fees.\<close>

definition bid_leaves :: "merkle_leaf list" where
  "bid_leaves =
     [mk_leaf (symbol_key 1 1 2) (1000, 0) (0, 0),
      mk_leaf (account_key 1 bob) (1000, 0) (0, 0), mk_leaf (account_key 2 bob) (0, 0) (1998, 0),
      mk_leaf (account_key 1 alice) (0, 0) (998, 0), mk_leaf (account_key 2 alice) (9000, 0) (7000, 0),
      mk_leaf (symbol_key 2 1 2) (20, 5) (30, 5), mk_leaf (page_key 1 2 20) (1000, 0) (0, 0)]"

definition bid_state :: "(sample_bal, unit) verifier_chain" where
  "bid_state = vrf_state\<lparr>Reserves := [((RESERVE_FOR_AUTHORIZING, bob, 1), bob) \<mapsto> 1000,
     ((RESERVE_FOR_AUTHORIZING, alice, 2), bob) \<mapsto> 9000]\<rparr>"

lemma bid_sample:
  "verify_bid_limit tok_env bid_state 20 1000 1000 2000 1 2 2 1 bob bid_leaves = Inr
     \<lparr>users_mutation = [\<lparr>tm_who = bob, matched_volume = 1998, matched_amount = 1000, base_value = 0, quote_value = 1998\<rparr>,
        \<lparr>tm_who = alice, matched_volume = 2000, matched_amount = 1000, base_value = 998, quote_value = 7000\<rparr>],
      base_fee = 2, quote_fee = 2\<rparr>"
proof -
  have h: "bid_header 2 1 bid_leaves = Inr (1000, 0)"
    by (simp add: bid_header_def leaves_count_def bid_leaves_def index_def)
  have t: "bid_taker bid_state 1 2 2 bob bid_leaves = Inr (alice, 998, 2000)"
    by (simp add: bid_taker_def bid_leaves_def index_def checked_add_def checked_sub_def
        has_authorized_exactly_on_def bid_state_def vrf_state_def get_reserve_def)
  have m: "bid_makers bid_state 1 2 2 bob bid_leaves = Inr (1000, 1998,
      [\<lparr>tm_who = bob, matched_volume = 1998, matched_amount = 1000, base_value = 0, quote_value = 1998\<rparr>])"
    by (simp add: bid_makers_def bid_maker_def bid_leaves_def index_def upt_rec checked_add_def checked_sub_def
        has_authorized_exactly_on_def bid_state_def vrf_state_def get_reserve_def)
  have f: "bid_fees tok_env 1000 1000 2000 1000 0 998 2000 1000 1998 = Inr (2, 2)"
    by (simp add: bid_fees_def checked_add_def sample_mul_ceil_def)
  have v: "bid_taker_values 2 bid_leaves = Inr ()"
    by (simp add: bid_taker_values_def bid_leaves_def checked_add_def)
  have p: "bid_pages 20 1000 1 2 2 1 bid_leaves 1000 0 998 2 = Inr ()"
    by (simp add: bid_pages_def bid_traded_def bid_filled_def bid_leaves_def index_def last_unwrap_def
        checked_add_def checked_sub_def)
  show ?thesis
    by (simp add: verify_bid_limit_def h t m f v p taker_mutation_def) (simp add: bid_leaves_def)
qed

section \<open>Conservation\<close>

text \<open>
  C3: an ask order that the verifier accepts conserves both currencies modulo \<open>2 ^ 128\<close>, and exactly when
  the balances of the accounts that take part overflow neither before nor after it, which the check does not
  ask for. The settlement writes exactly the new balances that the leaves show, and these together with the fee
  of the dominator add up to the balances before, for the base and for the quote currency; the fees are the
  maker and taker fee on the traded amounts, rounded up.
\<close>

theorem ask_limit_conserves:
  assumes "verify_ask_limit E s prc amount maker_fee taker_fee base quote ma pages dom_id ls = Inr cr"
  shows "conserves cr ma ls \<and>
    (total_before ls (base_positions ma) < 2 ^ 128 \<and> total_after base_value (base_fee cr) cr < 2 ^ 128 \<longrightarrow>
       total_after base_value (base_fee cr) cr = total_before ls (base_positions ma)) \<and>
    (total_before ls (quote_positions ma) < 2 ^ 128 \<and> total_after quote_value (quote_fee cr) cr < 2 ^ 128 \<longrightarrow>
       total_after quote_value (quote_fee cr) cr = total_before ls (quote_positions ma)) \<and>
    base_fee cr = permill_mul_ceil E maker_fee (matched_amount (last (users_mutation cr))) \<and>
    quote_fee cr = permill_mul_ceil E taker_fee (matched_volume (last (users_mutation cr)))"
proof -
  from assms obtain ask_delta bid_delta w tb tq mb mq dl bc qc
    where tk: "ask_taker s amount base quote ma dom_id ls ask_delta bid_delta = Inr (w, tb, tq)"
      and mk: "rfold (ask_maker s base quote dom_id ls) [0..<unat ma div 2] (0, 0, []) = Inr (mb, mq, dl)"
      and fee: "ask_fees E maker_fee taker_fee tb tq mb mq = Inr (bc, qc)"
      and cr: "cr = \<lparr>users_mutation = dl @ [taker_mutation w ma ls mq tb], base_fee = bc, quote_fee = qc\<rparr>"
    by (auto simp: verify_ask_limit_def ask_makers_def res_simps)
  note t = ask_taker_effect [OF tk] and m = ask_makers_effect [OF mk]
  from fee have bc: "mb + bc = tb" "bc = permill_mul_ceil E maker_fee tb"
    and qc: "mq = tq + qc" "qc = permill_mul_ceil E taker_fee mq"
    by (auto simp: ask_fees_def Let_def res_simps dest: checked_add_value)
  let ?nb = "new_sums ls (map (\<lambda>i. i * 2 + 1) [0..<unat ma div 2])"
  let ?ob = "old_sums ls (map (\<lambda>i. i * 2 + 1) [0..<unat ma div 2])"
  let ?nq = "new_sums ls (map (\<lambda>i. i * 2 + 2) [0..<unat ma div 2])"
  let ?oq = "old_sums ls (map (\<lambda>i. i * 2 + 2) [0..<unat ma div 2])"
  have base: "?nb + split_new_to_sum (ls ! (unat ma + 1)) + bc = ?ob + split_old_to_sum (ls ! (unat ma + 1))"
    by (rule fee_balance [OF _ _ bc(1)]) (use m t in simp_all)
  have quote: "?nq + split_new_to_sum (ls ! (unat ma + 2)) + qc = ?oq + split_old_to_sum (ls ! (unat ma + 2))"
    using fee_balance [OF _ _ qc(1) [symmetric], of "split_new_to_sum (ls ! (unat ma + 2))"
        "split_old_to_sum (ls ! (unat ma + 2))" ?oq ?nq] m t by (simp add: ac_simps)
  from m have bv: "map base_value dl = map (\<lambda>i. split_new_to_sum (ls ! (i * 2 + 1))) [0..<unat ma div 2]"
    and qv: "map quote_value dl = map (\<lambda>i. split_new_to_sum (ls ! (i * 2 + 2))) [0..<unat ma div 2]"
    by simp_all
  have c: "conserves cr ma ls" using base quote bv qv
    by (simp add: conserves_def cr base_positions_def quote_positions_def taker_mutation_def new_sums_def o_def)
  then have "total_before ls (base_positions ma) < 2 ^ 128 \<Longrightarrow> total_after base_value (base_fee cr) cr < 2 ^ 128 \<Longrightarrow>
      total_after base_value (base_fee cr) cr = total_before ls (base_positions ma)"
    "total_before ls (quote_positions ma) < 2 ^ 128 \<Longrightarrow> total_after quote_value (quote_fee cr) cr < 2 ^ 128 \<Longrightarrow>
      total_after quote_value (quote_fee cr) cr = total_before ls (quote_positions ma)"
    using conserves_exact [of cr ma ls] by simp_all
  with c show ?thesis using bc(2) qc(2) by (simp add: cr taker_mutation_def)
qed

theorem ask_limit_conserves_witness:
  "\<exists>cr. verify_ask_limit tok_env ask_state 20 1000 1000 2000 1 2 2 1 bob ask_leaves = Inr cr \<and>
     conserves cr 2 ask_leaves \<and> base_fee cr = 1 \<and> quote_fee cr = 4 \<and>
     total_after base_value (base_fee cr) cr = total_before ask_leaves (base_positions 2)"
proof -
  have "total_before ask_leaves (base_positions 2) = 5000" "unat (2 :: u8) = 2"
    by (simp_all add: total_before_def base_positions_def ask_leaves_def)
  then show ?thesis using ask_limit_conserves [OF ask_sample] ask_sample by (simp add: total_after_def)
qed

text \<open>
  C8: an accepted bid order conserves both currencies in the same sense, modulo \<open>2 ^ 128\<close> and exactly
  without overflow; the maker fee is taken from the quote and the taker fee from the base currency.
\<close>

theorem bid_limit_conserves:
  assumes "verify_bid_limit E s prc amount maker_fee taker_fee base quote ma pages dom_id ls = Inr cr"
  shows "conserves cr ma ls \<and>
    (total_before ls (base_positions ma) < 2 ^ 128 \<and> total_after base_value (base_fee cr) cr < 2 ^ 128 \<longrightarrow>
       total_after base_value (base_fee cr) cr = total_before ls (base_positions ma)) \<and>
    (total_before ls (quote_positions ma) < 2 ^ 128 \<and> total_after quote_value (quote_fee cr) cr < 2 ^ 128 \<longrightarrow>
       total_after quote_value (quote_fee cr) cr = total_before ls (quote_positions ma)) \<and>
    quote_fee cr = permill_mul_ceil E maker_fee (matched_volume (last (users_mutation cr))) \<and>
    base_fee cr = permill_mul_ceil E taker_fee (matched_amount (last (users_mutation cr)))"
proof -
  from assms obtain ask_delta bid_delta w tb tq mb mq dl bc qc
    where tk: "bid_taker s base quote ma dom_id ls = Inr (w, tb, tq)"
      and mk: "rfold (bid_maker s base quote dom_id ls) [0..<unat ma div 2] (0, 0, []) = Inr (mb, mq, dl)"
      and fee: "bid_fees E amount maker_fee taker_fee ask_delta bid_delta tb tq mb mq = Inr (bc, qc)"
      and cr: "cr = \<lparr>users_mutation = dl @ [taker_mutation w ma ls tq mb], base_fee = bc, quote_fee = qc\<rparr>"
    by (auto simp: verify_bid_limit_def bid_makers_def res_simps)
  note t = bid_taker_effect [OF tk] and m = bid_makers_effect [OF mk]
  from fee have bc: "tb + bc = mb" "bc = permill_mul_ceil E taker_fee mb"
    and qc: "mq + qc = tq" "qc = permill_mul_ceil E maker_fee tq"
    by (auto simp: bid_fees_def Let_def res_simps dest!: checked_add_value)
  let ?nb = "new_sums ls (map (\<lambda>i. i * 2 + 1) [0..<unat ma div 2])"
  let ?ob = "old_sums ls (map (\<lambda>i. i * 2 + 1) [0..<unat ma div 2])"
  let ?nq = "new_sums ls (map (\<lambda>i. i * 2 + 2) [0..<unat ma div 2])"
  let ?oq = "old_sums ls (map (\<lambda>i. i * 2 + 2) [0..<unat ma div 2])"
  have base: "?nb + split_new_to_sum (ls ! (unat ma + 1)) + bc = ?ob + split_old_to_sum (ls ! (unat ma + 1))"
    using fee_balance [OF _ _ bc(1), of "split_new_to_sum (ls ! (unat ma + 1))"
        "split_old_to_sum (ls ! (unat ma + 1))" ?ob ?nb] m t by (simp add: ac_simps)
  have quote: "?nq + split_new_to_sum (ls ! (unat ma + 2)) + qc = ?oq + split_old_to_sum (ls ! (unat ma + 2))"
    by (rule fee_balance [OF _ _ qc(1)]) (use m t in simp_all)
  from m have bv: "map base_value dl = map (\<lambda>i. split_new_to_sum (ls ! (i * 2 + 1))) [0..<unat ma div 2]"
    and qv: "map quote_value dl = map (\<lambda>i. split_new_to_sum (ls ! (i * 2 + 2))) [0..<unat ma div 2]"
    by simp_all
  have c: "conserves cr ma ls" using base quote bv qv
    by (simp add: conserves_def cr base_positions_def quote_positions_def taker_mutation_def new_sums_def o_def)
  then have "total_before ls (base_positions ma) < 2 ^ 128 \<Longrightarrow> total_after base_value (base_fee cr) cr < 2 ^ 128 \<Longrightarrow>
      total_after base_value (base_fee cr) cr = total_before ls (base_positions ma)"
    "total_before ls (quote_positions ma) < 2 ^ 128 \<Longrightarrow> total_after quote_value (quote_fee cr) cr < 2 ^ 128 \<Longrightarrow>
      total_after quote_value (quote_fee cr) cr = total_before ls (quote_positions ma)"
    using conserves_exact [of cr ma ls] by simp_all
  with c show ?thesis using bc(2) qc(2) by (simp add: cr taker_mutation_def)
qed

theorem bid_limit_conserves_witness:
  "\<exists>cr. verify_bid_limit tok_env bid_state 20 1000 1000 2000 1 2 2 1 bob bid_leaves = Inr cr \<and>
     conserves cr 2 bid_leaves \<and> base_fee cr = 2 \<and> quote_fee cr = 2"
  using bid_limit_conserves [OF bid_sample] bid_sample by simp

section \<open>Panics and wrap-around\<close>

definition no_panic :: "'a result \<Rightarrow> bool" where
  "no_panic r \<longleftrightarrow> r \<noteq> Inl Panicked"

lemma no_panic_simps [simp]: "no_panic (Inr x)" "no_panic (Inl e) \<longleftrightarrow> e \<noteq> Panicked"
  "no_panic (ok_or v e) \<longleftrightarrow> v = None \<longrightarrow> e \<noteq> Panicked"
  "no_panic (ensure c e r) \<longleftrightarrow> (c \<longrightarrow> no_panic r) \<and> (\<not> c \<longrightarrow> e \<noteq> Panicked)"
  "no_panic (index xs i) \<longleftrightarrow> i < length xs" "no_panic (last_unwrap xs) \<longleftrightarrow> xs \<noteq> []"
  by (cases v; auto simp: no_panic_def ensure_def index_def last_unwrap_def)+

lemma no_panic_rbind [simp]:
  "no_panic (rbind r k) \<longleftrightarrow> no_panic r \<and> (\<forall>x. r = Inr x \<longrightarrow> no_panic (k x))"
  by (cases r) (auto simp: no_panic_def)

lemma no_panic_rfold:
  assumes "\<And>x a. x \<in> set xs \<Longrightarrow> no_panic (f x a)"
  shows "no_panic (rfold f xs a)"
  using assms by (induction xs arbitrary: a) auto

lemma no_panic_getters [simp]:
  "no_panic (try_get_account l)" "no_panic (try_get_symbol l)" "no_panic (try_get_orderpage l)"
  by (simp_all add: try_get_account_def try_get_symbol_def try_get_orderpage_def)

lemma leaves_count_exact: "unat ma + unat pages < 252 \<Longrightarrow> leaves_count ma pages = 4 + unat ma + unat pages"
  by (simp add: leaves_count_def unat_word_ariths)

lemma ask_parts_no_panic:
  assumes "length ls = 4 + unat ma + unat pages"
  shows "no_panic (ask_header base quote ma pages ls)" "no_panic (ask_taker s amount base quote ma dom_id ls ad bd)"
    "no_panic (ask_makers s base quote ma dom_id ls)" "no_panic (ask_fees E mf tf tb tq mb mq)"
    "no_panic (ask_pages prc amount base quote ma pages ls ad bd tb)"
proof -
  have ne: "ls \<noteq> []" using assms by auto
  show "no_panic (ask_header base quote ma pages ls)" "no_panic (ask_fees E mf tf tb tq mb mq)"
    using ne by (cases ls; auto simp: ask_header_def ask_fees_def Let_def split: prod.splits)+
  show "no_panic (ask_taker s amount base quote ma dom_id ls ad bd)"
    using assms by (auto simp: ask_taker_def Let_def split: prod.splits)
  show "no_panic (ask_makers s base quote ma dom_id ls)"
    unfolding ask_makers_def
    by (rule no_panic_rfold) (auto simp: ask_maker_def assms Let_def split: prod.splits)
  have pg: "no_panic (rfold (ask_page base quote ma ls) [0..<unat pages - 1] a)" for a
    by (rule no_panic_rfold) (auto simp: ask_page_def assms split: prod.splits)
  have "no_panic (ask_traded prc amount base quote ma pages ls best ad tb)" for best
    using ne pg by (auto simp: ask_traded_def Let_def split: prod.splits)
  moreover have "no_panic (ask_untraded amount base quote ls best ad)" for best
    using ne by (auto simp: ask_untraded_def Let_def split: prod.splits)
  ultimately show "no_panic (ask_pages prc amount base quote ma pages ls ad bd tb)"
    using assms by (auto simp: ask_pages_def)
qed

lemma bid_parts_no_panic:
  assumes "length ls = 4 + unat ma + unat pages"
  shows "no_panic (bid_header ma pages ls)" "no_panic (bid_taker s base quote ma dom_id ls)"
    "no_panic (bid_makers s base quote ma dom_id ls)" "no_panic (bid_fees E amount mf tf ad bd tb tq mb mq)"
    "no_panic (bid_taker_values ma ls)" "no_panic (bid_pages prc amount base quote ma pages ls ad bd tb bc)"
proof -
  have ne: "ls \<noteq> []" using assms by auto
  show "no_panic (bid_header ma pages ls)" "no_panic (bid_fees E amount mf tf ad bd tb tq mb mq)"
    "no_panic (bid_taker_values ma ls)"
    using ne by (cases ls; auto simp: bid_header_def bid_fees_def bid_taker_values_def Let_def split: prod.splits)+
  show "no_panic (bid_taker s base quote ma dom_id ls)"
    using assms by (auto simp: bid_taker_def Let_def split: prod.splits)
  show "no_panic (bid_makers s base quote ma dom_id ls)"
    unfolding bid_makers_def
    by (rule no_panic_rfold) (auto simp: bid_maker_def assms Let_def split: prod.splits)
  have pg: "no_panic (rfold (bid_page base quote ma ls) [0..<unat pages - 1] a)" for a
    by (rule no_panic_rfold) (auto simp: bid_page_def assms split: prod.splits)
  have "no_panic (bid_traded prc amount base quote ma pages ls best bd tb bc)" for best
    using ne pg by (auto simp: bid_traded_def bid_partial_def bid_filled_def Let_def split: prod.splits)
  moreover have "no_panic (bid_untraded prc amount base quote ls best bd)" for best
    using ne by (auto simp: bid_untraded_def Let_def split: prod.splits)
  ultimately show "no_panic (bid_pages prc amount base quote ma pages ls ad bd tb bc)"
    using assms by (auto simp: bid_pages_def)
qed

text \<open>
  C30: as long as the numbers of maker accounts and of pages add up to less than 252, no order proof
  makes the verifier panic, whatever its leaves are.
\<close>

theorem order_checks_never_panic:
  assumes "unat ma + unat pages < 252"
  shows "verify_ask_limit E s prc amount mf tf base quote ma pages dom_id ls \<noteq> Inl Panicked \<and>
    verify_bid_limit E s prc amount mf tf base quote ma pages dom_id ls \<noteq> Inl Panicked"
proof (cases "length ls = 4 + unat ma + unat pages")
  case False
  with leaves_count_exact [OF assms] show ?thesis
    by (simp add: verify_ask_limit_def verify_bid_limit_def ask_header_def bid_header_def)
next
  case True
  note parts = ask_parts_no_panic [OF True] bid_parts_no_panic [OF True]
  have "no_panic (verify_ask_limit E s prc amount mf tf base quote ma pages dom_id ls)"
    "no_panic (verify_bid_limit E s prc amount mf tf base quote ma pages dom_id ls)"
    unfolding verify_ask_limit_def verify_bid_limit_def by (simp_all add: parts split: prod.splits)
  then show ?thesis by (simp add: no_panic_def)
qed

theorem order_checks_never_panic_witness:
  "unat (2 :: u8) + unat (1 :: u8) < 252 \<and>
   verify_ask_limit tok_env ask_state 20 1000 1000 2000 1 2 2 1 bob [] \<noteq> Inl Panicked"
  using order_checks_never_panic [of 2 1 tok_env ask_state 20 1000 1000 2000 1 2 bob "[]"] by simp

text \<open>
  Beyond that bound the leaf count wraps around in eight bits: a proof with 252 maker accounts
  and no leaf at all passes the count and panics on the first index.
\<close>

theorem leaf_count_wraps:
  "verify_ask_limit E s prc amount mf tf base quote 252 0 dom_id [] = Inl Panicked \<and>
   verify_bid_limit E s prc amount mf tf base quote 252 0 dom_id [] = Inl Panicked"
proof -
  have "(252 :: u8) mod 2 = 0" by (simp add: word_mod_def)
  then show ?thesis
    by (simp add: verify_ask_limit_def verify_bid_limit_def ask_header_def bid_header_def leaves_count_def index_def)
qed

section \<open>Sums that overflow\<close>

text \<open>
  An order of amount zero whose two makers \<open>m\<close> and \<open>n\<close> hold nothing before it and \<open>x\<close> and \<open>- x\<close> units of the
  base currency after it. Their sum is zero in 128 bits, so that the check accepts it.
\<close>

definition inflation_leaves :: "u32 \<Rightarrow> u32 \<Rightarrow> account \<Rightarrow> account \<Rightarrow> account \<Rightarrow> u128 \<Rightarrow> merkle_leaf list" where
  "inflation_leaves base quote m n w x =
     [mk_leaf (symbol_key 1 base quote) (0, 0) (0, 0),
      mk_leaf (account_key base m) (0, 0) (x, 0), mk_leaf (account_key quote m) (0, 0) (0, 0),
      mk_leaf (account_key base n) (0, 0) (- x, 0), mk_leaf (account_key quote n) (0, 0) (0, 0),
      mk_leaf (account_key base w) (0, 0) (0, 0), mk_leaf (account_key quote w) (0, 0) (0, 0),
      mk_leaf (symbol_key 2 base quote) (0, 0) (0, 0)]"

definition inflation_result :: "account \<Rightarrow> account \<Rightarrow> account \<Rightarrow> u128 \<Rightarrow> clearing_result" where
  "inflation_result m n w x = \<lparr>users_mutation =
     [\<lparr>tm_who = m, matched_volume = 0, matched_amount = x, base_value = x, quote_value = 0\<rparr>,
      \<lparr>tm_who = n, matched_volume = 0, matched_amount = - x, base_value = - x, quote_value = 0\<rparr>,
      \<lparr>tm_who = w, matched_volume = 0, matched_amount = 0, base_value = 0, quote_value = 0\<rparr>],
     base_fee = 0, quote_fee = 0\<rparr>"

lemma inflation_accepted:
  assumes "permill_mul_ceil E mf 0 = 0" "permill_mul_ceil E tf 0 = 0" "length m = 32" "length n = 32" "length w = 32"
    and fresh: "\<forall>u \<in> {m, n, w}. \<forall>t \<in> {base, quote}. Reserves s ((RESERVE_FOR_AUTHORIZING, u, t), d) = None"
  shows "verify_ask_limit E s prc 0 mf tf base quote 4 0 d (inflation_leaves base quote m n w x) = Inr (inflation_result m n w x)"
proof -
  let ?ls = "inflation_leaves base quote m n w x"
  have r: "has_authorized_exactly_on s u t 0 d" if "u \<in> {m, n, w}" "t \<in> {base, quote}" for u t
    using fresh that by (auto simp: has_authorized_exactly_on_def get_reserve_def)
  have h: "ask_header base quote 4 0 ?ls = Inr (0, 0)"
    by (simp add: ask_header_def leaves_count_def inflation_leaves_def index_def word_mod_def)
  have t: "ask_taker s 0 base quote 4 d ?ls 0 0 = Inr (w, 0, 0)"
    using assms(5) r by (simp add: ask_taker_def inflation_leaves_def index_def checked_add_def checked_sub_def)
  have mk: "ask_makers s base quote 4 d ?ls = Inr (0, 0, butlast (users_mutation (inflation_result m n w x)))"
    using assms(3,4) r
    by (simp add: ask_makers_def ask_maker_def inflation_leaves_def inflation_result_def index_def upt_rec Let_def)
  have f: "ask_fees E mf tf 0 0 0 0 = Inr (0, 0)"
    using assms(1,2) by (simp add: ask_fees_def checked_add_def)
  have p: "ask_pages prc 0 base quote 4 0 ?ls 0 0 0 = Inr ()"
    by (simp add: ask_pages_def ask_untraded_def inflation_leaves_def index_def)
  show ?thesis
    by (simp add: verify_ask_limit_def h t mk f p taker_mutation_def) (simp add: inflation_leaves_def inflation_result_def)
qed

end
