(* ===== verification/Fuso_Verifier.thy ===== *)
theory Fuso_Verifier
  imports Fuso_Matching
begin

text \<open>
  The operations of the verifier pallet (\<^verbatim>\<open>pallet-fuso-verifier/src/lib.rs\<close>): reserves, staking and
  the shares of a season's profit, authorisations, the verification of batches of proofs, the
  calls and the block hook.

  A transactional function that fails leaves the storage as it was; since a failure carries no
  state here, that is what every definition says. The dispatch of a callback is the argument
  \<open>disp\<close>: it stands for the runtime's dispatcher, which rolls a failing call back.
\<close>

section \<open>Reserves\<close>

text \<open>\<open>reserve\<close> and \<open>unreserve\<close> of the pallet: the asset is reserved in the token pallet and the
  purpose is recorded in \<open>Reserves\<close>.\<close>

definition reserve ::
  "('b, 'x) verifier_env_scheme \<Rightarrow> u8 \<Rightarrow> account \<Rightarrow> token_id \<Rightarrow> u128 \<Rightarrow> account
    \<Rightarrow> ('b, 'c, 'z) verifier_chain_scheme \<Rightarrow> ('b, 'c, 'z) verifier_chain_scheme result" where
  "reserve E reserve_id fund_owner token value dest s =
     (if value = 0 then Inr s
      else let k = ((reserve_id, fund_owner, token), dest)
           in rbind (token_reserve E token fund_owner value s) (\<lambda>s1.
              rbind (ok_or (checked_add (get_reserve s k) value) (VerifierE vrf_err.Overflow)) (\<lambda>v.
                Inr (put_reserve k (Some v) s1))))"

definition unreserve ::
  "('b, 'x) verifier_env_scheme \<Rightarrow> u8 \<Rightarrow> account \<Rightarrow> token_id \<Rightarrow> u128 \<Rightarrow> account
    \<Rightarrow> ('b, 'c, 'z) verifier_chain_scheme \<Rightarrow> ('b, 'c, 'z) verifier_chain_scheme result" where
  "unreserve E reserve_id fund_owner token value source s =
     (if value = 0 then Inr s
      else let k = ((reserve_id, fund_owner, token), source)
           in rbind (token_unreserve E token fund_owner value s) (\<lambda>s1.
              rbind (ok_or (Reserves s k) (VerifierE vrf_err.InsufficientBalance)) (\<lambda>r.
              rbind (ok_or (checked_sub r value) (VerifierE vrf_err.InsufficientBalance)) (\<lambda>r'.
                Inr (put_reserve k (if r' > 0 then Some r' else None) s1)))))"

text \<open>\<open>clear\<close> sets the authorised amount to the balance that the proof shows, and moves the reserved
  balance of the token pallet along; the difference is capped at zero from below.\<close>

definition clear ::
  "('b, 'x) verifier_env_scheme \<Rightarrow> account \<Rightarrow> account \<Rightarrow> token_id \<Rightarrow> u128
    \<Rightarrow> ('b, 'c, 'z) verifier_chain_scheme \<Rightarrow> ('b, 'c, 'z) verifier_chain_scheme result" where
  "clear E who dom_id token bal s =
     (let k = ((RESERVE_FOR_AUTHORIZING, who, token), dom_id);
          r = get_reserve s k
      in rbind (try_mutate_account E token who (\<lambda>b s1.
                  let left = (case checked_sub (snd b) r of None \<Rightarrow> 0 | Some v \<Rightarrow> v)
                  in rbind (ok_or (checked_add left bal) (VerifierE vrf_err.Overflow)) (\<lambda>v.
                       Inr ((fst b, v), s1))) s) (\<lambda>s1.
         Inr (put_reserve k (Some bal) s1)))"

section \<open>Seasons and shares\<close>

definition current_season :: "('b, 'x) verifier_env_scheme \<Rightarrow> u32 \<Rightarrow> u32 \<Rightarrow> u32 result" where
  "current_season E now claim_at =
     (if now \<le> claim_at then Inr 0 else div_u32 (now - claim_at) (SeasonDuration E))"

definition start_block_of_season :: "('b, 'x) verifier_env_scheme \<Rightarrow> u32 \<Rightarrow> u32 \<Rightarrow> u32" where
  "start_block_of_season E claim_at season = claim_at + season * SeasonDuration E"

text \<open>The range \<open>from..to\<close> of seasons.\<close>

definition seasons :: "u32 \<Rightarrow> u32 \<Rightarrow> u32 list" where
  "seasons a b = map word_of_nat [unat a..<unat b]"

definition season_shares ::
  "('b, 'x) verifier_env_scheme \<Rightarrow> u128 \<Rightarrow> bonus \<Rightarrow> (token_id \<times> u128) list \<Rightarrow> (token_id \<times> u128) list" where
  "season_shares E stk b shares =
     (if b_staked b = 0 \<or> b_profit b = [] then shares
      else let r = perquintill_from_rational E stk (b_staked b)
           in fold (\<lambda>(tid, profit) m.
                btree_entry tid (\<lambda>share. share + perquintill_mul E r profit) (perquintill_mul E r profit) m)
              (b_profit b) shares)"

definition all_shares ::
  "('b, 'x) verifier_env_scheme \<Rightarrow> ('b, 'c, 'z) verifier_chain_scheme \<Rightarrow> account \<Rightarrow> distribution
    \<Rightarrow> (token_id \<times> u128) list" where
  "all_shares E s dom_id d =
     fold (\<lambda>season m. season_shares E (dist_staking d) (Bonuses s (dom_id, season)) m)
       (seasons (dist_from d) (dist_to d)) []"

definition pay_share ::
  "('b, 'x) verifier_env_scheme \<Rightarrow> account \<Rightarrow> token_id \<times> u128
    \<Rightarrow> ('b, 'c, 'z) verifier_chain_scheme \<Rightarrow> ('b, 'c, 'z) verifier_chain_scheme result" where
  "pay_share E staker p s =
     try_mutate_account E (fst p) staker (\<lambda>b s1. Inr ((fst b + snd p, snd b), s1)) s"

definition take_shares ::
  "('b, 'x) verifier_env_scheme \<Rightarrow> account \<Rightarrow> account \<Rightarrow> distribution
    \<Rightarrow> ('b, 'c, 'z) verifier_chain_scheme \<Rightarrow> (u32 \<times> ('b, 'c, 'z) verifier_chain_scheme) result" where
  "take_shares E staker dom_id d s =
     (if dist_to d = dist_from d then Inr (dist_from d, s)
      else rbind (rfold (pay_share E staker) (all_shares E s dom_id d) s) (\<lambda>s1. Inr (dist_to d, s1)))"

definition put_profit ::
  "account \<Rightarrow> u32 \<Rightarrow> token_id \<Rightarrow> u128 \<Rightarrow> ('b, 'c, 'z) verifier_chain_scheme
    \<Rightarrow> ('b, 'c, 'z) verifier_chain_scheme" where
  "put_profit dom_id season currency bal s =
     (if bal = 0 then s
      else let b = Bonuses s (dom_id, season);
               b' = b\<lparr>b_profit := btree_entry currency (\<lambda>p. p + bal) bal (b_profit b)\<rparr>
           in s\<lparr>Bonuses := (Bonuses s)((dom_id, season) := b')\<rparr>)"

definition current_season_of_dominator ::
  "('b, 'x) verifier_env_scheme \<Rightarrow> ('b, 'c, 'z) verifier_chain_scheme \<Rightarrow> account \<Rightarrow> u32 result" where
  "current_season_of_dominator E s dom_id =
     current_season E (block_number s)
       (case get_dominator s dom_id of None \<Rightarrow> 0 | Some d \<Rightarrow> d_start_from d)"

text \<open>The sum runs over all tokens alike, as in the code.\<close>

definition pending_shares_of_dominator ::
  "('b, 'x) verifier_env_scheme \<Rightarrow> ('b, 'c, 'z) verifier_chain_scheme \<Rightarrow> account \<Rightarrow> account \<Rightarrow> u128 result" where
  "pending_shares_of_dominator E s dom_id who =
     (let start = (case get_dominator s dom_id of None \<Rightarrow> 0 | Some d \<Rightarrow> d_start_from d)
      in if start = 0 then Inr 0
         else rbind (current_season E (block_number s) start) (\<lambda>now.
              let stk = get_staking s (dom_id, who)
              in if stk_amount stk = 0 then Inr 0
                 else Inr (fold (\<lambda>season shares.
                        let b = Bonuses s (dom_id, season)
                        in if b_staked b = 0 \<or> b_profit b = [] then shares
                           else let r = perquintill_from_rational E (stk_amount stk) (b_staked b)
                                in fold (\<lambda>p sh. sh + perquintill_mul E r (snd p)) (b_profit b) shares)
                      (seasons (from_season stk) now) 0)))"

section \<open>Staking\<close>

definition online_status :: "('b, 'x) verifier_env_scheme \<Rightarrow> u128 \<Rightarrow> u8" where
  "online_status E total_staked =
     (if total_staked \<ge> DominatorOnlineThreshold E then DOMINATOR_ACTIVE else DOMINATOR_INACTIVE)"

text \<open>The closure over the staker's entry in \<open>stake_on\<close>.\<close>

definition stake_entry ::
  "('b, 'x) verifier_env_scheme \<Rightarrow> account \<Rightarrow> account \<Rightarrow> u128 \<Rightarrow> dominator
    \<Rightarrow> ('b, 'c, 'z) verifier_chain_scheme \<Rightarrow> ('b, 'c, 'z) verifier_chain_scheme result" where
  "stake_entry E staker dom_id amount d s =
     (let stk = get_staking s (dom_id, staker)
      in rbind (reserve E RESERVE_FOR_STAKING staker (native_token_id E) amount dom_id s) (\<lambda>s1.
         rbind (current_season E (block_number s) (d_start_from d)) (\<lambda>now.
         rbind (if stk_amount stk \<noteq> 0
                then take_shares E staker dom_id
                       \<lparr>dist_from = from_season stk, dist_to = now, dist_staking = stk_amount stk\<rparr> s1
                else Inr (now, s1)) (\<lambda>(_, s2).
           Inr (put_staking (dom_id, staker)
                  (Some \<lparr>from_season = now, stk_amount = stk_amount stk + amount\<rparr>) s2)))))"

definition stake_on ::
  "('b, 'x) verifier_env_scheme \<Rightarrow> account \<Rightarrow> account \<Rightarrow> u128
    \<Rightarrow> ('b, 'c, 'z) verifier_chain_scheme \<Rightarrow> ('b, 'c, 'z) verifier_chain_scheme result" where
  "stake_on E staker dom_id amount s =
     ensure (amount \<ge> MinimalStakingAmount E) (VerifierE vrf_err.LittleStakingAmount) (
     rbind (ok_or (get_dominator s dom_id) (VerifierE vrf_err.DominatorNotFound)) (\<lambda>d.
     ensure (d_status d = DOMINATOR_ACTIVE \<or> d_status d = DOMINATOR_INACTIVE)
       (VerifierE vrf_err.DominatorStatusInvalid) (
     rbind (stake_entry E staker dom_id amount d s) (\<lambda>s1.
       let d' = d\<lparr>d_staked := d_staked d + amount, d_status := online_status E (d_staked d + amount)\<rparr>;
           s2 = deposit_event (VerifierEv (TaoStaked staker dom_id amount)) s1;
           s3 = (if d_status d' = DOMINATOR_ACTIVE \<and> d_status d = DOMINATOR_INACTIVE
                 then deposit_event (VerifierEv (DominatorOnline dom_id)) s2 else s2)
       in Inr (put_dominator dom_id d' s3)))))"

definition add_pending ::
  "u32 \<Rightarrow> account \<Rightarrow> u128 \<Rightarrow> ('b, 'c, 'z) verifier_chain_scheme
    \<Rightarrow> ('b, 'c, 'z) verifier_chain_scheme result" where
  "add_pending at staker amount s =
     (let m = PendingUnstakings s at;
          v = (case map_of m staker of None \<Rightarrow> 0 | Some x \<Rightarrow> x)
      in rbind (ok_or (checked_add v amount) (VerifierE vrf_err.Overflow)) (\<lambda>v'.
           Inr (s\<lparr>PendingUnstakings := (PendingUnstakings s)(at := AList.update staker v' m)\<rparr>)))"

text \<open>The closure over the staker's entry in \<open>unstake_from\<close>.\<close>

definition unstake_entry ::
  "('b, 'x) verifier_env_scheme \<Rightarrow> account \<Rightarrow> account \<Rightarrow> u128 \<Rightarrow> dominator
    \<Rightarrow> ('b, 'c, 'z) verifier_chain_scheme \<Rightarrow> ('b, 'c, 'z) verifier_chain_scheme result" where
  "unstake_entry E staker dom_id amount d s =
     rbind (ok_or (Stakings s (dom_id, staker)) (VerifierE vrf_err.InvalidStaking)) (\<lambda>stk.
     rbind (ok_or (checked_sub (stk_amount stk) amount) (VerifierE vrf_err.InsufficientBalance)) (\<lambda>remain.
     ensure (remain = 0 \<or> remain \<ge> MinimalStakingAmount E) (VerifierE vrf_err.LittleStakingAmount) (
     rbind (unreserve E RESERVE_FOR_STAKING staker (native_token_id E) amount dom_id s) (\<lambda>s1.
     rbind (reserve E RESERVE_FOR_PENDING_UNSTAKE staker (native_token_id E) amount (system_account E) s1) (\<lambda>s2.
     rbind (current_season E (block_number s) (d_start_from d)) (\<lambda>now.
     rbind (rem_u32 (block_number s) (DominatorCheckGracePeriod E)) (\<lambda>m.
     rbind (add_pending (block_number s - m + UNSTAKE_DELAY_BLOCKS) staker amount s2) (\<lambda>s3.
     rbind (take_shares E staker dom_id
              \<lparr>dist_from = from_season stk, dist_to = now, dist_staking = stk_amount stk\<rparr> s3) (\<lambda>(_, s4).
       Inr (put_staking (dom_id, staker)
              (if remain \<noteq> 0 then Some \<lparr>from_season = now, stk_amount = remain\<rparr> else None) s4))))))))))"

definition unstake_from ::
  "('b, 'x) verifier_env_scheme \<Rightarrow> account \<Rightarrow> account \<Rightarrow> u128
    \<Rightarrow> ('b, 'c, 'z) verifier_chain_scheme \<Rightarrow> ('b, 'c, 'z) verifier_chain_scheme result" where
  "unstake_from E staker dom_id amount s =
     rbind (ok_or (get_dominator s dom_id) (VerifierE vrf_err.DominatorNotFound)) (\<lambda>d.
     ensure (d_status d \<noteq> DOMINATOR_REGISTERED) (VerifierE vrf_err.DominatorStatusInvalid) (
     rbind (ok_or (checked_sub (d_staked d) amount) (VerifierE vrf_err.InsufficientBalance)) (\<lambda>total_staking.
     rbind (unstake_entry E staker dom_id amount d s) (\<lambda>s1.
       let d' = d\<lparr>d_staked := total_staking,
                  d_status := (if d_status d \<noteq> DOMINATOR_EVICTED then online_status E total_staking
                               else d_status d)\<rparr>;
           s2 = deposit_event (VerifierEv (TaoUnstaked staker dom_id amount)) s1;
           s3 = (if d_status d' = DOMINATOR_INACTIVE \<and> d_status d = DOMINATOR_ACTIVE
                 then deposit_event (VerifierEv (DominatorOffline dom_id)) s2 else s2)
       in Inr (put_dominator dom_id d' s3)))))"

section \<open>Authorisations\<close>

definition authorize_to ::
  "('b, 'x) verifier_env_scheme \<Rightarrow> account \<Rightarrow> account \<Rightarrow> token_id \<Rightarrow> u128
    \<Rightarrow> ('b, 'c, 'z) verifier_chain_scheme \<Rightarrow> ('b, 'c, 'z) verifier_chain_scheme result" where
  "authorize_to E fund_owner dex tid amount s =
     rbind (ok_or (get_dominator s dex) (VerifierE vrf_err.DominatorNotFound)) (\<lambda>d.
     ensure (d_status d = DOMINATOR_ACTIVE) (VerifierE vrf_err.DominatorInactive) (
     ensure (Receipts s (dex, fund_owner) = None) (VerifierE vrf_err.ReceiptAlreadyExists) (
     ensure (can_reserve E s tid fund_owner amount) (VerifierE vrf_err.InsufficientBalance) (
     rbind (reserve E RESERVE_FOR_AUTHORIZING_STASH fund_owner tid amount dex s) (\<lambda>s1.
       Inr (deposit_event (VerifierEv (TokenHosted fund_owner dex tid amount))
              (put_receipt (dex, fund_owner) (Some (Authorize tid amount (block_number s))) s1)))))))"

text \<open>Revoking from an evicted dominator: the stash is merged into the authorised amount first.\<close>

definition merge_stash ::
  "account \<Rightarrow> token_id \<Rightarrow> account \<Rightarrow> ('b, 'c, 'z) verifier_chain_scheme
    \<Rightarrow> ('b, 'c, 'z) verifier_chain_scheme result" where
  "merge_stash fund_owner tid dom_id s =
     (let ks = ((RESERVE_FOR_AUTHORIZING_STASH, fund_owner, tid), dom_id);
          ka = ((RESERVE_FOR_AUTHORIZING, fund_owner, tid), dom_id);
          av = get_reserve s ks
      in if av > 0
         then rbind (ok_or (checked_add (get_reserve s ka) av) (VerifierE vrf_err.Overflow)) (\<lambda>v.
                Inr (put_reserve ks None (put_reserve ka (Some v) s)))
         else Inr (put_reserve ks None s))"

definition revoke_from ::
  "('b, 'x) verifier_env_scheme \<Rightarrow> account \<Rightarrow> account \<Rightarrow> token_id \<Rightarrow> u128 \<Rightarrow> 'c option
    \<Rightarrow> ('b, 'c, 'z) verifier_chain_scheme \<Rightarrow> ('b, 'c, 'z) verifier_chain_scheme result" where
  "revoke_from E fund_owner dom_id tid amount callback s =
     ensure (has_authorized_morethan s fund_owner tid amount dom_id) (VerifierE vrf_err.InsufficientBalance) (
     rbind (ok_or (get_dominator s dom_id) (VerifierE vrf_err.DominatorNotFound)) (\<lambda>d.
     ensure (d_status d \<noteq> DOMINATOR_REGISTERED) (VerifierE vrf_err.DominatorStatusInvalid) (
     rbind (if d_status d = DOMINATOR_EVICTED
            then rbind (merge_stash fund_owner tid dom_id s) (\<lambda>s1.
                 rbind (unreserve E RESERVE_FOR_AUTHORIZING fund_owner tid amount dom_id s1) (\<lambda>s2.
                   Inr (put_receipt (dom_id, fund_owner) None s2)))
            else ensure (Receipts s (dom_id, fund_owner) = None) (VerifierE vrf_err.ReceiptAlreadyExists) (
                 let receipt = (case callback of
                       Some cb \<Rightarrow> RevokeWithCallback tid amount (block_number s) cb
                     | None \<Rightarrow> Revoke tid amount (block_number s))
                 in Inr (put_receipt (dom_id, fund_owner) (Some receipt) s))) (\<lambda>s3.
       Inr (deposit_event (VerifierEv (TokenRevoked fund_owner dom_id tid amount)) s3)))))"

section \<open>Verification of proofs\<close>

text \<open>The compiled Merkle proof must take the old leaves to the known root and the new leaves to the
  root of the proof.\<close>

definition check_merkle ::
  "('b, 'x) verifier_env_scheme \<Rightarrow> merkle_hash \<Rightarrow> proof_rec \<Rightarrow> unit result" where
  "check_merkle E known_root p =
     (let old = map (\<lambda>l. (blake2_256 E (l_key l), old_v l)) (leaves p);
          new = map (\<lambda>l. (blake2_256 E (l_key l), new_v l)) (leaves p)
      in rbind (ok_or (smt_verify E (merkle_proof p) known_root old) unsatisfied) (\<lambda>r.
         ensure r unsatisfied (
         rbind (ok_or (smt_verify E (merkle_proof p) (proof_root p) new) unsatisfied) (\<lambda>r'.
         ensure r' unsatisfied (Inr ())))))"

definition clear_user ::
  "('b, 'x) verifier_env_scheme \<Rightarrow> account \<Rightarrow> u32 \<Rightarrow> u32 \<Rightarrow> token_mutation
    \<Rightarrow> ('b, 'c, 'z) verifier_chain_scheme \<Rightarrow> ('b, 'c, 'z) verifier_chain_scheme result" where
  "clear_user E dom_id base quote d s =
     rbind (clear E (tm_who d) dom_id base (base_value d) s) (\<lambda>s1.
     rbind (clear E (tm_who d) dom_id quote (quote_value d) s1) (\<lambda>s2.
       save_trading E (tm_who d) (matched_volume d) (block_number s) s2))"

text \<open>The settlement that ask and bid orders share: clear every user, record the trade, put the fees.\<close>

definition settle ::
  "('b, 'x) verifier_env_scheme \<Rightarrow> account \<Rightarrow> u32 \<Rightarrow> u32 \<Rightarrow> u32 \<Rightarrow> clearing_result \<Rightarrow> trade
    \<Rightarrow> ('b, 'c, 'z) verifier_chain_scheme \<Rightarrow> (trade \<times> ('b, 'c, 'z) verifier_chain_scheme) result" where
  "settle E dom_id season base quote cr tr s =
     rbind (if length (users_mutation cr) > 1
            then rbind (rfold (clear_user E dom_id base quote) (users_mutation cr) s) (\<lambda>s1.
                   let t = last (users_mutation cr)
                   in Inr (tr\<lparr>trade_token := base, trade_amount := trade_amount tr + matched_amount t,
                              trade_vol := trade_vol tr + matched_volume t\<rparr>, s1))
            else Inr (tr, s)) (\<lambda>(tr', s2).
     let s3 = put_profit dom_id season quote (quote_fee cr) s2
     in rbind (if base_fee cr \<noteq> 0
               then try_mutate_account E base dom_id (\<lambda>b s. Inr ((fst b + base_fee cr, snd b), s)) s3
               else Inr s3) (\<lambda>s4. Inr (tr', s4)))"

fun revoke_matches :: "u32 \<Rightarrow> u128 \<Rightarrow> 'c receipt \<Rightarrow> bool" where
  "revoke_matches currency amount (Revoke tid value _) \<longleftrightarrow> tid = currency \<and> value = amount"
| "revoke_matches currency amount (RevokeWithCallback tid value _ _) \<longleftrightarrow> tid = currency \<and> value = amount"
| "revoke_matches currency amount (Authorize _ _ _) \<longleftrightarrow> False"

fun authorize_matches :: "u32 \<Rightarrow> u128 \<Rightarrow> 'c receipt \<Rightarrow> bool" where
  "authorize_matches currency amount (Authorize tid value _) \<longleftrightarrow> tid = currency \<and> value = amount"
| "authorize_matches currency amount (Revoke _ _ _) \<longleftrightarrow> False"
| "authorize_matches currency amount (RevokeWithCallback _ _ _ _) \<longleftrightarrow> False"

definition handle_transfer_out ::
  "('b, 'x) verifier_env_scheme
    \<Rightarrow> ('c \<Rightarrow> account \<Rightarrow> ('b, 'c, 'z) verifier_chain_scheme \<Rightarrow> ('b, 'c, 'z) verifier_chain_scheme result)
    \<Rightarrow> account \<Rightarrow> u32 \<Rightarrow> u128 \<Rightarrow> proof_rec \<Rightarrow> ('b, 'c, 'z) verifier_chain_scheme
    \<Rightarrow> ('b, 'c, 'z) verifier_chain_scheme result" where
  "handle_transfer_out E disp dom_id currency amount p s =
     rbind (ok_or (Receipts s (dom_id, user_id p)) (VerifierE vrf_err.ReceiptNotExists)) (\<lambda>r.
     ensure (revoke_matches currency amount r) (VerifierE vrf_err.ReceiptNotExists) (
     rbind (verify_transfer_out currency amount (user_id p) (leaves p)) (\<lambda>_.
     rbind (unreserve E RESERVE_FOR_AUTHORIZING (user_id p) currency amount dom_id s) (\<lambda>s1.
     let s2 = put_receipt (dom_id, user_id p) None s1
     in case r of RevokeWithCallback _ _ _ cb \<Rightarrow> caught (disp cb (user_id p) s2) s2 | _ \<Rightarrow> Inr s2))))"

text \<open>The stash entry is removed as a whole, the authorised amount grows by the amount of the proof.\<close>

definition handle_transfer_in ::
  "account \<Rightarrow> u32 \<Rightarrow> u128 \<Rightarrow> proof_rec \<Rightarrow> ('b, 'c, 'z) verifier_chain_scheme
    \<Rightarrow> ('b, 'c, 'z) verifier_chain_scheme result" where
  "handle_transfer_in dom_id currency amount p s =
     rbind (ok_or (Receipts s (dom_id, user_id p)) (VerifierE vrf_err.ReceiptNotExists)) (\<lambda>r.
     ensure (authorize_matches currency amount r) (VerifierE vrf_err.ReceiptNotExists) (
     rbind (verify_transfer_in currency amount (user_id p) (leaves p)) (\<lambda>_.
     let ka = ((RESERVE_FOR_AUTHORIZING, user_id p, currency), dom_id);
         s1 = put_reserve ((RESERVE_FOR_AUTHORIZING_STASH, user_id p, currency), dom_id) None s
     in rbind (ok_or (checked_add (get_reserve s1 ka) amount) (VerifierE vrf_err.Overflow)) (\<lambda>v.
          Inr (put_receipt (dom_id, user_id p) None (put_reserve ka (Some v) s1))))))"

definition handle_reject_transfer_out ::
  "account \<Rightarrow> u32 \<Rightarrow> u128 \<Rightarrow> proof_rec \<Rightarrow> ('b, 'c, 'z) verifier_chain_scheme
    \<Rightarrow> ('b, 'c, 'z) verifier_chain_scheme result" where
  "handle_reject_transfer_out dom_id currency amount p s =
     rbind (ok_or (Receipts s (dom_id, user_id p)) (VerifierE vrf_err.ReceiptNotExists)) (\<lambda>r.
     ensure (revoke_matches currency amount r) (VerifierE vrf_err.ReceiptNotExists) (
     rbind (verify_reject_transfer_out currency amount (user_id p) (leaves p)) (\<lambda>_.
       Inr (put_receipt (dom_id, user_id p) None s))))"

definition handle_reject_transfer_in ::
  "account \<Rightarrow> proof_rec \<Rightarrow> ('b, 'c, 'z) verifier_chain_scheme \<Rightarrow> ('b, 'c, 'z) verifier_chain_scheme result" where
  "handle_reject_transfer_in dom_id p s =
     (case Receipts s (dom_id, user_id p) of
        None \<Rightarrow> Inr s
      | Some (Authorize _ _ _) \<Rightarrow> Inr (put_receipt (dom_id, user_id p) None s)
      | Some _ \<Rightarrow> Inl (VerifierE vrf_err.ReceiptNotExists))"

text \<open>The last step of an accepted proof: the dominator's root and sequence move on.\<close>

definition step_forward ::
  "account \<Rightarrow> proof_rec \<Rightarrow> trade \<times> ('b, 'c, 'z) verifier_chain_scheme
    \<Rightarrow> (trade \<times> ('b, 'c, 'z) verifier_chain_scheme) result" where
  "step_forward dom_id p ts =
     (case ts of (tr, s) \<Rightarrow>
      rbind (unwrap (get_dominator s dom_id)) (\<lambda>d.
        Inr (tr\<lparr>trade_root := proof_root p\<rparr>,
             put_dominator dom_id
               (d\<lparr>d_merkle_root := proof_root p, d_sequence := (event_id p, block_number s)\<rparr>) s)))"

definition verify_and_update ::
  "('b, 'x) verifier_env_scheme
    \<Rightarrow> ('c \<Rightarrow> account \<Rightarrow> ('b, 'c, 'z) verifier_chain_scheme \<Rightarrow> ('b, 'c, 'z) verifier_chain_scheme result)
    \<Rightarrow> account \<Rightarrow> merkle_hash \<Rightarrow> u32 \<Rightarrow> proof_rec \<Rightarrow> ('b, 'c, 'z) verifier_chain_scheme
    \<Rightarrow> (trade \<times> ('b, 'c, 'z) verifier_chain_scheme) result" where
  "verify_and_update E disp dom_id known_root claim_at p s =
     rbind (check_merkle E known_root p) (\<lambda>_.
     rbind (current_season E (block_number s) claim_at) (\<lambda>season.
     let tr = \<lparr>trade_token = 0, trade_root = known_root, trade_amount = 0, trade_vol = 0\<rparr>
     in case cmd p of
       AskLimit prc amount maker_fee taker_fee base quote \<Rightarrow>
         rbind (check_fee E taker_fee maker_fee) (\<lambda>_.
         ensure (is_stable E s quote) (VerifierE vrf_err.UnsupportedQuoteCurrency) (
         rbind (verify_ask_limit E s prc amount (permill_from_parts E maker_fee) (permill_from_parts E taker_fee)
                  base quote (maker_account_delta p) (maker_page_delta p) dom_id (leaves p)) (\<lambda>cr.
         rbind (settle E dom_id season base quote cr tr s) (step_forward dom_id p))))
     | BidLimit prc amount maker_fee taker_fee base quote \<Rightarrow>
         rbind (check_fee E taker_fee maker_fee) (\<lambda>_.
         ensure (is_stable E s quote) (VerifierE vrf_err.UnsupportedQuoteCurrency) (
         rbind (verify_bid_limit E s prc amount (permill_from_parts E maker_fee) (permill_from_parts E taker_fee)
                  base quote (maker_account_delta p) (maker_page_delta p) dom_id (leaves p)) (\<lambda>cr.
         rbind (settle E dom_id season base quote cr tr s) (step_forward dom_id p))))
     | Cancel base quote \<Rightarrow>
         rbind (verify_cancel base quote (user_id p) (leaves p)) (\<lambda>_. step_forward dom_id p (tr, s))
     | TransferOut currency amount \<Rightarrow>
         rbind (handle_transfer_out E disp dom_id currency amount p s) (\<lambda>s1. step_forward dom_id p (tr, s1))
     | TransferIn currency amount \<Rightarrow>
         rbind (handle_transfer_in dom_id currency amount p s) (\<lambda>s1. step_forward dom_id p (tr, s1))
     | RejectTransferOut currency amount \<Rightarrow>
         rbind (handle_reject_transfer_out dom_id currency amount p s) (\<lambda>s1. Inr (tr, s1))
     | RejectTransferIn \<Rightarrow>
         rbind (handle_reject_transfer_in dom_id p s) (\<lambda>s1. Inr (tr, s1))))"

text \<open>One round of the loop of \<open>verify_batch\<close>: the root moves on and the trade is added to the
  token's increments.\<close>

definition record_trade ::
  "trade \<Rightarrow> (token_id \<times> u128 \<times> u128) list \<Rightarrow> (token_id \<times> u128 \<times> u128) list" where
  "record_trade tr incr =
     (if trade_amount tr \<noteq> 0 \<and> trade_vol tr \<noteq> 0
      then btree_entry (trade_token tr) (\<lambda>(b, q). (b + trade_amount tr, q + trade_vol tr))
             (trade_amount tr, trade_vol tr) incr
      else incr)"

definition verify_one ::
  "('b, 'x) verifier_env_scheme
    \<Rightarrow> ('c \<Rightarrow> account \<Rightarrow> ('b, 'c, 'z) verifier_chain_scheme \<Rightarrow> ('b, 'c, 'z) verifier_chain_scheme result)
    \<Rightarrow> account \<Rightarrow> u32 \<Rightarrow> proof_rec
    \<Rightarrow> merkle_hash \<times> (token_id \<times> u128 \<times> u128) list \<times> ('b, 'c, 'z) verifier_chain_scheme
    \<Rightarrow> (merkle_hash \<times> (token_id \<times> u128 \<times> u128) list \<times> ('b, 'c, 'z) verifier_chain_scheme) result" where
  "verify_one E disp dom_id claim_at p acc =
     (case acc of (known_root, incr, s) \<Rightarrow>
      rbind (verify_and_update E disp dom_id known_root claim_at p s) (\<lambda>(tr, s1).
        Inr (trade_root tr, record_trade tr incr, s1)))"

definition set_prices ::
  "('b, 'x) verifier_env_scheme \<Rightarrow> (token_id \<times> u128 \<times> u128) list
    \<Rightarrow> ('b, 'c, 'z) verifier_chain_scheme \<Rightarrow> ('b, 'c, 'z) verifier_chain_scheme" where
  "set_prices E incr s =
     fold (\<lambda>(tid, b, q) s'. set_price E tid b q (block_number s) s') incr s"

definition verify_batch ::
  "('b, 'x) verifier_env_scheme
    \<Rightarrow> ('c \<Rightarrow> account \<Rightarrow> ('b, 'c, 'z) verifier_chain_scheme \<Rightarrow> ('b, 'c, 'z) verifier_chain_scheme result)
    \<Rightarrow> account \<Rightarrow> dominator \<Rightarrow> proof_rec list \<Rightarrow> ('b, 'c, 'z) verifier_chain_scheme
    \<Rightarrow> ('b, 'c, 'z) verifier_chain_scheme result" where
  "verify_batch E disp dom_id d proofs s =
     rbind (rfold (verify_one E disp dom_id (d_start_from d)) proofs (d_merkle_root d, [], s)) (\<lambda>(root, incr, s1).
       Inr (set_prices E incr s1))"

section \<open>Calls\<close>

definition valid_identifier :: "bytes \<Rightarrow> bool" where
  "valid_identifier name \<longleftrightarrow> (\<forall>b \<in> set name. b < 128) \<and> 2 \<le> length name \<and> length name \<le> 32"

definition register ::
  "('b, 'x) verifier_env_scheme \<Rightarrow> origin \<Rightarrow> bytes
    \<Rightarrow> ('b, 'c, 'z) verifier_chain_scheme \<Rightarrow> ('b, 'c, 'z) verifier_chain_scheme result" where
  "register E orig identifier s =
     rbind (ensure_signed orig) (\<lambda>dom_id.
     ensure (valid_identifier identifier) (VerifierE vrf_err.InvalidName) (
     ensure (block_number s \<ge> DominatorCheckGracePeriod E) (VerifierE vrf_err.TooEarlyToRegister) (
     ensure (get_dominator s dom_id = None) (VerifierE vrf_err.DominatorAlreadyExists) (
     ensure (find (\<lambda>d. d_name (snd d) = identifier) (Dominators s) = None) (VerifierE vrf_err.InvalidName) (
     rbind (rem_u32 (block_number s) (DominatorCheckGracePeriod E)) (\<lambda>m.
       let d = \<lparr>d_name = identifier, d_staked = 0, d_merkle_root = replicate 32 0,
                d_start_from = block_number s - m, d_sequence = (0, block_number s),
                d_status = DOMINATOR_REGISTERED\<rparr>
       in Inr (deposit_event (VerifierEv (DominatorClaimed dom_id)) (put_dominator dom_id d s))))))))"

definition evict ::
  "('b, 'x) verifier_env_scheme \<Rightarrow> origin \<Rightarrow> bytes
    \<Rightarrow> ('b, 'c, 'z) verifier_chain_scheme \<Rightarrow> ('b, 'c, 'z) verifier_chain_scheme result" where
  "evict E orig target s =
     rbind (ensure_root orig) (\<lambda>_.
     rbind (ok_or (lookup E target) CannotLookup) (\<lambda>dom_id.
     rbind (ok_or (get_dominator s dom_id) (VerifierE vrf_err.DominatorNotFound)) (\<lambda>d.
       Inr (deposit_event (VerifierEv (vrf_event.DominatorEvicted dom_id))
              (put_dominator dom_id (d\<lparr>d_status := DOMINATOR_EVICTED\<rparr>) s)))))"

definition launch ::
  "('b, 'x) verifier_env_scheme \<Rightarrow> origin \<Rightarrow> bytes
    \<Rightarrow> ('b, 'c, 'z) verifier_chain_scheme \<Rightarrow> ('b, 'c, 'z) verifier_chain_scheme result" where
  "launch E orig target s =
     rbind (ensure_root orig) (\<lambda>_.
     rbind (ok_or (lookup E target) CannotLookup) (\<lambda>dom_id.
     rbind (ok_or (get_dominator s dom_id) (VerifierE vrf_err.DominatorNotFound)) (\<lambda>d.
     ensure (d_status d = DOMINATOR_REGISTERED) (VerifierE vrf_err.DominatorStatusInvalid) (
       Inr (deposit_event (VerifierEv (vrf_event.DominatorInactive dom_id))
              (put_dominator dom_id (d\<lparr>d_status := DOMINATOR_INACTIVE\<rparr>) s))))))"

definition put_setting ::
  "account \<Rightarrow> dominator_setting \<Rightarrow> ('b, 'c, 'z) verifier_chain_scheme \<Rightarrow> ('b, 'c, 'z) verifier_chain_scheme" where
  "put_setting dom_id d s = s\<lparr>DominatorSettings := (DominatorSettings s)(dom_id \<mapsto> d)\<rparr>"

definition dominator_set_pubkey ::
  "origin \<Rightarrow> bytes \<Rightarrow> ('b, 'c, 'z) verifier_chain_scheme \<Rightarrow> ('b, 'c, 'z) verifier_chain_scheme result" where
  "dominator_set_pubkey orig key s =
     rbind (ensure_signed orig) (\<lambda>dom_id.
     ensure (get_dominator s dom_id \<noteq> None) (VerifierE vrf_err.DominatorNotFound) (
       let d = (case DominatorSettings s dom_id of
                  Some setting \<Rightarrow> setting\<lparr>ds_x25519_pubkey := key\<rparr>
                | None \<Rightarrow> \<lparr>ds_beneficiary = None, ds_x25519_pubkey = key, ds_rpc_endpoint = []\<rparr>)
       in Inr (deposit_event (VerifierEv (DominatorX25519KeyUpdated dom_id key)) (put_setting dom_id d s))))"

definition dominator_set_rpc_endpoint ::
  "origin \<Rightarrow> bytes \<Rightarrow> ('b, 'c, 'z) verifier_chain_scheme \<Rightarrow> ('b, 'c, 'z) verifier_chain_scheme result" where
  "dominator_set_rpc_endpoint orig endpoint s =
     rbind (ensure_signed orig) (\<lambda>dom_id.
     ensure (get_dominator s dom_id \<noteq> None) (VerifierE vrf_err.DominatorNotFound) (
       let d = (case DominatorSettings s dom_id of
                  Some setting \<Rightarrow> setting\<lparr>ds_rpc_endpoint := endpoint\<rparr>
                | None \<Rightarrow> \<lparr>ds_beneficiary = None, ds_x25519_pubkey = [], ds_rpc_endpoint = endpoint\<rparr>)
       in Inr (deposit_event (VerifierEv (DominatorRpcEndpointUpdated dom_id endpoint)) (put_setting dom_id d s))))"

text \<open>A beneficiary can only be replaced with the signature of the old one over his nonce.\<close>

definition validate_beneficiary ::
  "('b, 'x) verifier_env_scheme \<Rightarrow> account option \<Rightarrow> bytes \<Rightarrow> account
    \<Rightarrow> ('b, 'c, 'z) verifier_chain_scheme \<Rightarrow> ('b, 'c, 'z) verifier_chain_scheme result" where
  "validate_beneficiary E old_beneficiary signature new_beneficiary s =
     (case old_beneficiary of
        Some old \<Rightarrow>
          (let payload = encode_nonce_account E (account_nonce s old, new_beneficiary)
           in if sr25519_verify E signature payload old then Inr (inc_account_nonce old s)
              else Inl (VerifierE vrf_err.InvalidBeneficiaryProof))
      | None \<Rightarrow> Inr s)"

definition dominator_set_beneficiary ::
  "('b, 'x) verifier_env_scheme \<Rightarrow> origin \<Rightarrow> account \<Rightarrow> bytes
    \<Rightarrow> ('b, 'c, 'z) verifier_chain_scheme \<Rightarrow> ('b, 'c, 'z) verifier_chain_scheme result" where
  "dominator_set_beneficiary E orig beneficiary signature s =
     rbind (ensure_signed orig) (\<lambda>dom_id.
     ensure (get_dominator s dom_id \<noteq> None) (VerifierE vrf_err.DominatorNotFound) (
       case DominatorSettings s dom_id of
         Some setting \<Rightarrow>
           rbind (validate_beneficiary E (ds_beneficiary setting) signature beneficiary s) (\<lambda>s1.
             Inr (put_setting dom_id (setting\<lparr>ds_beneficiary := Some beneficiary\<rparr>) s1))
       | None \<Rightarrow>
           Inr (put_setting dom_id
             \<lparr>ds_beneficiary = Some beneficiary, ds_x25519_pubkey = [], ds_rpc_endpoint = []\<rparr> s)))"

definition register_broker ::
  "('b, 'x) verifier_env_scheme \<Rightarrow> origin \<Rightarrow> bytes \<Rightarrow> account
    \<Rightarrow> ('b, 'c, 'z) verifier_chain_scheme \<Rightarrow> ('b, 'c, 'z) verifier_chain_scheme result" where
  "register_broker E orig endpoint beneficiary s =
     rbind (ensure_signed orig) (\<lambda>w.
     let requires = BrokerStakingThreshold E
     in rbind (transfer_token E w (native_token_id E) requires (system_account E) s) (\<lambda>s1.
        ensure (Brokers s1 w = None) (VerifierE vrf_err.BrokerAlreadyRegistered) (
          Inr (s1\<lparr>Brokers := (Brokers s1)(w \<mapsto>
            \<lparr>br_beneficiary = beneficiary, br_staked = requires, br_register_at = block_number s1,
             br_rpc_endpoint = endpoint\<rparr>)\<rparr>))))"

definition broker_set_rpc_endpoint ::
  "origin \<Rightarrow> bytes \<Rightarrow> ('b, 'c, 'z) verifier_chain_scheme \<Rightarrow> ('b, 'c, 'z) verifier_chain_scheme result" where
  "broker_set_rpc_endpoint orig endpoint s =
     rbind (ensure_signed orig) (\<lambda>w.
     rbind (ok_or (Brokers s w) (VerifierE vrf_err.BrokerNotFound)) (\<lambda>b.
       Inr (s\<lparr>Brokers := (Brokers s)(w \<mapsto> b\<lparr>br_rpc_endpoint := endpoint\<rparr>)\<rparr>)))"

definition verify_compress ::
  "('b, 'x) verifier_env_scheme
    \<Rightarrow> ('c \<Rightarrow> account \<Rightarrow> ('b, 'c, 'z) verifier_chain_scheme \<Rightarrow> ('b, 'c, 'z) verifier_chain_scheme result)
    \<Rightarrow> origin \<Rightarrow> bytes \<Rightarrow> ('b, 'c, 'z) verifier_chain_scheme \<Rightarrow> ('b, 'c, 'z) verifier_chain_scheme result" where
  "verify_compress E disp orig compressed s =
     rbind (ensure_signed orig) (\<lambda>dom_id.
     rbind (ok_or (get_dominator s dom_id) (VerifierE vrf_err.DominatorNotFound)) (\<lambda>d.
     ensure (d_status d = DOMINATOR_ACTIVE) (VerifierE vrf_err.DominatorInactive) (
     rbind (ok_or (uncompressed_size E compressed) (VerifierE vrf_err.ProofDecompressError)) (\<lambda>(sz, input).
     ensure (sz < MAX_PROOF_SIZE) (VerifierE vrf_err.ProofTooLarge) (
     rbind (ok_or (lz4_decompress E input sz) (VerifierE vrf_err.ProofDecompressError)) (\<lambda>raw.
     rbind (ok_or (decode_proofs E raw) (VerifierE vrf_err.ProofFormatError)) (\<lambda>proofs.
       verify_batch E disp dom_id d proofs s)))))))"

definition verify ::
  "('b, 'x) verifier_env_scheme
    \<Rightarrow> ('c \<Rightarrow> account \<Rightarrow> ('b, 'c, 'z) verifier_chain_scheme \<Rightarrow> ('b, 'c, 'z) verifier_chain_scheme result)
    \<Rightarrow> origin \<Rightarrow> proof_rec list \<Rightarrow> ('b, 'c, 'z) verifier_chain_scheme
    \<Rightarrow> ('b, 'c, 'z) verifier_chain_scheme result" where
  "verify E disp orig proofs s =
     rbind (ensure_signed orig) (\<lambda>dom_id.
     rbind (ok_or (get_dominator s dom_id) (VerifierE vrf_err.DominatorNotFound)) (\<lambda>d.
     ensure (d_status d = DOMINATOR_ACTIVE) (VerifierE vrf_err.DominatorInactive) (
       verify_batch E disp dom_id d proofs s)))"

definition stake ::
  "('b, 'x) verifier_env_scheme \<Rightarrow> origin \<Rightarrow> bytes \<Rightarrow> u128
    \<Rightarrow> ('b, 'c, 'z) verifier_chain_scheme \<Rightarrow> ('b, 'c, 'z) verifier_chain_scheme result" where
  "stake E orig target amount s =
     rbind (ensure_signed orig) (\<lambda>staker.
     rbind (ok_or (lookup E target) CannotLookup) (\<lambda>dom_id.
       stake_on E staker dom_id amount s))"

definition unstake ::
  "('b, 'x) verifier_env_scheme \<Rightarrow> origin \<Rightarrow> bytes \<Rightarrow> u128
    \<Rightarrow> ('b, 'c, 'z) verifier_chain_scheme \<Rightarrow> ('b, 'c, 'z) verifier_chain_scheme result" where
  "unstake E orig target amount s =
     rbind (ensure_signed orig) (\<lambda>staker.
     rbind (ok_or (lookup E target) CannotLookup) (\<lambda>dom_id.
       unstake_from E staker dom_id amount s))"

definition claim_shares ::
  "('b, 'x) verifier_env_scheme \<Rightarrow> origin \<Rightarrow> bytes
    \<Rightarrow> ('b, 'c, 'z) verifier_chain_scheme \<Rightarrow> ('b, 'c, 'z) verifier_chain_scheme result" where
  "claim_shares E orig target s =
     rbind (ensure_signed orig) (\<lambda>signer.
     rbind (ok_or (lookup E target) CannotLookup) (\<lambda>dex.
     rbind (ok_or (get_dominator s dex) (VerifierE vrf_err.DominatorNotFound)) (\<lambda>d.
     ensure (d_status d \<noteq> DOMINATOR_REGISTERED) (VerifierE vrf_err.DominatorStatusInvalid) (
     rbind (ok_or (Stakings s (dex, signer)) (VerifierE vrf_err.InvalidStaking)) (\<lambda>stk.
     rbind (current_season E (block_number s) (d_start_from d)) (\<lambda>now.
     rbind (take_shares E signer dex
              \<lparr>dist_from = from_season stk, dist_to = now, dist_staking = stk_amount stk\<rparr> s) (\<lambda>(season, s1).
       Inr (put_staking (dex, signer) (Some (stk\<lparr>from_season := season\<rparr>)) s1))))))))"

definition authorize ::
  "('b, 'x) verifier_env_scheme \<Rightarrow> origin \<Rightarrow> bytes \<Rightarrow> token_id \<Rightarrow> u128
    \<Rightarrow> ('b, 'c, 'z) verifier_chain_scheme \<Rightarrow> ('b, 'c, 'z) verifier_chain_scheme result" where
  "authorize E orig target tid amount s =
     rbind (ensure_signed orig) (\<lambda>fund_owner.
     rbind (ok_or (lookup E target) CannotLookup) (\<lambda>dex.
       authorize_to E fund_owner dex tid amount s))"

definition revoke ::
  "('b, 'x) verifier_env_scheme \<Rightarrow> origin \<Rightarrow> bytes \<Rightarrow> token_id \<Rightarrow> u128
    \<Rightarrow> ('b, 'c, 'z) verifier_chain_scheme \<Rightarrow> ('b, 'c, 'z) verifier_chain_scheme result" where
  "revoke E orig target tid amount s =
     rbind (ensure_signed orig) (\<lambda>fund_owner.
     rbind (ok_or (lookup E target) CannotLookup) (\<lambda>dom_id.
       revoke_from E fund_owner dom_id tid amount None s))"

definition revoke_with_callback ::
  "('b, 'x) verifier_env_scheme \<Rightarrow> origin \<Rightarrow> bytes \<Rightarrow> token_id \<Rightarrow> u128 \<Rightarrow> 'c
    \<Rightarrow> ('b, 'c, 'z) verifier_chain_scheme \<Rightarrow> ('b, 'c, 'z) verifier_chain_scheme result" where
  "revoke_with_callback E orig target tid amount cb s =
     rbind (ensure_signed orig) (\<lambda>fund_owner.
     rbind (ok_or (lookup E target) CannotLookup) (\<lambda>dom_id.
       revoke_from E fund_owner dom_id tid amount (Some cb) s))"

definition listing ::
  "origin \<Rightarrow> ('b, 'c, 'z) verifier_chain_scheme \<Rightarrow> ('b, 'c, 'z) verifier_chain_scheme result" where
  "listing orig s = Inr s"

section \<open>The block hook\<close>

text \<open>At the end of a dominator's season its total staking is saved in the season's bonus.\<close>

definition save_season ::
  "('b, 'x) verifier_env_scheme \<Rightarrow> u32 \<Rightarrow> account \<times> dominator
    \<Rightarrow> ('b, 'c, 'z) verifier_chain_scheme \<Rightarrow> ('b, 'c, 'z) verifier_chain_scheme result" where
  "save_season E now p s =
     (case p of (dom_id, d) \<Rightarrow>
      if now = d_start_from d then Inr s
      else rbind (rem_u32 (now - d_start_from d) (SeasonDuration E)) (\<lambda>m.
           if m = 0
           then rbind (div_u32 (now - d_start_from d) (SeasonDuration E)) (\<lambda>q.
                let k = (dom_id, q - 1)
                in Inr (s\<lparr>Bonuses := (Bonuses s)(k := (Bonuses s k)\<lparr>b_staked := d_staked d\<rparr>)\<rparr>))
           else Inr s))"

definition unlock_pending ::
  "('b, 'x) verifier_env_scheme \<Rightarrow> account \<times> u128
    \<Rightarrow> ('b, 'c, 'z) verifier_chain_scheme \<Rightarrow> ('b, 'c, 'z) verifier_chain_scheme" where
  "unlock_pending E p s =
     (case p of (staker, amount) \<Rightarrow>
      case unreserve E RESERVE_FOR_PENDING_UNSTAKE staker (native_token_id E) amount (system_account E) s of
        Inl _ \<Rightarrow> s
      | Inr s1 \<Rightarrow> deposit_event (VerifierEv (TaoUnstakeUnlock staker amount)) s1)"

definition on_initialize ::
  "('b, 'x) verifier_env_scheme \<Rightarrow> u32 \<Rightarrow> ('b, 'c, 'z) verifier_chain_scheme
    \<Rightarrow> ('b, 'c, 'z) verifier_chain_scheme result" where
  "on_initialize E now s =
     rbind (rem_u32 now (DominatorCheckGracePeriod E)) (\<lambda>m.
     if m \<noteq> 0 then Inr s
     else rbind (rfold (save_season E now) (Dominators s) s) (\<lambda>s1.
          let due = PendingUnstakings s1 now;
              s2 = s1\<lparr>PendingUnstakings := (PendingUnstakings s1)(now := [])\<rparr>
          in Inr (fold (unlock_pending E) due s2)))"

end
