(* ===== verification/Fuso_Verifier_Laws.thy ===== *)
theory Fuso_Verifier_Laws
  imports Fuso_Verifier Fuso_Token_Laws
begin

text \<open>
  Laws of the verifier pallet. \<open>booked s t w\<close> is what the pallet's ledger \<open>Reserves\<close> holds of token
  \<open>t\<close> for account \<open>w\<close>, over all purposes and dominators. The locale \<open>custodian\<close> extends the
  contract of reservable tokens by a ledger; its clients keep the ledger backed by reserved
  balance. The pallet's \<open>reserve\<close> and \<open>unreserve\<close> interpret it.
\<close>

section \<open>Frame lemmas\<close>

lemma put_simps [simp]:
  "Reserves (put_reserve k v s) = (Reserves s)(k := v)" "Receipts (put_reserve k v s) = Receipts s"
  "Dominators (put_reserve k v s) = Dominators s" "Stakings (put_reserve k v s) = Stakings s"
  "PendingUnstakings (put_reserve k v s) = PendingUnstakings s" "Bonuses (put_reserve k v s) = Bonuses s"
  "block_number (put_reserve k v s) = block_number s" "Balances (put_reserve k v s) = Balances s"
  "native (put_reserve k v s) = native s"
  "Reserves (put_receipt q r s) = Reserves s" "Receipts (put_receipt q r s) = (Receipts s)(q := r)"
  "Dominators (put_receipt q r s) = Dominators s" "Stakings (put_receipt q r s) = Stakings s"
  "PendingUnstakings (put_receipt q r s) = PendingUnstakings s" "Bonuses (put_receipt q r s) = Bonuses s"
  "block_number (put_receipt q r s) = block_number s" "Balances (put_receipt q r s) = Balances s"
  "native (put_receipt q r s) = native s"
  by (simp_all add: put_reserve_def put_receipt_def)

lemma put_simps2 [simp]:
  "Reserves (put_staking q t s) = Reserves s" "Receipts (put_staking q t s) = Receipts s"
  "Dominators (put_staking q t s) = Dominators s" "Stakings (put_staking q t s) = (Stakings s)(q := t)"
  "PendingUnstakings (put_staking q t s) = PendingUnstakings s" "Bonuses (put_staking q t s) = Bonuses s"
  "block_number (put_staking q t s) = block_number s" "Balances (put_staking q t s) = Balances s"
  "native (put_staking q t s) = native s"
  "Reserves (put_dominator w d s) = Reserves s" "Receipts (put_dominator w d s) = Receipts s"
  "Dominators (put_dominator w d s) = AList.update w d (Dominators s)" "Stakings (put_dominator w d s) = Stakings s"
  "PendingUnstakings (put_dominator w d s) = PendingUnstakings s" "Bonuses (put_dominator w d s) = Bonuses s"
  "block_number (put_dominator w d s) = block_number s" "Balances (put_dominator w d s) = Balances s"
  "native (put_dominator w d s) = native s"
  by (simp_all add: put_staking_def put_dominator_def)

lemma get_dominator_put [simp]:
  "get_dominator (put_dominator w d s) w' = (if w' = w then Some d else get_dominator s w')"
  by (simp add: get_dominator_def update_conv)

lemma vrf_deposit [simp]:
  "Reserves (deposit_event e s) = Reserves s" "Receipts (deposit_event e s) = Receipts s"
  "Dominators (deposit_event e s) = Dominators s" "Stakings (deposit_event e s) = Stakings s"
  "PendingUnstakings (deposit_event e s) = PendingUnstakings s" "Bonuses (deposit_event e s) = Bonuses s"
  "block_number (deposit_event e t) = block_number t"
  by (cases s; simp add: deposit_event_def)+

text \<open>The part of the state that belongs to the pallet itself. The operations of the token, reward and
  indicator pallets leave it alone.\<close>

definition own :: "('b, 'c, 'z) verifier_chain_scheme \<Rightarrow> _" where
  "own s = (Receipts s, Dominators s, Reserves s, Bonuses s, Stakings s, PendingUnstakings s, block_number s)"

lemma ownD:
  assumes "own s' = own s"
  shows "Receipts s' = Receipts s" "Dominators s' = Dominators s" "Reserves s' = Reserves s"
    "Bonuses s' = Bonuses s" "Stakings s' = Stakings s" "PendingUnstakings s' = PendingUnstakings s"
    "block_number s' = block_number s" "get_dominator s' = get_dominator s" "get_reserve s' = get_reserve s"
    "get_staking s' = get_staking s"
  using assms by (auto simp: own_def get_dominator_def get_reserve_def get_staking_def fun_eq_iff)

lemma own_updates [simp]:
  "own (deposit_event e s) = own s" "own (s\<lparr>native := b\<rparr>) = own s"
  "own (store_account k a s) = own s" "own (s\<lparr>Rewards := r\<rparr>) = own s" "own (s\<lparr>Volumes := v\<rparr>) = own s"
  by (simp_all add: own_def store_account_def)

lemma own_store_reward [simp]: "own (store_reward w r s) = own s"
  by (simp add: own_def store_reward_def)

lemma own_token_reserve: "token_reserve E t w v s = Inr s' \<Longrightarrow> own s' = own s"
  by (auto simp: token_reserve_def res_simps split: if_splits)

lemma own_token_unreserve: "token_unreserve E t w v s = Inr s' \<Longrightarrow> own s' = own s"
  by (auto simp: token_unreserve_def res_simps split: if_splits)

lemma own_transfer: "transfer_token E a t v b s = Inr s' \<Longrightarrow> own s' = own s"
  by (auto simp: transfer_token_def Let_def res_simps split: if_splits)

lemma own_mutate:
  assumes "try_mutate_account E t w f s = Inr s'" and "\<forall>b p s1. f b s = Inr (p, s1) \<longrightarrow> s1 = s"
  shows "own s' = own s"
proof -
  from assms(1) have "\<exists>b p s1. f b s = Inr (p, s1) \<and> own s' = own s1"
    by (cases "t = native_token_id E") (force simp: try_mutate_account_def Let_def res_simps)+
  with assms(2) show ?thesis by blast
qed

lemma own_rotate: "rotate_reward E at vol w s = Inr (c, s') \<Longrightarrow> own s' = own s"
  by (auto simp: rotate_reward_def Let_def res_simps split: if_splits)

lemma own_save_trading: "save_trading E w vol at s = Inr s' \<Longrightarrow> own s' = own s"
  by (auto simp: save_trading_def res_simps dest!: own_rotate split: if_splits)

lemma own_pay_share: "pay_share E w p s = Inr s' \<Longrightarrow> own s' = own s"
  unfolding pay_share_def by (erule own_mutate) simp

lemma own_pay_shares: "rfold (pay_share E w) ps s = Inr s' \<Longrightarrow> own s' = own s"
  by (induction ps arbitrary: s) (auto simp: res_simps dest!: own_pay_share)

lemma own_take_shares: "take_shares E w dom_id d s = Inr (n, s') \<Longrightarrow> own s' = own s"
  by (auto simp: take_shares_def res_simps dest!: own_pay_shares split: if_splits)


lemma mutate_effect:
  assumes "balances_spec E" and mut: "try_mutate_account E t w f s = Inr s'"
    and same: "\<forall>b p s1. f b s = Inr (p, s1) \<longrightarrow> s1 = s"
  shows "\<exists>p. f (free_balance E s t w, reserved_balance E s t w) s = Inr (p, s) \<and>
    free_balance E s' t w = fst p \<and> reserved_balance E s' t w = snd p \<and>
    (\<forall>t' w'. t' \<noteq> t \<or> w' \<noteq> w \<longrightarrow> free_balance E s' t' w' = free_balance E s t' w' \<and>
       reserved_balance E s' t' w' = reserved_balance E s t' w')"
proof (cases "t = native_token_id E")
  case True
  with mut obtain p s1 b where f: "f (bal_free E (native s) w, bal_reserved E (native s) w) s = Inr (p, s1)"
    and b: "bal_mutate_account E w p (native s1) = Inr b" and s': "s' = s1\<lparr>native := b\<rparr>"
    by (auto simp: try_mutate_account_def res_simps)
  have s1: "s1 = s" using same f by blast
  note law = balances_mutateD [OF assms(1) b]
  have "get_token_balance s' k = get_token_balance s k" for k by (simp add: s' s1 get_token_balance_def)
  with True f law show ?thesis
    by (auto simp: free_balance_def reserved_balance_def s' s1 same_account_def)
next
  case False
  with mut obtain p s1 where
    f: "f (free (get_token_balance s (t, w)), reserved (get_token_balance s (t, w))) s = Inr (p, s1)"
    and s': "s' = store_account (t, w) (alive ((get_token_balance s (t, w))\<lparr>free := fst p, reserved := snd p\<rparr>)) s1"
    by (auto simp: try_mutate_account_def Let_def res_simps)
  have s1: "s1 = s" using same f by blast
  with False f show ?thesis
    by (auto simp: free_balance_def reserved_balance_def s')
qed

lemma pay_share_reserved:
  assumes "balances_spec E" and "pay_share E w p s = Inr s'"
  shows "reserved_balance E s' t' w' = reserved_balance E s t' w'"
proof -
  have "\<exists>q. Inr ((free_balance E s (fst p) w + snd p, reserved_balance E s (fst p) w), s) = (Inr (q, s) :: _ result) \<and>
      reserved_balance E s' (fst p) w = snd q \<and>
      (\<forall>t' w'. t' \<noteq> fst p \<or> w' \<noteq> w \<longrightarrow> reserved_balance E s' t' w' = reserved_balance E s t' w')"
    using mutate_effect [OF assms(1) assms(2) [unfolded pay_share_def]] by auto
  then show ?thesis by (cases "t' = fst p \<and> w' = w") auto
qed

lemma take_shares_reserved:
  assumes "balances_spec E" and "take_shares E w dom_id d s = Inr (n, s')"
  shows "reserved_balance E s' t' w' = reserved_balance E s t' w'"
proof -
  have "rfold (pay_share E w) ps u = Inr u' \<Longrightarrow> reserved_balance E u' t' w' = reserved_balance E u t' w'" for ps u u'
    by (induction ps arbitrary: u) (auto simp: res_simps dest!: pay_share_reserved [OF assms(1)])
  with assms(2) show ?thesis by (auto simp: take_shares_def res_simps split: if_splits)
qed

lemma balance_of_same:
  assumes "Balances s' = Balances s" "native s' = native s"
  shows "free_balance E s' = free_balance E s" "reserved_balance E s' = reserved_balance E s"
  using assms by (simp_all add: fun_eq_iff free_balance_def reserved_balance_def get_token_balance_def)

lemma balances_put [simp]:
  "free_balance E (put_reserve k v s) = free_balance E s" "reserved_balance E (put_reserve k v s) = reserved_balance E s"
  "free_balance E (put_receipt q r s) = free_balance E s" "reserved_balance E (put_receipt q r s) = reserved_balance E s"
  "free_balance E (put_staking q u s) = free_balance E s" "reserved_balance E (put_staking q u s) = reserved_balance E s"
  "free_balance E (put_dominator a d s) = free_balance E s" "reserved_balance E (put_dominator a d s) = reserved_balance E s"
  by (rule balance_of_same; simp)+

lemma balances_deposit [simp]:
  "free_balance E (deposit_event e t) = free_balance E t"
  "reserved_balance E (deposit_event e t) = reserved_balance E t"
  by (rule balance_of_same; simp)+

section \<open>The ledger\<close>

definition rslice ::
  "('b, 'c, 'z) verifier_chain_scheme \<Rightarrow> token_id \<Rightarrow> account \<Rightarrow> u8 \<times> account \<Rightarrow> u128 option" where
  "rslice s t w = (\<lambda>(i, d). Reserves s ((i, w, t), d))"

definition booked :: "('b, 'c, 'z) verifier_chain_scheme \<Rightarrow> token_id \<Rightarrow> account \<Rightarrow> nat" where
  "booked s t w = msum unat (rslice s t w)"

definition fin_reserves :: "('b, 'c, 'z) verifier_chain_scheme \<Rightarrow> bool" where
  "fin_reserves s \<longleftrightarrow> (\<forall>t w. finite (dom (rslice s t w)))"

lemma rslice_put:
  "rslice (put_reserve ((i, w, t), d) v s) t' w' =
     (if t' = t \<and> w' = w then (rslice s t w)((i, d) := v) else rslice s t' w')"
  by (auto simp: rslice_def fun_eq_iff)

lemma fin_put [simp]: "fin_reserves (put_reserve ((i, w, t), d) v s) = fin_reserves s"
proof -
  have "finite (dom (rslice (put_reserve ((i, w, t), d) v s) u z)) = finite (dom (rslice s u z))" for u z
    by (cases "u = t \<and> z = w") (auto simp: rslice_put)
  then show ?thesis by (simp add: fin_reserves_def)
qed

lemma booked_same: "Reserves s' = Reserves s \<Longrightarrow> booked s' = booked s"
  by (simp add: booked_def rslice_def fun_eq_iff)

lemma fin_reserves_same: "Reserves s' = Reserves s \<Longrightarrow> fin_reserves s' = fin_reserves s"
  by (simp add: fin_reserves_def rslice_def)

lemma owt_get_reserve: "owt unat (Reserves s k) = unat (get_reserve s k)"
  by (simp add: get_reserve_def split: option.split)

lemma booked_put_other:
  "t' \<noteq> t \<or> w' \<noteq> w \<Longrightarrow> booked (put_reserve ((i, w, t), d) v s) t' w' = booked s t' w'"
  by (auto simp: booked_def rslice_put)

lemma booked_put:
  assumes "fin_reserves s"
  shows "booked (put_reserve ((i, w, t), d) v s) t w + unat (get_reserve s ((i, w, t), d))
    = booked s t w + owt unat v"
  using msum_update [of "rslice s t w" unat "(i, d)" v] assms
  by (simp add: booked_def rslice_put fin_reserves_def) (simp add: rslice_def owt_get_reserve)

lemma get_reserve_put [simp]:
  "get_reserve (put_reserve k v s) k' = (if k' = k then (case v of None \<Rightarrow> 0 | Some x \<Rightarrow> x) else get_reserve s k')"
  by (simp add: get_reserve_def)

lemma get_reserve_le_booked:
  assumes "fin_reserves s"
  shows "unat (get_reserve s ((i, w, t), d)) \<le> booked s t w"
  using owt_le_msum [of "rslice s t w" unat "(i, d)"] assms
  by (simp add: booked_def fin_reserves_def) (simp add: rslice_def owt_get_reserve)

section \<open>Custody of reserved balances\<close>

text \<open>A custodian holds and releases balances by reserving them with the token provider and keeps a
  ledger of what it holds. \<open>wf\<close> is its own well-formedness condition.\<close>

locale custodian = reservable_token reserve unreserve free_of reserved_of ok
  for reserve unreserve :: "token_id \<Rightarrow> account \<Rightarrow> u128 \<Rightarrow> 's \<Rightarrow> 's result"
    and free_of reserved_of :: "'s \<Rightarrow> token_id \<Rightarrow> account \<Rightarrow> u128" and ok :: bool +
  fixes hold release :: "token_id \<Rightarrow> account \<Rightarrow> u128 \<Rightarrow> 's \<Rightarrow> 's result"
    and ledger :: "'s \<Rightarrow> token_id \<Rightarrow> account \<Rightarrow> nat"
    and wf :: "'s \<Rightarrow> bool"
  assumes hold_reserves: "hold t w v s = Inr s' \<Longrightarrow>
      \<exists>s1. reserve t w v s = Inr s1 \<and> free_of s' = free_of s1 \<and> reserved_of s' = reserved_of s1"
    and hold_ledger: "wf s \<Longrightarrow> hold t w v s = Inr s' \<Longrightarrow>
      wf s' \<and> ledger s' t' w' = ledger s t' w' + (if t' = t \<and> w' = w then unat v else 0)"
    and release_unreserves: "release t w v s = Inr s' \<Longrightarrow>
      \<exists>s1. unreserve t w v s = Inr s1 \<and> free_of s' = free_of s1 \<and> reserved_of s' = reserved_of s1"
    and release_ledger: "wf s \<Longrightarrow> release t w v s = Inr s' \<Longrightarrow>
      wf s' \<and> ledger s' t' w' + (if t' = t \<and> w' = w then unat v else 0) = ledger s t' w'"
begin

lemma hold_reserved:
  assumes "ok" "hold t w v s = Inr s'"
  shows "unat (reserved_of s' t' w') = unat (reserved_of s t' w') + (if t' = t \<and> w' = w then unat v else 0)"
proof -
  obtain s1 where r: "reserve t w v s = Inr s1" and eq: "reserved_of s' = reserved_of s1"
    using hold_reserves [OF assms(2)] by blast
  show ?thesis
    using reserve_reserved [OF assms(1) r] reserve_frame [OF assms(1) r, of t' w']
    by (auto simp: eq)
qed

lemma release_reserved:
  assumes "ok" "release t w v s = Inr s'"
  shows "unat (reserved_of s t' w') = unat (reserved_of s' t' w') + (if t' = t \<and> w' = w then unat v else 0)"
proof -
  obtain s1 where r: "unreserve t w v s = Inr s1" and eq: "reserved_of s' = reserved_of s1"
    using release_unreserves [OF assms(2)] by blast
  show ?thesis
    using unreserve_reserved [OF assms(1) r] unreserve_frame [OF assms(1) r, of t' w']
    by (auto simp: eq)
qed

lemma hold_backed:
  "ok \<Longrightarrow> wf s \<Longrightarrow> \<forall>t w. ledger s t w \<le> unat (reserved_of s t w) \<Longrightarrow> hold t w v s = Inr s' \<Longrightarrow>
   wf s' \<and> (\<forall>t w. ledger s' t w \<le> unat (reserved_of s' t w))"
  using hold_ledger [of s t w v s'] hold_reserved [of t w v s s'] by simp

lemma release_backed:
  assumes "ok" "wf s" "\<forall>t w. ledger s t w \<le> unat (reserved_of s t w)" "release t w v s = Inr s'"
  shows "wf s' \<and> (\<forall>t w. ledger s' t w \<le> unat (reserved_of s' t w))"
proof (intro conjI allI)
  note led = release_ledger [OF assms(2,4)] and res = release_reserved [OF assms(1,4)]
  show "wf s'" using led by blast
  show "ledger s' t' w' \<le> unat (reserved_of s' t' w')" for t' w'
    using assms(3) [rule_format, of t' w'] led [of t' w'] res [of t' w'] by linarith
qed

end

text \<open>What \<open>reserve\<close> and \<open>unreserve\<close> do, on every branch that succeeds.\<close>

lemma reserve_elim:
  assumes "reserve E i w t v d s = Inr s'" and "v \<noteq> 0"
  obtains s1 r where "token_reserve E t w v s = Inr s1" "unat r = unat (get_reserve s ((i, w, t), d)) + unat v"
    "s' = put_reserve ((i, w, t), d) (Some r) s1"
  using assms by (auto simp: reserve_def Let_def res_simps checked_add_Some)

lemma unreserve_elim:
  assumes "unreserve E i w t v d s = Inr s'" and "v \<noteq> 0"
  obtains s1 r where "token_unreserve E t w v s = Inr s1" "unat (get_reserve s ((i, w, t), d)) = unat v + unat r"
    "s' = put_reserve ((i, w, t), d) (if r > 0 then Some r else None) s1"
  using assms by (auto simp: unreserve_def Let_def res_simps checked_sub_Some get_reserve_def)

lemma owt_positive [simp]: "owt unat (if r > 0 then Some r else None) = unat r"
  by (simp add: word_greater_zero_iff)

lemma reserve_ledger:
  assumes "fin_reserves s" and "reserve E i w t v d s = Inr s'"
  shows "fin_reserves s' \<and> booked s' t' w' = booked s t' w' + (if t' = t \<and> w' = w then unat v else 0)"
proof (cases "v = 0")
  case True
  with assms show ?thesis by (simp add: reserve_def)
next
  case False
  from assms(2) False obtain s1 r where s1: "token_reserve E t w v s = Inr s1"
    and r: "unat r = unat (get_reserve s ((i, w, t), d)) + unat v"
    and s': "s' = put_reserve ((i, w, t), d) (Some r) s1" by (rule reserve_elim)
  note own = ownD [OF own_token_reserve [OF s1]]
  have fin: "fin_reserves s1" and bk: "booked s1 = booked s"
    using assms(1) fin_reserves_same [OF own(3)] booked_same [OF own(3)] by simp_all
  have "booked s' t w + unat (get_reserve s ((i, w, t), d)) = booked s t w + unat r"
    using booked_put [OF fin, of i w t d "Some r"] by (simp add: s' bk own(9))
  with r fin show ?thesis
    by (cases "t' = t \<and> w' = w") (auto simp: s' bk booked_put_other)
qed

lemma unreserve_ledger:
  assumes "fin_reserves s" and "unreserve E i w t v d s = Inr s'"
  shows "fin_reserves s' \<and> booked s' t' w' + (if t' = t \<and> w' = w then unat v else 0) = booked s t' w'"
proof (cases "v = 0")
  case True
  with assms show ?thesis by (simp add: unreserve_def)
next
  case False
  from assms(2) False obtain s1 r where s1: "token_unreserve E t w v s = Inr s1"
    and r: "unat (get_reserve s ((i, w, t), d)) = unat v + unat r"
    and s': "s' = put_reserve ((i, w, t), d) (if r > 0 then Some r else None) s1" by (rule unreserve_elim)
  note own = ownD [OF own_token_unreserve [OF s1]]
  have fin: "fin_reserves s1" and bk: "booked s1 = booked s"
    using assms(1) fin_reserves_same [OF own(3)] booked_same [OF own(3)] by simp_all
  have "booked s' t w + unat (get_reserve s ((i, w, t), d)) = booked s t w + unat r"
    using booked_put [OF fin, of i w t d "if r > 0 then Some r else None"]
    by (simp only: s' bk own(9) owt_positive)
  with r fin show ?thesis
    by (cases "t' = t \<and> w' = w") (auto simp: s' bk booked_put_other)
qed

lemma reserve_by_token:
  "reserve E i w t v d s = Inr s' \<Longrightarrow>
   \<exists>s1. token_reserve E t w v s = Inr s1 \<and> free_balance E s' = free_balance E s1 \<and>
     reserved_balance E s' = reserved_balance E s1"
proof (cases "v = 0")
  case False
  moreover assume "reserve E i w t v d s = Inr s'"
  ultimately show ?thesis by (auto elim!: reserve_elim)
qed (simp add: reserve_def token_reserve_def)

lemma unreserve_by_token:
  "unreserve E i w t v d s = Inr s' \<Longrightarrow>
   \<exists>s1. token_unreserve E t w v s = Inr s1 \<and> free_balance E s' = free_balance E s1 \<and>
     reserved_balance E s' = reserved_balance E s1"
proof (cases "v = 0")
  case False
  moreover assume "unreserve E i w t v d s = Inr s'"
  ultimately show ?thesis by (auto elim!: unreserve_elim)
qed (simp add: unreserve_def token_unreserve_def)

interpretation cust: custodian
  "token_reserve E" "token_unreserve E" "free_balance E" "reserved_balance E" "balances_spec E"
  "\<lambda>t w v s. reserve E i w t v d s" "\<lambda>t w v s. unreserve E i w t v d s" booked fin_reserves
  for E :: "('b, 'x) verifier_env_scheme" and i d
  by unfold_locales
    (rule reserve_by_token reserve_ledger unreserve_by_token unreserve_ledger, assumption+)+

section \<open>Solvency\<close>

text \<open>The ledger is backed by reserved balance, and an open authorisation is backed by its stash.\<close>

definition receipts_backed :: "('b, 'c, 'z) verifier_chain_scheme \<Rightarrow> bool" where
  "receipts_backed s \<longleftrightarrow> (\<forall>dex w t a n. Receipts s (dex, w) = Some (Authorize t a n) \<longrightarrow>
     a \<le> get_reserve s ((RESERVE_FOR_AUTHORIZING_STASH, w, t), dex))"

definition solvent :: "('b, 'x) verifier_env_scheme \<Rightarrow> ('b, 'c, 'z) verifier_chain_scheme \<Rightarrow> bool" where
  "solvent E s \<longleftrightarrow> fin_reserves s \<and> (\<forall>t w. booked s t w \<le> unat (reserved_balance E s t w)) \<and> receipts_backed s"

lemma solvent_frame:
  assumes "solvent E s" "Reserves s' = Reserves s" "Receipts s' = Receipts s"
    "reserved_balance E s' = reserved_balance E s"
  shows "solvent E s'"
  using assms fin_reserves_same [OF assms(2)] booked_same [OF assms(2)]
  by (simp add: solvent_def receipts_backed_def get_reserve_def)

lemma solvent_own:
  assumes "solvent E s" "own s' = own s" "\<And>t w. reserved_balance E s' t w = reserved_balance E s t w"
  shows "solvent E s'"
  by (rule solvent_frame [OF assms(1)]) (use assms(3) ownD [OF assms(2)] in \<open>auto simp: fun_eq_iff\<close>)

lemma solvent_put_receipt:
  "solvent E s \<Longrightarrow> (\<And>t a n. r = Some (Authorize t a n) \<Longrightarrow>
     a \<le> get_reserve s ((RESERVE_FOR_AUTHORIZING_STASH, w, t), dex)) \<Longrightarrow> solvent E (put_receipt (dex, w) r s)"
  using booked_same [of "put_receipt (dex, w) r s" s] fin_reserves_same [of "put_receipt (dex, w) r s" s]
  by (auto simp: solvent_def receipts_backed_def get_reserve_def)

lemma reserve_get:
  assumes "reserve E i w t v d s = Inr s'"
  shows "Receipts s' = Receipts s"
    "unat (get_reserve s' k) = unat (get_reserve s k) + (if k = ((i, w, t), d) then unat v else 0)"
proof -
  have "Receipts s' = Receipts s \<and>
      unat (get_reserve s' k) = unat (get_reserve s k) + (if k = ((i, w, t), d) then unat v else 0)"
  proof (cases "v = 0")
    case True
    with assms show ?thesis by (simp add: reserve_def)
  next
    case False
    with assms obtain s1 r where s1: "token_reserve E t w v s = Inr s1"
      and r: "unat r = unat (get_reserve s ((i, w, t), d)) + unat v"
      and s': "s' = put_reserve ((i, w, t), d) (Some r) s1" by (rule reserve_elim)
    show ?thesis using r ownD [OF own_token_reserve [OF s1]] by (simp add: s')
  qed
  then show "Receipts s' = Receipts s"
    "unat (get_reserve s' k) = unat (get_reserve s k) + (if k = ((i, w, t), d) then unat v else 0)" by simp_all
qed

lemma unreserve_get:
  assumes "unreserve E i w t v d s = Inr s'"
  shows "Receipts s' = Receipts s"
    "unat (get_reserve s k) = unat (get_reserve s' k) + (if k = ((i, w, t), d) then unat v else 0)"
proof -
  have "Receipts s' = Receipts s \<and>
      unat (get_reserve s k) = unat (get_reserve s' k) + (if k = ((i, w, t), d) then unat v else 0)"
  proof (cases "v = 0")
    case True
    with assms show ?thesis by (simp add: unreserve_def)
  next
    case False
    with assms obtain s1 r where s1: "token_unreserve E t w v s = Inr s1"
      and r: "unat (get_reserve s ((i, w, t), d)) = unat v + unat r"
      and s': "s' = put_reserve ((i, w, t), d) (if r > 0 then Some r else None) s1" by (rule unreserve_elim)
    show ?thesis using r ownD [OF own_token_unreserve [OF s1]] by (simp add: s' word_greater_zero_iff)
  qed
  then show "Receipts s' = Receipts s"
    "unat (get_reserve s k) = unat (get_reserve s' k) + (if k = ((i, w, t), d) then unat v else 0)" by simp_all
qed

lemma receipts_mono:
  assumes "receipts_backed s" "Receipts s' = Receipts s" "\<And>k. get_reserve s k \<le> get_reserve s' k"
  shows "receipts_backed s'"
  unfolding receipts_backed_def
proof (intro allI impI)
  fix dex w t a n
  assume "Receipts s' (dex, w) = Some (Authorize t a n)"
  then have "Receipts s (dex, w) = Some (Authorize t a n)" using assms(2) by simp
  then have "a \<le> get_reserve s ((RESERVE_FOR_AUTHORIZING_STASH, w, t), dex)"
    using assms(1) unfolding receipts_backed_def by blast
  also note assms(3)
  finally show "a \<le> get_reserve s' ((RESERVE_FOR_AUTHORIZING_STASH, w, t), dex)" .
qed

lemma solvent_reserve:
  assumes "balances_spec E" "solvent E s" "reserve E i w t v d s = Inr s'"
  shows "solvent E s'"
proof -
  have "fin_reserves s' \<and> (\<forall>t w. booked s' t w \<le> unat (reserved_balance E s' t w))"
    using cust.hold_backed [OF assms(1) _ _ assms(3)] assms(2) by (simp add: solvent_def)
  moreover have "receipts_backed s'"
  proof (rule receipts_mono)
    show "receipts_backed s" using assms(2) by (simp add: solvent_def)
    show "Receipts s' = Receipts s" by (rule reserve_get(1) [OF assms(3)])
    show "get_reserve s k \<le> get_reserve s' k" for k
      using reserve_get(2) [OF assms(3), of k] by (simp add: word_le_nat_alt)
  qed
  ultimately show ?thesis by (simp add: solvent_def)
qed

lemma solvent_unreserve:
  assumes "balances_spec E" "solvent E s" "unreserve E i w t v d s = Inr s'" "i \<noteq> RESERVE_FOR_AUTHORIZING_STASH"
  shows "solvent E s'"
proof -
  have "fin_reserves s' \<and> (\<forall>t w. booked s' t w \<le> unat (reserved_balance E s' t w))"
    using cust.release_backed [OF assms(1) _ _ assms(3)] assms(2) by (simp add: solvent_def)
  moreover have "get_reserve s' ((RESERVE_FOR_AUTHORIZING_STASH, w', t'), d') = get_reserve s ((RESERVE_FOR_AUTHORIZING_STASH, w', t'), d')"
    for w' t' d'
    using unreserve_get(2) [OF assms(3), of "((RESERVE_FOR_AUTHORIZING_STASH, w', t'), d')"] assms(4)
    by (simp add: word_unat_eq_iff)
  ultimately show ?thesis
    using assms(2) by (simp add: solvent_def receipts_backed_def unreserve_get(1) [OF assms(3)])
qed

lemma solvent_take_shares:
  "balances_spec E \<Longrightarrow> solvent E s \<Longrightarrow> take_shares E w dom_id d s = Inr (n, s') \<Longrightarrow> solvent E s'"
  by (rule solvent_own [OF _ own_take_shares]) (simp_all add: take_shares_reserved)

lemma clear_effect:
  assumes "balances_spec E" "clear E w dom_id t bal s = Inr s'"
  shows "\<exists>s1 v. own s1 = own s \<and> s' = put_reserve ((RESERVE_FOR_AUTHORIZING, w, t), dom_id) (Some bal) s1 \<and>
    reserved_balance E s1 t w = v \<and>
    unat v = (unat (reserved_balance E s t w) - unat (get_reserve s ((RESERVE_FOR_AUTHORIZING, w, t), dom_id))) + unat bal \<and>
    (\<forall>t' w'. t' \<noteq> t \<or> w' \<noteq> w \<longrightarrow> reserved_balance E s1 t' w' = reserved_balance E s t' w')"
proof -
  let ?r = "get_reserve s ((RESERVE_FOR_AUTHORIZING, w, t), dom_id)"
  let ?f = "\<lambda>b s1. let left = (case checked_sub (snd b) ?r of None \<Rightarrow> 0 | Some v \<Rightarrow> v)
      in rbind (ok_or (checked_add left bal) (VerifierE vrf_err.Overflow)) (\<lambda>v. Inr ((fst b, v), s1))"
  from assms(2) obtain s1 where mut: "try_mutate_account E t w ?f s = Inr s1"
    and s': "s' = put_reserve ((RESERVE_FOR_AUTHORIZING, w, t), dom_id) (Some bal) s1"
    by (auto simp: clear_def Let_def rbind_eq_Inr)
  have same: "\<forall>b p s2. ?f b s = Inr (p, s2) \<longrightarrow> s2 = s" by (auto simp: Let_def res_simps)
  obtain p where p: "?f (free_balance E s t w, reserved_balance E s t w) s = Inr (p, s)"
    and eff: "reserved_balance E s1 t w = snd p"
      "\<forall>t' w'. t' \<noteq> t \<or> w' \<noteq> w \<longrightarrow> reserved_balance E s1 t' w' = reserved_balance E s t' w'"
    using mutate_effect [OF assms(1) mut same] by blast
  have "unat (case checked_sub (reserved_balance E s t w) ?r of None \<Rightarrow> 0 | Some v \<Rightarrow> v)
      = unat (reserved_balance E s t w) - unat ?r"
    by (auto simp: checked_sub_def unat_sub word_le_nat_alt)
  with p have "unat (snd p) = (unat (reserved_balance E s t w) - unat ?r) + unat bal"
    by (auto simp: Let_def res_simps checked_add_Some)
  with eff own_mutate [OF mut same] s' show ?thesis by blast
qed

lemma solvent_clear:
  assumes "balances_spec E" "solvent E s" "clear E w dom_id t bal s = Inr s'"
  shows "solvent E s'"
proof -
  let ?k = "((RESERVE_FOR_AUTHORIZING, w, t), dom_id)"
  obtain s1 where own: "own s1 = own s" and s': "s' = put_reserve ?k (Some bal) s1"
    and r: "unat (reserved_balance E s1 t w) = (unat (reserved_balance E s t w) - unat (get_reserve s ?k)) + unat bal"
    and other: "\<forall>t' w'. t' \<noteq> t \<or> w' \<noteq> w \<longrightarrow> reserved_balance E s1 t' w' = reserved_balance E s t' w'"
    using clear_effect [OF assms(1,3)] by blast
  note fr = ownD [OF own]
  have fin: "fin_reserves s1" using assms(2) fin_reserves_same [OF fr(3)] by (simp add: solvent_def)
  have bk: "booked s1 = booked s" by (rule booked_same [OF fr(3)])
  have b: "booked s' t w + unat (get_reserve s ?k) = booked s t w + unat bal"
    using booked_put [OF fin, of RESERVE_FOR_AUTHORIZING w t dom_id "Some bal"] by (simp add: s' bk fr(9))
  have le: "booked s t' w' \<le> unat (reserved_balance E s t' w')" for t' w'
    using assms(2) by (simp add: solvent_def)
  have "booked s' t' w' \<le> unat (reserved_balance E s' t' w')" for t' w'
  proof (cases "t' = t \<and> w' = w")
    case True
    with b r le [of t w] show ?thesis by (simp add: s')
  next
    case False
    with other le [of t' w'] show ?thesis by (auto simp: s' booked_put_other bk)
  qed
  moreover have "receipts_backed s'"
    using assms(2) by (auto simp: solvent_def receipts_backed_def s' fr reserve_ids)
  ultimately show ?thesis using fin by (simp add: solvent_def s')
qed

end
