(* ===== verification/Fuso_Verifier_Inv.thy ===== *)
theory Fuso_Verifier_Inv
  imports Fuso_Verifier_Laws
begin

text \<open>
  The invariant of the verifier pallet and its preservation by every operation:

  \<^item> \<open>solvent\<close>: what the ledger \<open>Reserves\<close> holds is reserved in the token pallet;
  \<^item> \<open>staking_inv\<close>: a dominator's total is the sum of its stakings, and each staking is what
    the ledger holds for staking;
  \<^item> \<open>pending_inv\<close>: the unstaked amounts that wait for their block are what the ledger holds for
    them;
  \<^item> \<open>status_inv\<close>: a dominator is active only with enough staked, and nothing is staked on one
    that has only registered.

  A callback of the runtime is required to keep the invariant, as every call of the runtime does.
\<close>

section \<open>The invariant\<close>

definition stakers :: "('b, 'c, 'z) verifier_chain_scheme \<Rightarrow> account \<Rightarrow> account \<Rightarrow> staking option" where
  "stakers s d = (\<lambda>w. Stakings s (d, w))"

definition staking_inv :: "('b, 'x) verifier_env_scheme \<Rightarrow> ('b, 'c, 'z) verifier_chain_scheme \<Rightarrow> bool" where
  "staking_inv E s \<longleftrightarrow>
     (\<forall>d. finite (dom (stakers s d))) \<and>
     (\<forall>d D. get_dominator s d = Some D \<longrightarrow> d_staked D = msum stk_amount (stakers s d)) \<and>
     (\<forall>d w. get_dominator s d = None \<longrightarrow> Stakings s (d, w) = None) \<and>
     (\<forall>d w. get_reserve s ((RESERVE_FOR_STAKING, w, native_token_id E), d) = stk_amount (get_staking s (d, w)))"

definition pend :: "('b, 'c, 'z) verifier_chain_scheme \<Rightarrow> u32 \<Rightarrow> account \<Rightarrow> u128" where
  "pend s n w = (case map_of (PendingUnstakings s n) w of None \<Rightarrow> 0 | Some v \<Rightarrow> v)"

definition pending_inv :: "('b, 'x) verifier_env_scheme \<Rightarrow> ('b, 'c, 'z) verifier_chain_scheme \<Rightarrow> bool" where
  "pending_inv E s \<longleftrightarrow>
     (\<forall>n. distinct (map fst (PendingUnstakings s n))) \<and>
     (\<forall>w. unat (get_reserve s ((RESERVE_FOR_PENDING_UNSTAKE, w, native_token_id E), system_account E))
        = (\<Sum>n\<in>UNIV. unat (pend s n w)))"

definition status_inv :: "('b, 'x) verifier_env_scheme \<Rightarrow> ('b, 'c, 'z) verifier_chain_scheme \<Rightarrow> bool" where
  "status_inv E s \<longleftrightarrow>
     (\<forall>d D. get_dominator s d = Some D \<longrightarrow>
        d_status D \<le> DOMINATOR_EVICTED \<and>
        (d_status D = DOMINATOR_ACTIVE \<longrightarrow> DominatorOnlineThreshold E \<le> d_staked D) \<and>
        (d_status D = DOMINATOR_REGISTERED \<longrightarrow> d_staked D = 0))"

definition vrf_inv :: "('b, 'x) verifier_env_scheme \<Rightarrow> ('b, 'c, 'z) verifier_chain_scheme \<Rightarrow> bool" where
  "vrf_inv E s \<longleftrightarrow> solvent E s \<and> staking_inv E s \<and> pending_inv E s \<and> status_inv E s"

section \<open>Operations on authorised funds\<close>

text \<open>What the verification of proofs never changes.\<close>

definition dinfo :: "('b, 'c, 'z) verifier_chain_scheme \<Rightarrow> account \<Rightarrow> (bytes \<times> u128 \<times> u32 \<times> u8) option" where
  "dinfo s a = map_option (\<lambda>d. (d_name d, d_staked d, d_start_from d, d_status d)) (get_dominator s a)"

definition vframe :: "('b, 'c, 'z) verifier_chain_scheme \<Rightarrow> ('b, 'c, 'z) verifier_chain_scheme \<Rightarrow> bool" where
  "vframe s s' \<longleftrightarrow> dinfo s' = dinfo s \<and> Stakings s' = Stakings s \<and>
     PendingUnstakings s' = PendingUnstakings s \<and> block_number s' = block_number s \<and>
     (\<forall>i w t d. i \<noteq> RESERVE_FOR_AUTHORIZING \<longrightarrow> i \<noteq> RESERVE_FOR_AUTHORIZING_STASH \<longrightarrow>
        get_reserve s' ((i, w, t), d) = get_reserve s ((i, w, t), d))"

lemma dinfo_same: "Dominators s' = Dominators s \<Longrightarrow> dinfo s' = dinfo s"
  by (simp add: dinfo_def get_dominator_def fun_eq_iff)

lemma vframe_refl: "vframe s s" by (simp add: vframe_def)

lemma vframe_trans: "vframe s s1 \<Longrightarrow> vframe s1 s2 \<Longrightarrow> vframe s s2" by (simp add: vframe_def)

lemma vframe_own: "own s' = own s \<Longrightarrow> vframe s s'"
  using ownD [of s' s] dinfo_same [of s' s] by (simp add: vframe_def)

lemma vframe_put_reserve:
  "i = RESERVE_FOR_AUTHORIZING \<or> i = RESERVE_FOR_AUTHORIZING_STASH \<Longrightarrow> vframe s (put_reserve ((i, w, t), d) v s)"
  by (auto simp: vframe_def dinfo_def get_dominator_def)

lemma vframe_put_receipt: "vframe s (put_receipt k r s)"
  by (auto simp: vframe_def dinfo_def get_dominator_def get_reserve_def)

lemma dinfo_SomeD:
  assumes "dinfo s' = dinfo s" "get_dominator s' d = Some D'"
  shows "\<exists>D. get_dominator s d = Some D \<and> d_staked D = d_staked D' \<and> d_status D = d_status D' \<and>
    d_start_from D = d_start_from D' \<and> d_name D = d_name D'"
  using fun_cong [OF assms(1), of d] assms(2) by (cases "get_dominator s d") (auto simp: dinfo_def)

lemma dinfo_NoneD: "dinfo s' = dinfo s \<Longrightarrow> get_dominator s' d = None \<longleftrightarrow> get_dominator s d = None"
  by (drule fun_cong [of _ _ d]) (auto simp: dinfo_def)

lemma vrf_inv_vframe:
  assumes "vrf_inv E s" "vframe s s'" "solvent E s'"
  shows "vrf_inv E s'"
proof -
  have fr: "dinfo s' = dinfo s" "Stakings s' = Stakings s" "PendingUnstakings s' = PendingUnstakings s"
    and rs: "get_reserve s' ((RESERVE_FOR_STAKING, w, t), d) = get_reserve s ((RESERVE_FOR_STAKING, w, t), d)"
      "get_reserve s' ((RESERVE_FOR_PENDING_UNSTAKE, w, t), d) = get_reserve s ((RESERVE_FOR_PENDING_UNSTAKE, w, t), d)"
    for w t d using assms(2) by (simp_all add: vframe_def reserve_ids)
  have dom: "get_dominator s' d = Some D' \<Longrightarrow> \<exists>D. get_dominator s d = Some D \<and>
      d_staked D = d_staked D' \<and> d_status D = d_status D'" for d D'
    using dinfo_SomeD [OF fr(1)] by blast
  have "staking_inv E s'"
    using assms(1) rs dom fr(2) dinfo_NoneD [OF fr(1)]
    by (simp add: vrf_inv_def staking_inv_def stakers_def get_staking_def) (metis)
  moreover have "pending_inv E s'"
    using assms(1) rs fr(3) by (simp add: vrf_inv_def pending_inv_def pend_def)
  moreover have "status_inv E s'"
    using assms(1) dom unfolding vrf_inv_def status_inv_def by metis
  ultimately show ?thesis using assms(3) by (simp add: vrf_inv_def)
qed

lemma vframe_clear:
  assumes "balances_spec E" "clear E w dom_id t bal s = Inr s'"
  shows "vframe s s'"
proof -
  obtain s1 where "own s1 = own s" "s' = put_reserve ((RESERVE_FOR_AUTHORIZING, w, t), dom_id) (Some bal) s1"
    using clear_effect [OF assms] by blast
  then show ?thesis using vframe_own vframe_put_reserve vframe_trans by blast
qed

lemma save_trading_balances:
  "save_trading E w vol at s = Inr s' \<Longrightarrow> reserved_balance E' s' = reserved_balance E' s"
  by (rule balance_of_same(2))
    (auto simp: save_trading_def rotate_reward_def Let_def res_simps store_reward_def split: if_splits)

lemma solvent_save_trading: "solvent E s \<Longrightarrow> save_trading E w vol at s = Inr s' \<Longrightarrow> solvent E s'"
  by (rule solvent_own [OF _ own_save_trading]) (simp_all add: save_trading_balances)

text \<open>\<open>safe s s'\<close>: the shape of every lemma on the verification path.\<close>

definition safe ::
  "('b, 'x) verifier_env_scheme \<Rightarrow> ('b, 'c, 'z) verifier_chain_scheme \<Rightarrow> ('b, 'c, 'z) verifier_chain_scheme \<Rightarrow> bool" where
  "safe E s s' \<longleftrightarrow> (solvent E s \<longrightarrow> vframe s s' \<and> solvent E s')"

lemma safe_trans: "safe E s s1 \<Longrightarrow> safe E s1 s2 \<Longrightarrow> safe E s s2"
  unfolding safe_def using vframe_trans by blast

lemma safe_refl [simp]: "safe E s s" by (simp add: safe_def vframe_refl)

lemma safe_clear_user:
  assumes "balances_spec E" "clear_user E dom_id base quote m s = Inr s'"
  shows "safe E s s'"
proof -
  from assms(2) obtain s1 s2 where c: "clear E (tm_who m) dom_id base (base_value m) s = Inr s1"
    "clear E (tm_who m) dom_id quote (quote_value m) s1 = Inr s2"
    and sv: "save_trading E (tm_who m) (matched_volume m) (block_number s) s2 = Inr s'"
    by (auto simp: clear_user_def res_simps)
  have "safe E s s1" "safe E s1 s2"
    using vframe_clear [OF assms(1)] solvent_clear [OF assms(1)] c unfolding safe_def by blast+
  moreover have "safe E s2 s'"
    using vframe_own [OF own_save_trading [OF sv]] solvent_save_trading [OF _ sv] unfolding safe_def by blast
  ultimately show ?thesis using safe_trans by blast
qed

lemma safe_clear_users:
  assumes "balances_spec E"
  shows "rfold (clear_user E dom_id base quote) ms s = Inr s' \<Longrightarrow> safe E s s'"
proof (induction ms arbitrary: s)
  case Nil
  then show ?case by simp
next
  case (Cons m ms)
  then obtain s1 where "clear_user E dom_id base quote m s = Inr s1"
    "rfold (clear_user E dom_id base quote) ms s1 = Inr s'" by (auto simp: res_simps)
  with Cons.IH safe_clear_user [OF assms] show ?case using safe_trans by blast
qed

lemma safe_put_profit: "safe E s (put_profit dom_id season t bal s)"
proof -
  let ?s = "put_profit dom_id season t bal s"
  have eq: "Reserves ?s = Reserves s" "Receipts ?s = Receipts s" "Stakings ?s = Stakings s"
    "Dominators ?s = Dominators s" "PendingUnstakings ?s = PendingUnstakings s" "block_number ?s = block_number s"
    "Balances ?s = Balances s" "native ?s = native s"
    by (simp_all add: put_profit_def Let_def)
  then have "vframe s ?s" using dinfo_same [OF eq(4)] by (simp add: vframe_def get_reserve_def)
  moreover have "solvent E s \<Longrightarrow> solvent E ?s"
    by (rule solvent_frame) (simp_all add: eq balance_of_same(2) [OF eq(7,8)])
  ultimately show ?thesis by (simp add: safe_def)
qed

lemma safe_fee:
  assumes "balances_spec E"
    and "try_mutate_account E t w (\<lambda>b u. Inr ((fst b + v, snd b), u)) s = Inr s'"
  shows "safe E s s'"
proof -
  have own: "own s' = own s" by (rule own_mutate [OF assms(2)]) simp
  have "reserved_balance E s' t' w' = reserved_balance E s t' w'" for t' w'
    using mutate_effect [OF assms] by (cases "t' = t \<and> w' = w") auto
  then show ?thesis using vframe_own [OF own] solvent_own [OF _ own, of E] by (simp add: safe_def)
qed

lemma settle_elim:
  assumes "settle E dom_id season base quote cr tr s = Inr (tr', s')"
  obtains s1 where "s1 = s \<or> rfold (clear_user E dom_id base quote) (users_mutation cr) s = Inr s1"
    "s' = put_profit dom_id season quote (quote_fee cr) s1 \<or>
     try_mutate_account E base dom_id (\<lambda>b s. Inr ((fst b + base_fee cr, snd b), s))
       (put_profit dom_id season quote (quote_fee cr) s1) = Inr s'"
proof -
  from assms obtain s1 tr1 where
    s1: "(if length (users_mutation cr) > 1
            then rbind (rfold (clear_user E dom_id base quote) (users_mutation cr) s) (\<lambda>s1.
                   let t = last (users_mutation cr)
                   in Inr (tr\<lparr>trade_token := base, trade_amount := trade_amount tr + matched_amount t,
                              trade_vol := trade_vol tr + matched_volume t\<rparr>, s1))
            else Inr (tr, s)) = Inr (tr1, s1)"
    and s': "(if base_fee cr \<noteq> 0
               then try_mutate_account E base dom_id (\<lambda>b s. Inr ((fst b + base_fee cr, snd b), s))
                      (put_profit dom_id season quote (quote_fee cr) s1)
               else Inr (put_profit dom_id season quote (quote_fee cr) s1)) = Inr s'"
    unfolding settle_def Let_def by (auto simp: res_simps split: if_splits)
  show thesis
    by (rule that [of s1]) (use s1 s' in \<open>auto simp: res_simps Let_def split: if_splits\<close>)
qed

lemma safe_settle:
  assumes "balances_spec E" "settle E dom_id season base quote cr tr s = Inr (tr', s')"
  shows "safe E s s'"
  using assms(2)
proof (cases rule: settle_elim)
  case (1 s1)
  have "safe E s s1" using 1(1) safe_clear_users [OF assms(1)] by auto
  moreover have "safe E s1 (put_profit dom_id season quote (quote_fee cr) s1)" by (rule safe_put_profit)
  moreover have "safe E (put_profit dom_id season quote (quote_fee cr) s1) s'"
    using 1(2) safe_fee [OF assms(1)] by auto
  ultimately show ?thesis using safe_trans by blast
qed

lemma safe_step_forward:
  assumes "step_forward dom_id p (tr, s) = Inr (tr', s')"
  shows "safe E s s'"
proof -
  from assms obtain D where D: "get_dominator s dom_id = Some D"
    and s': "s' = put_dominator dom_id (D\<lparr>d_merkle_root := proof_root p, d_sequence := (event_id p, block_number s)\<rparr>) s"
    by (auto simp: step_forward_def res_simps)
  have "dinfo s' = dinfo s" by (auto simp: dinfo_def s' D fun_eq_iff)
  then have "vframe s s'" by (simp add: vframe_def) (simp add: s' get_reserve_def)
  moreover have "solvent E s \<Longrightarrow> solvent E s'" by (erule solvent_frame) (simp_all add: s')
  ultimately show ?thesis by (simp add: safe_def)
qed

lemma unreserve_own_rest:
  assumes "unreserve E i w t v d s = Inr s'"
  shows "Dominators s' = Dominators s" "Stakings s' = Stakings s" "PendingUnstakings s' = PendingUnstakings s"
    "block_number s' = block_number s" "Bonuses s' = Bonuses s"
proof -
  have "Dominators s' = Dominators s \<and> Stakings s' = Stakings s \<and> PendingUnstakings s' = PendingUnstakings s \<and>
    block_number s' = block_number s \<and> Bonuses s' = Bonuses s"
  proof (cases "v = 0")
    case True
    with assms show ?thesis by (simp add: unreserve_def)
  next
    case False
    with assms obtain s1 r where s1: "token_unreserve E t w v s = Inr s1"
      and s': "s' = put_reserve ((i, w, t), d) (if r > 0 then Some r else None) s1" by (rule unreserve_elim)
    show ?thesis using ownD [OF own_token_unreserve [OF s1]] by (simp add: s')
  qed
  then show "Dominators s' = Dominators s" "Stakings s' = Stakings s" "PendingUnstakings s' = PendingUnstakings s"
    "block_number s' = block_number s" "Bonuses s' = Bonuses s" by simp_all
qed

lemma reserve_own_rest:
  assumes "reserve E i w t v d s = Inr s'"
  shows "Dominators s' = Dominators s" "Stakings s' = Stakings s" "PendingUnstakings s' = PendingUnstakings s"
    "block_number s' = block_number s" "Bonuses s' = Bonuses s"
proof -
  have "Dominators s' = Dominators s \<and> Stakings s' = Stakings s \<and> PendingUnstakings s' = PendingUnstakings s \<and>
    block_number s' = block_number s \<and> Bonuses s' = Bonuses s"
  proof (cases "v = 0")
    case True
    with assms show ?thesis by (simp add: reserve_def)
  next
    case False
    with assms obtain s1 r where s1: "token_reserve E t w v s = Inr s1"
      and s': "s' = put_reserve ((i, w, t), d) (Some r) s1" by (rule reserve_elim)
    show ?thesis using ownD [OF own_token_reserve [OF s1]] by (simp add: s')
  qed
  then show "Dominators s' = Dominators s" "Stakings s' = Stakings s" "PendingUnstakings s' = PendingUnstakings s"
    "block_number s' = block_number s" "Bonuses s' = Bonuses s" by simp_all
qed

lemma vframe_unreserve:
  assumes "unreserve E RESERVE_FOR_AUTHORIZING w t v d s = Inr s'"
  shows "vframe s s'"
proof -
  have "get_reserve s' ((i, w', t'), d') = get_reserve s ((i, w', t'), d')" if "i \<noteq> RESERVE_FOR_AUTHORIZING" for i w' t' d'
    using unreserve_get(2) [OF assms, of "((i, w', t'), d')"] that by (simp add: word_unat_eq_iff)
  then show ?thesis
    using unreserve_own_rest [OF assms] dinfo_same [of s' s] by (simp add: vframe_def)
qed

lemma vframe_reserve:
  assumes "reserve E RESERVE_FOR_AUTHORIZING_STASH w t v d s = Inr s'"
  shows "vframe s s'"
proof -
  have "get_reserve s' ((i, w', t'), d') = get_reserve s ((i, w', t'), d')" if "i \<noteq> RESERVE_FOR_AUTHORIZING_STASH" for i w' t' d'
    using reserve_get(2) [OF assms, of "((i, w', t'), d')"] that by (simp add: word_unat_eq_iff)
  then show ?thesis
    using reserve_own_rest [OF assms] dinfo_same [of s' s] by (simp add: vframe_def)
qed

lemma safe_put_receipt_None: "safe E s (put_receipt (dex, w) None s)"
  using solvent_put_receipt [of E s None w dex] by (simp add: safe_def vframe_put_receipt)

lemma safe_unreserve:
  "balances_spec E \<Longrightarrow> unreserve E RESERVE_FOR_AUTHORIZING w t v d s = Inr s' \<Longrightarrow> safe E s s'"
  using solvent_unreserve [of E s RESERVE_FOR_AUTHORIZING w t v d s'] vframe_unreserve [of E w t v d s s']
  by (simp add: safe_def reserve_ids)

lemma safe_reject_out:
  "handle_reject_transfer_out dom_id c v p s = Inr s' \<Longrightarrow> safe E s s'"
  by (auto simp: handle_reject_transfer_out_def res_simps safe_put_receipt_None)

lemma safe_reject_in:
  "handle_reject_transfer_in dom_id p s = Inr s' \<Longrightarrow> safe E s s'"
  by (auto simp: handle_reject_transfer_in_def safe_put_receipt_None split: option.splits receipt.splits)

text \<open>Moving a stash into the authorised amount keeps the ledger within what it was.\<close>

lemma solvent_move:
  assumes "solvent E s" and "Receipts s' = Receipts s"
    and "reserved_balance E s' = reserved_balance E s"
    and "s' = put_reserve ka (Some v) (put_reserve ks None s)" and "ka \<noteq> ks"
    and "ka = ((RESERVE_FOR_AUTHORIZING, w, t), d)" "ks = ((RESERVE_FOR_AUTHORIZING_STASH, w, t), d)"
    and "unat v = unat (get_reserve s ka) + a" "a \<le> unat (get_reserve s ks)"
  shows "fin_reserves s' \<and> (\<forall>t w. booked s' t w \<le> unat (reserved_balance E s' t w))"
proof -
  let ?s1 = "put_reserve ks None s"
  have fin: "fin_reserves s" "fin_reserves ?s1" using assms(1) by (simp_all add: solvent_def assms(7))
  have "booked ?s1 t w + unat (get_reserve s ks) = booked s t w"
    using booked_put [OF fin(1), of RESERVE_FOR_AUTHORIZING_STASH w t d None] by (simp add: assms(7))
  moreover have "booked s' t w + unat (get_reserve s ka) = booked ?s1 t w + unat v"
    using booked_put [OF fin(2), of RESERVE_FOR_AUTHORIZING w t d "Some v"] assms(5)
    by (simp add: assms(4,6))
  ultimately have le: "booked s' t w \<le> booked s t w" using assms(8,9) by linarith
  have "booked s' t' w' \<le> unat (reserved_balance E s' t' w')" for t' w'
  proof (cases "t' = t \<and> w' = w")
    case True
    with le assms(1,3) show ?thesis by (auto simp: solvent_def intro: le_trans)
  next
    case False
    then have "booked s' t' w' = booked s t' w'" by (auto simp: assms(4,6,7) booked_put_other)
    with assms(1,3) show ?thesis by (simp add: solvent_def)
  qed
  with fin show ?thesis by (simp add: assms(4,6))
qed

lemma receipts_drop:
  assumes "receipts_backed s" and "Receipts s' = Receipts s"
    and "\<And>w' t' d'. (d', w') \<noteq> (d, w) \<Longrightarrow>
      get_reserve s' ((RESERVE_FOR_AUTHORIZING_STASH, w', t'), d') = get_reserve s ((RESERVE_FOR_AUTHORIZING_STASH, w', t'), d')"
  shows "receipts_backed (put_receipt (d, w) None s')"
  unfolding receipts_backed_def
proof (intro allI impI)
  fix dex w' t a n
  assume "Receipts (put_receipt (d, w) None s') (dex, w') = Some (Authorize t a n)"
  then have ne: "(dex, w') \<noteq> (d, w)" and r: "Receipts s (dex, w') = Some (Authorize t a n)"
    using assms(2) by (auto split: if_splits)
  from r assms(1) have "a \<le> get_reserve s ((RESERVE_FOR_AUTHORIZING_STASH, w', t), dex)"
    unfolding receipts_backed_def by blast
  also have "\<dots> = get_reserve s' ((RESERVE_FOR_AUTHORIZING_STASH, w', t), dex)" using assms(3) ne by metis
  also have "\<dots> = get_reserve (put_receipt (d, w) None s') ((RESERVE_FOR_AUTHORIZING_STASH, w', t), dex)"
    by (simp add: get_reserve_def)
  finally show "a \<le> get_reserve (put_receipt (d, w) None s') ((RESERVE_FOR_AUTHORIZING_STASH, w', t), dex)" .
qed

lemma safe_transfer_in:
  assumes "handle_transfer_in dom_id c v p s = Inr s'"
  shows "safe E s s'"
proof -
  let ?ka = "((RESERVE_FOR_AUTHORIZING, user_id p, c), dom_id)"
  let ?ks = "((RESERVE_FOR_AUTHORIZING_STASH, user_id p, c), dom_id)"
  have ne: "?ka \<noteq> ?ks" by (simp add: reserve_ids)
  from assms obtain r x where r: "Receipts s (dom_id, user_id p) = Some r" "authorize_matches c v r"
    and x: "unat x = unat (get_reserve s ?ka) + unat v"
    and s': "s' = put_receipt (dom_id, user_id p) None (put_reserve ?ka (Some x) (put_reserve ?ks None s))"
    using ne by (auto simp: handle_transfer_in_def Let_def res_simps checked_add_Some)
  let ?s2 = "put_reserve ?ka (Some x) (put_reserve ?ks None s)"
  have "vframe s s'"
    unfolding s' by (intro vframe_trans [OF _ vframe_put_receipt] vframe_trans [OF vframe_put_reserve vframe_put_reserve]) simp_all
  moreover have "solvent E s'" if sol: "solvent E s"
  proof -
    from r obtain n where "r = Authorize c v n" by (cases r) auto
    with sol r(1) have "v \<le> get_reserve s ?ks" unfolding solvent_def receipts_backed_def by blast
    then have "unat v \<le> unat (get_reserve s ?ks)" by (simp add: word_le_nat_alt)
    from solvent_move [OF sol _ _ refl ne refl refl x this]
    have "fin_reserves ?s2 \<and> (\<forall>t w. booked ?s2 t w \<le> unat (reserved_balance E ?s2 t w))" by simp
    moreover have "receipts_backed s'" unfolding s'
      by (rule receipts_drop [of s]) (use sol in \<open>auto simp: solvent_def reserve_ids\<close>)
    ultimately show ?thesis
      using booked_same [of s' ?s2] fin_reserves_same [of s' ?s2] by (simp add: solvent_def s')
  qed
  ultimately show ?thesis by (simp add: safe_def)
qed

text \<open>A callback may run any call of the runtime; what is assumed of it is that it keeps a property.\<close>

definition keeps ::
  "('c \<Rightarrow> account \<Rightarrow> 's \<Rightarrow> 's result) \<Rightarrow> ('s \<Rightarrow> bool) \<Rightarrow> bool" where
  "keeps disp P \<longleftrightarrow> (\<forall>cb w s s'. disp cb w s = Inr s' \<longrightarrow> P s \<longrightarrow> P s')"

lemma safe_inv: "safe E s s' \<Longrightarrow> vrf_inv E s \<Longrightarrow> vrf_inv E s'"
  using vrf_inv_vframe [of E s s'] by (auto simp: safe_def vrf_inv_def)

lemma transfer_out_elim:
  assumes "handle_transfer_out E disp dom_id c v p s = Inr s'"
  obtains r s1 where "Receipts s (dom_id, user_id p) = Some r" "revoke_matches c v r"
    "verify_transfer_out c v (user_id p) (leaves p) = Inr ()"
    "unreserve E RESERVE_FOR_AUTHORIZING (user_id p) c v dom_id s = Inr s1"
    "s' = put_receipt (dom_id, user_id p) None s1 \<or>
     (\<exists>t a n cb. r = RevokeWithCallback t a n cb \<and>
        disp cb (user_id p) (put_receipt (dom_id, user_id p) None s1) = Inr s')"
proof -
  from assms obtain r s1 where 1: "Receipts s (dom_id, user_id p) = Some r" "revoke_matches c v r"
    "verify_transfer_out c v (user_id p) (leaves p) = Inr ()"
    "unreserve E RESERVE_FOR_AUTHORIZING (user_id p) c v dom_id s = Inr s1"
    and s': "(case r of RevokeWithCallback _ _ _ cb \<Rightarrow>
        caught (disp cb (user_id p) (put_receipt (dom_id, user_id p) None s1)) (put_receipt (dom_id, user_id p) None s1)
      | _ \<Rightarrow> Inr (put_receipt (dom_id, user_id p) None s1)) = Inr s'"
    by (auto simp: handle_transfer_out_def Let_def res_simps)
  show thesis
    by (rule that [OF 1]) (use s' in \<open>auto simp: caught_eq_Inr split: receipt.splits\<close>)
qed

text \<open>The verification of proofs is made of safe steps and callbacks; it keeps every property that both keep.\<close>

definition kept_by_safe ::
  "('b, 'x) verifier_env_scheme \<Rightarrow> (('b, 'c, 'z) verifier_chain_scheme \<Rightarrow> bool) \<Rightarrow> bool" where
  "kept_by_safe E P \<longleftrightarrow> (\<forall>s s'. safe E s s' \<longrightarrow> P s \<longrightarrow> P s')"

lemma kept_by_safeD: "kept_by_safe E P \<Longrightarrow> safe E s s' \<Longrightarrow> P s \<Longrightarrow> P s'"
  unfolding kept_by_safe_def by blast

lemma kept_vrf_inv: "kept_by_safe E (vrf_inv E)"
  unfolding kept_by_safe_def using safe_inv by blast

lemma keep_transfer_out:
  assumes "balances_spec E" "kept_by_safe E P" "keeps disp P" "P s"
    and "handle_transfer_out E disp dom_id c v p s = Inr s'"
  shows "P s'"
  using assms(5)
proof (cases rule: transfer_out_elim)
  case (1 r s1)
  have "P (put_receipt (dom_id, user_id p) None s1)"
    by (rule kept_by_safeD [OF assms(2) safe_trans [OF safe_unreserve [OF assms(1) 1(4)] safe_put_receipt_None] assms(4)])
  with 1(5) assms(3) show ?thesis unfolding keeps_def by blast
qed

lemma keep_verify_and_update:
  assumes "balances_spec E" "kept_by_safe E P" "keeps disp P" "P s"
    and "verify_and_update E disp dom_id root claim_at p s = Inr (tr, s')"
  shows "P s'"
proof -
  note defs = verify_and_update_def Let_def res_simps
  note safeP = kept_by_safeD [OF assms(2)]
  have settled: "P s'" if "settle E dom_id season base quote cr t0 s = Inr ts"
    "step_forward dom_id p ts = Inr (tr, s')" for season base quote cr t0 ts
  proof -
    obtain t1 s1 where ts: "ts = (t1, s1)" by (cases ts)
    show ?thesis
      by (rule safeP [OF safe_trans [OF safe_settle [OF assms(1)] safe_step_forward] assms(4)])
        (use that in \<open>simp_all add: ts\<close>)
  qed
  have forward: "P s'" if "P s1" "step_forward dom_id p (t0, s1) = Inr (tr, s')" for s1 t0
    by (rule safeP [OF safe_step_forward [OF that(2)] that(1)])
  show ?thesis
  proof (cases "cmd p")
    case (AskLimit prc amount mf tf base quote)
    then show ?thesis using assms(5) settled by (auto simp: defs)
  next
    case (BidLimit prc amount mf tf base quote)
    then show ?thesis using assms(5) settled by (auto simp: defs)
  next
    case (Cancel base quote)
    then show ?thesis using assms(4,5) forward by (auto simp: defs)
  next
    case (TransferOut c v)
    then obtain s1 t0 where "handle_transfer_out E disp dom_id c v p s = Inr s1" "step_forward dom_id p (t0, s1) = Inr (tr, s')"
      using assms(5) by (auto simp: defs)
    then show ?thesis using keep_transfer_out [OF assms(1-4)] forward by blast
  next
    case (TransferIn c v)
    then obtain s1 t0 where "handle_transfer_in dom_id c v p s = Inr s1" "step_forward dom_id p (t0, s1) = Inr (tr, s')"
      using assms(5) by (auto simp: defs)
    then show ?thesis using safeP [OF safe_transfer_in assms(4)] forward by blast
  next
    case (RejectTransferOut c v)
    then show ?thesis using assms(5) safeP [OF safe_reject_out assms(4)] by (auto simp: defs)
  next
    case RejectTransferIn
    then show ?thesis using assms(5) safeP [OF safe_reject_in assms(4)] by (auto simp: defs)
  qed
qed

lemma safe_set_price: "safe E s (set_price E t a v at s)"
proof -
  let ?s = "set_price E t a v at s"
  have eq: "own ?s = own s" "Balances ?s = Balances s" "native ?s = native s"
    by (simp_all add: set_price_def Let_def own_def)
  then show ?thesis
    using vframe_own [OF eq(1)] solvent_own [OF _ eq(1), of E] balance_of_same(2) [OF eq(2,3), of E]
    by (simp add: safe_def)
qed

lemma safe_set_prices: "safe E s (set_prices E incr s)"
proof -
  have "safe E s (fold (\<lambda>(t, b, q) u. set_price E t b q at u) incr s)" for at
    by (induction incr arbitrary: s) (auto intro: safe_trans [OF safe_set_price])
  then show ?thesis by (simp add: set_prices_def)
qed

lemma keep_verify_batch:
  assumes "balances_spec E" "kept_by_safe E P" "keeps disp P" "P s"
    and "verify_batch E disp dom_id d ps s = Inr s'"
  shows "P s'"
proof -
  from assms(5) obtain root incr s1 where
    run: "rfold (verify_one E disp dom_id (d_start_from d)) ps (d_merkle_root d, [], s) = Inr (root, incr, s1)"
    and s': "s' = set_prices E incr s1"
    by (auto simp: verify_batch_def res_simps)
  have "P (snd (snd (root, incr, s1)))"
  proof (rule rfold_invariant [OF run, where P = "\<lambda>a. P (snd (snd a))"])
    show "P (snd (snd (d_merkle_root d, [], s)))" using assms(4) by simp
    fix p a a'
    assume "P (snd (snd a))" "verify_one E disp dom_id (d_start_from d) p a = Inr a'"
    then show "P (snd (snd a'))"
      using keep_verify_and_update [OF assms(1-3)] by (auto simp: verify_one_def res_simps split: prod.splits)
  qed
  then show ?thesis using kept_by_safeD [OF assms(2) safe_set_prices] by (simp add: s')
qed

lemma inv_verify_batch:
  "balances_spec E \<Longrightarrow> keeps disp (vrf_inv E) \<Longrightarrow> vrf_inv E s \<Longrightarrow>
   verify_batch E disp dom_id d ps s = Inr s' \<Longrightarrow> vrf_inv E s'"
  by (rule keep_verify_batch [OF _ kept_vrf_inv])

section \<open>Authorising and revoking\<close>

lemma safe_deposit: "safe E s (deposit_event e s)"
proof -
  have "solvent E s \<Longrightarrow> solvent E (deposit_event e s)" by (erule solvent_frame) simp_all
  then show ?thesis by (simp add: safe_def vframe_own)
qed

lemma safe_authorize_to:
  assumes "balances_spec E" "authorize_to E w dex t v s = Inr s'"
  shows "safe E s s'"
proof -
  from assms(2) obtain s1 n where res: "reserve E RESERVE_FOR_AUTHORIZING_STASH w t v dex s = Inr s1"
    and s': "s' = deposit_event (VerifierEv (TokenHosted w dex t v)) (put_receipt (dex, w) (Some (Authorize t v n)) s1)"
    by (auto simp: authorize_to_def res_simps)
  have "v \<le> get_reserve s1 ((RESERVE_FOR_AUTHORIZING_STASH, w, t), dex)"
    using reserve_get(2) [OF res, of "((RESERVE_FOR_AUTHORIZING_STASH, w, t), dex)"] by (simp add: word_le_nat_alt)
  then have "safe E s1 (put_receipt (dex, w) (Some (Authorize t v n)) s1)"
    using solvent_put_receipt [of E s1 "Some (Authorize t v n)" w dex] by (simp add: safe_def vframe_put_receipt)
  moreover have "safe E s s1"
    using solvent_reserve [OF assms(1) _ res] vframe_reserve [OF res] by (simp add: safe_def)
  ultimately show ?thesis unfolding s' using safe_trans safe_deposit by blast
qed

lemma merge_stash_effect:
  assumes "merge_stash w t d s = Inr s'"
  shows "vframe s s' \<and> Receipts s' = Receipts s \<and> reserved_balance E s' = reserved_balance E s \<and>
    (solvent E s \<longrightarrow> fin_reserves s' \<and> (\<forall>t w. booked s' t w \<le> unat (reserved_balance E s' t w))) \<and>
    (\<forall>w' t' d'. (d', w') \<noteq> (d, w) \<longrightarrow>
      get_reserve s' ((RESERVE_FOR_AUTHORIZING_STASH, w', t'), d') = get_reserve s ((RESERVE_FOR_AUTHORIZING_STASH, w', t'), d'))"
proof -
  let ?ka = "((RESERVE_FOR_AUTHORIZING, w, t), d)"
  let ?ks = "((RESERVE_FOR_AUTHORIZING_STASH, w, t), d)"
  have ne: "?ka \<noteq> ?ks" by (simp add: reserve_ids)
  show ?thesis
  proof (cases "get_reserve s ?ks > 0")
    case True
    with assms obtain x where x: "unat x = unat (get_reserve s ?ka) + unat (get_reserve s ?ks)"
      and s': "s' = put_reserve ?ka (Some x) (put_reserve ?ks None s)"
      using ne by (auto simp: merge_stash_def Let_def res_simps checked_add_Some put_reserve_def fun_upd_twist)
    have "vframe s s'"
      unfolding s' by (rule vframe_trans [OF vframe_put_reserve vframe_put_reserve]) simp_all
    moreover have "solvent E s \<longrightarrow> fin_reserves s' \<and> (\<forall>t w. booked s' t w \<le> unat (reserved_balance E s' t w))"
      using solvent_move [OF _ _ _ s' ne refl refl x, of E] by (simp add: s')
    ultimately show ?thesis by (auto simp: s' reserve_ids)
  next
    case False
    with assms have s': "s' = put_reserve ?ks None s" by (simp add: merge_stash_def Let_def)
    have "vframe s s'" unfolding s' by (rule vframe_put_reserve) simp
    moreover have "fin_reserves s' \<and> (\<forall>t w. booked s' t w \<le> unat (reserved_balance E s' t w))" if "solvent E s"
    proof -
      have fin: "fin_reserves s" using that by (simp add: solvent_def)
      have "get_reserve s ?ks = 0" using False by (simp add: word_greater_zero_iff)
      then have "booked s' t' w' = booked s t' w'" for t' w'
        using booked_put [OF fin, of RESERVE_FOR_AUTHORIZING_STASH w t d None]
        by (cases "t' = t \<and> w' = w") (auto simp: s' booked_put_other)
      with that fin show ?thesis by (simp add: solvent_def s')
    qed
    ultimately show ?thesis by (auto simp: s')
  qed
qed

lemma revoke_from_elim:
  assumes "revoke_from E w d t v cb s = Inr s'"
  obtains s3 where "s' = deposit_event (VerifierEv (TokenRevoked w d t v)) s3"
    "(\<exists>s1 s2. merge_stash w t d s = Inr s1 \<and> unreserve E RESERVE_FOR_AUTHORIZING w t v d s1 = Inr s2 \<and>
        s3 = put_receipt (d, w) None s2) \<or>
      (\<exists>r. s3 = put_receipt (d, w) (Some r) s \<and> (\<forall>t a n. r \<noteq> Authorize t a n))"
proof -
  from assms obtain D :: dominator and s3 where
    s3: "(if d_status D = DOMINATOR_EVICTED
            then rbind (merge_stash w t d s) (\<lambda>s1.
                 rbind (unreserve E RESERVE_FOR_AUTHORIZING w t v d s1) (\<lambda>s2.
                   Inr (put_receipt (d, w) None s2)))
            else ensure (Receipts s (d, w) = None) (VerifierE vrf_err.ReceiptAlreadyExists) (
                 let receipt = (case cb of
                       Some cb \<Rightarrow> RevokeWithCallback t v (block_number s) cb
                     | None \<Rightarrow> Revoke t v (block_number s))
                 in Inr (put_receipt (d, w) (Some receipt) s))) = Inr s3"
    and s': "s' = deposit_event (VerifierEv (TokenRevoked w d t v)) s3"
    unfolding revoke_from_def rbind_eq_Inr ensure_eq_Inr sum.inject
    by (elim conjE exE) (rule that, assumption, rule sym)
  show thesis
  proof (rule that [OF s'], cases "d_status D = DOMINATOR_EVICTED")
    case True
    with s3 show "(\<exists>s1 s2. merge_stash w t d s = Inr s1 \<and> unreserve E RESERVE_FOR_AUTHORIZING w t v d s1 = Inr s2 \<and>
        s3 = put_receipt (d, w) None s2) \<or>
      (\<exists>r. s3 = put_receipt (d, w) (Some r) s \<and> (\<forall>t a n. r \<noteq> Authorize t a n))"
      by (auto simp: rbind_eq_Inr)
  next
    case False
    with s3 show "(\<exists>s1 s2. merge_stash w t d s = Inr s1 \<and> unreserve E RESERVE_FOR_AUTHORIZING w t v d s1 = Inr s2 \<and>
        s3 = put_receipt (d, w) None s2) \<or>
      (\<exists>r. s3 = put_receipt (d, w) (Some r) s \<and> (\<forall>t a n. r \<noteq> Authorize t a n))"
      by (cases cb) (auto simp: ensure_eq_Inr Let_def)
  qed
qed

lemma safe_revoke_from:
  assumes "balances_spec E" "revoke_from E w d t v cb s = Inr s'"
  shows "safe E s s'"
proof -
  from assms(2) obtain s3 where s': "s' = deposit_event (VerifierEv (TokenRevoked w d t v)) s3"
    and alt: "(\<exists>s1 s2. merge_stash w t d s = Inr s1 \<and> unreserve E RESERVE_FOR_AUTHORIZING w t v d s1 = Inr s2 \<and>
        s3 = put_receipt (d, w) None s2) \<or>
      (\<exists>r. s3 = put_receipt (d, w) (Some r) s \<and> (\<forall>t a n. r \<noteq> Authorize t a n))"
    by (rule revoke_from_elim)
  from alt have "safe E s s3"
  proof
    assume "\<exists>r. s3 = put_receipt (d, w) (Some r) s \<and> (\<forall>t a n. r \<noteq> Authorize t a n)"
    then obtain r where s3: "s3 = put_receipt (d, w) (Some r) s" and r: "\<forall>t a n. r \<noteq> Authorize t a n" by blast
    have "solvent E s3" if "solvent E s"
      unfolding s3
    proof (rule solvent_put_receipt [OF that])
      fix t' a n assume "Some r = Some (Authorize t' a n)"
      then have "r = Authorize t' a n" by simp
      with r show "a \<le> get_reserve s ((RESERVE_FOR_AUTHORIZING_STASH, w, t'), d)" by blast
    qed
    then show ?thesis by (simp add: safe_def s3 vframe_put_receipt)
  next
    assume "\<exists>s1 s2. merge_stash w t d s = Inr s1 \<and> unreserve E RESERVE_FOR_AUTHORIZING w t v d s1 = Inr s2 \<and>
        s3 = put_receipt (d, w) None s2"
    then obtain s1 s2 where m: "merge_stash w t d s = Inr s1"
      and u: "unreserve E RESERVE_FOR_AUTHORIZING w t v d s1 = Inr s2" and s3: "s3 = put_receipt (d, w) None s2" by blast
    note eff = merge_stash_effect [OF m, of E]
    have "vframe s s3"
      unfolding s3 by (rule vframe_trans [OF vframe_trans [OF _ vframe_unreserve [OF u]] vframe_put_receipt]) (use eff in simp)
    moreover have "solvent E s3" if sol: "solvent E s"
    proof -
      have "solvent E s \<longrightarrow> fin_reserves s1 \<and> (\<forall>t w. booked s1 t w \<le> unat (reserved_balance E s1 t w))"
        using eff by (elim conjE)
      from mp [OF this sol] have fin: "fin_reserves s1" "\<forall>t w. booked s1 t w \<le> unat (reserved_balance E s1 t w)"
        by (rule conjunct1, rule conjunct2)
      have b: "fin_reserves s2 \<and> (\<forall>t w. booked s2 t w \<le> unat (reserved_balance E s2 t w))"
        by (rule cust.release_backed [OF assms(1) fin u])
      have "receipts_backed s3" unfolding s3
      proof (rule receipts_drop [of s])
        show "receipts_backed s" using sol by (simp add: solvent_def)
        show "Receipts s2 = Receipts s" using unreserve_get(1) [OF u] eff by simp
        show "get_reserve s2 ((RESERVE_FOR_AUTHORIZING_STASH, w', t'), d') = get_reserve s ((RESERVE_FOR_AUTHORIZING_STASH, w', t'), d')"
          if "(d', w') \<noteq> (d, w)" for w' t' d'
          using unreserve_get(2) [OF u, of "((RESERVE_FOR_AUTHORIZING_STASH, w', t'), d')"] eff that
          by (simp add: reserve_ids word_unat_eq_iff)
      qed
      with b show ?thesis
        using booked_same [of s3 s2] fin_reserves_same [of s3 s2] by (simp add: solvent_def s3)
    qed
    ultimately show ?thesis by (simp add: safe_def)
  qed
  then show ?thesis unfolding s' by (rule safe_trans [OF _ safe_deposit])
qed

section \<open>Staking\<close>

lemma owt_staking: "owt stk_amount (Stakings s k) = stk_amount (get_staking s k)"
  by (simp add: get_staking_def default_staking_def split: option.split)

lemma unat_add_eq: "unat c = unat a + unat b \<Longrightarrow> c = a + b" for a b c :: "'a::len word"
  by (simp add: checked_add_Some [symmetric] checked_add_value)

lemma staking_inv_update:
  assumes inv: "staking_inv E s" and D: "get_dominator s d = Some D"
    and dom: "\<And>a. get_dominator s' a = (if a = d then Some D' else get_dominator s a)"
    and stk: "Stakings s' = (Stakings s)((d, w) := v)"
    and res: "\<And>w' d'. get_reserve s' ((RESERVE_FOR_STAKING, w', native_token_id E), d') =
      (if w' = w \<and> d' = d then owt stk_amount v else get_reserve s ((RESERVE_FOR_STAKING, w', native_token_id E), d'))"
    and tot: "d_staked D' = d_staked D - stk_amount (get_staking s (d, w)) + owt stk_amount v"
  shows "staking_inv E s'"
proof -
  have sl: "stakers s' a = (if a = d then (stakers s d)(w := v) else stakers s a)" for a
    by (auto simp: stakers_def stk fun_eq_iff)
  have fin: "finite (dom (stakers s a))" for a using inv by (simp add: staking_inv_def)
  have "msum stk_amount (stakers s' d) = d_staked D'"
    using msum_update_group [OF fin [of d], of stk_amount w v] inv D tot owt_staking [of s "(d, w)"]
    by (simp add: sl staking_inv_def) (simp add: stakers_def)
  moreover have amt: "stk_amount (get_staking s' (a, b)) = (if b = w \<and> a = d then owt stk_amount v else stk_amount (get_staking s (a, b)))" for a b
    by (auto simp: get_staking_def stk default_staking_def split: option.split)
  moreover have "Stakings s' (a, b) = None" if "get_dominator s' a = None" for a b
    using that inv by (auto simp: dom stk staking_inv_def split: if_splits)
  moreover have "finite (dom (stakers s' a))" for a using fin by (simp add: sl)
  moreover have others: "d_staked D'' = msum stk_amount (stakers s' a)" if "get_dominator s' a = Some D''" "a \<noteq> d" for a D''
    using that inv by (simp add: dom sl staking_inv_def)
  ultimately show ?thesis
    unfolding staking_inv_def
  proof (intro conjI allI impI)
    fix a D'' assume "get_dominator s' a = Some D''"
    then show "d_staked D'' = msum stk_amount (stakers s' a)"
      using \<open>msum stk_amount (stakers s' d) = d_staked D'\<close> others by (cases "a = d") (auto simp: dom)
  next
    fix a b
    show "get_reserve s' ((RESERVE_FOR_STAKING, b, native_token_id E), a) = stk_amount (get_staking s' (a, b))"
      using inv by (simp add: res amt staking_inv_def)
  qed simp_all
qed

lemma pending_inv_same:
  assumes "pending_inv E s" "PendingUnstakings s' = PendingUnstakings s"
    and "\<And>w. get_reserve s' ((RESERVE_FOR_PENDING_UNSTAKE, w, native_token_id E), system_account E)
      = get_reserve s ((RESERVE_FOR_PENDING_UNSTAKE, w, native_token_id E), system_account E)"
  shows "pending_inv E s'"
  using assms by (simp add: pending_inv_def pend_def)

lemma status_inv_update:
  assumes "status_inv E s"
    and "\<And>a. get_dominator s' a = (if a = d then Some D' else get_dominator s a)"
    and "d_status D' \<le> DOMINATOR_EVICTED"
    and "d_status D' = DOMINATOR_ACTIVE \<Longrightarrow> DominatorOnlineThreshold E \<le> d_staked D'"
    and "d_status D' = DOMINATOR_REGISTERED \<Longrightarrow> d_staked D' = 0"
  shows "status_inv E s'"
  using assms by (auto simp: status_inv_def split: if_splits)

lemma online_status_simps:
  "online_status E n \<le> DOMINATOR_EVICTED" "online_status E n \<noteq> DOMINATOR_REGISTERED"
  "online_status E n = DOMINATOR_ACTIVE \<longleftrightarrow> DominatorOnlineThreshold E \<le> n"
  "online_status E n = DOMINATOR_INACTIVE \<longleftrightarrow> n < DominatorOnlineThreshold E"
  by (auto simp: online_status_def dominator_statuses not_le)

lemma stake_entry_elim:
  assumes "stake_entry E w d v D s = Inr s'"
  obtains s1 s2 season where "reserve E RESERVE_FOR_STAKING w (native_token_id E) v d s = Inr s1"
    "current_season E (block_number s) (d_start_from D) = Inr season"
    "own s2 = own s1" "balances_spec E \<longrightarrow> reserved_balance E s2 = reserved_balance E s1"
    "s' = put_staking (d, w) (Some \<lparr>from_season = season, stk_amount = stk_amount (get_staking s (d, w)) + v\<rparr>) s2"
proof -
  from assms obtain s1 s2 season n where 1: "reserve E RESERVE_FOR_STAKING w (native_token_id E) v d s = Inr s1"
    "current_season E (block_number s) (d_start_from D) = Inr season"
    and s2: "(if stk_amount (get_staking s (d, w)) \<noteq> 0
                then take_shares E w d
                       \<lparr>dist_from = from_season (get_staking s (d, w)), dist_to = season,
                        dist_staking = stk_amount (get_staking s (d, w))\<rparr> s1
                else Inr (season, s1)) = Inr (n, s2)"
    and s': "s' = put_staking (d, w) (Some \<lparr>from_season = season, stk_amount = stk_amount (get_staking s (d, w)) + v\<rparr>) s2"
    unfolding stake_entry_def Let_def by (auto simp: res_simps)
  have "own s2 = own s1" using s2 own_take_shares by (auto split: if_splits)
  moreover have "balances_spec E \<longrightarrow> reserved_balance E s2 = reserved_balance E s1"
    using s2 take_shares_reserved [of E w d _ s1] by (auto simp: fun_eq_iff split: if_splits)
  ultimately show thesis by (rule that [OF 1 _ _ s'])
qed

lemma stake_on_elim:
  assumes "stake_on E w d v s = Inr s'"
  obtains D s1 where "MinimalStakingAmount E \<le> v" "get_dominator s d = Some D"
    "d_status D = DOMINATOR_ACTIVE \<or> d_status D = DOMINATOR_INACTIVE"
    "stake_entry E w d v D s = Inr s1"
    "own s' = own (put_dominator d (D\<lparr>d_staked := d_staked D + v, d_status := online_status E (d_staked D + v)\<rparr>) s1)"
    "reserved_balance E s' = reserved_balance E s1"
proof -
  from assms obtain D s1 where 1: "MinimalStakingAmount E \<le> v" "get_dominator s d = Some D"
    "d_status D = DOMINATOR_ACTIVE \<or> d_status D = DOMINATOR_INACTIVE" "stake_entry E w d v D s = Inr s1"
    and s': "s' = put_dominator d (D\<lparr>d_staked := d_staked D + v, d_status := online_status E (d_staked D + v)\<rparr>)
       (if online_status E (d_staked D + v) = DOMINATOR_ACTIVE \<and> d_status D = DOMINATOR_INACTIVE
        then deposit_event (VerifierEv (DominatorOnline d)) (deposit_event (VerifierEv (TaoStaked w d v)) s1)
        else deposit_event (VerifierEv (TaoStaked w d v)) s1)"
    unfolding stake_on_def Let_def by (auto simp: res_simps)
  show thesis by (rule that [OF 1]) (simp_all add: s' own_def)
qed

lemma inv_stake_on:
  assumes "balances_spec E" "vrf_inv E s" "stake_on E w d v s = Inr s'"
  shows "vrf_inv E s'"
proof -
  from assms(3) obtain D s1 where D: "get_dominator s d = Some D" and ent: "stake_entry E w d v D s = Inr s1"
    and own': "own s' = own (put_dominator d (D\<lparr>d_staked := d_staked D + v, d_status := online_status E (d_staked D + v)\<rparr>) s1)"
    and rb': "reserved_balance E s' = reserved_balance E s1" by (rule stake_on_elim)
  from ent obtain s2 s3 season where r: "reserve E RESERVE_FOR_STAKING w (native_token_id E) v d s = Inr s2"
    and o3: "own s3 = own s2" and b3: "balances_spec E \<longrightarrow> reserved_balance E s3 = reserved_balance E s2"
    and s1: "s1 = put_staking (d, w) (Some \<lparr>from_season = season, stk_amount = stk_amount (get_staking s (d, w)) + v\<rparr>) s3"
    by (rule stake_entry_elim)
  let ?D = "D\<lparr>d_staked := d_staked D + v, d_status := online_status E (d_staked D + v)\<rparr>"
  note fr = ownD [OF own'] and rest = reserve_own_rest [OF r] and o = ownD [OF o3]
  have res: "get_reserve s' k = get_reserve s2 k" for k
    using fr(3) o(3) by (simp add: get_reserve_def s1)
  have dom: "get_dominator s' a = (if a = d then Some ?D else get_dominator s a)" for a
    using fr(8) o(2) rest(1) by (simp add: s1) (simp add: get_dominator_def)
  have sol: "solvent E s'"
  proof (rule solvent_frame)
    show "solvent E s2" by (rule solvent_reserve [OF assms(1) _ r]) (use assms(2) in \<open>simp add: vrf_inv_def\<close>)
    show "Reserves s' = Reserves s2" "Receipts s' = Receipts s2" using fr(1,3) o(1,3) by (simp_all add: s1)
    show "reserved_balance E s' = reserved_balance E s2" using rb' b3 assms(1) by (simp add: s1)
  qed
  have "staking_inv E s'"
  proof (rule staking_inv_update [OF _ D dom])
    show "staking_inv E s" using assms(2) by (simp add: vrf_inv_def)
    show "Stakings s' = (Stakings s)((d, w) := Some \<lparr>from_season = season, stk_amount = stk_amount (get_staking s (d, w)) + v\<rparr>)"
      using fr(5) o(5) rest(2) by (simp add: s1)
    have key: "get_reserve s ((RESERVE_FOR_STAKING, w, native_token_id E), d) = stk_amount (get_staking s (d, w))"
      using assms(2) by (simp add: vrf_inv_def staking_inv_def)
    show "get_reserve s' ((RESERVE_FOR_STAKING, w', native_token_id E), d') =
      (if w' = w \<and> d' = d then owt stk_amount (Some \<lparr>from_season = season, stk_amount = stk_amount (get_staking s (d, w)) + v\<rparr>)
       else get_reserve s ((RESERVE_FOR_STAKING, w', native_token_id E), d'))" for w' d'
    proof (cases "w' = w \<and> d' = d")
      case True
      have "unat (get_reserve s2 ((RESERVE_FOR_STAKING, w, native_token_id E), d)) = unat (stk_amount (get_staking s (d, w))) + unat v"
        using reserve_get(2) [OF r, of "((RESERVE_FOR_STAKING, w, native_token_id E), d)"] key by simp
      with True show ?thesis by (simp add: res unat_add_eq)
    next
      case False
      then show ?thesis
        using reserve_get(2) [OF r, of "((RESERVE_FOR_STAKING, w', native_token_id E), d')"]
        by (auto simp: res word_unat_eq_iff)
    qed
  qed simp
  moreover have "pending_inv E s'"
  proof (rule pending_inv_same)
    show "pending_inv E s" using assms(2) by (simp add: vrf_inv_def)
    show "PendingUnstakings s' = PendingUnstakings s" using fr(6) o(6) rest(3) by (simp add: s1)
    show "get_reserve s' ((RESERVE_FOR_PENDING_UNSTAKE, a, native_token_id E), system_account E)
      = get_reserve s ((RESERVE_FOR_PENDING_UNSTAKE, a, native_token_id E), system_account E)" for a
      using reserve_get(2) [OF r, of "((RESERVE_FOR_PENDING_UNSTAKE, a, native_token_id E), system_account E)"]
      by (simp add: res reserve_ids word_unat_eq_iff)
  qed
  moreover have "status_inv E s'"
    by (rule status_inv_update [OF _ dom]) (use assms(2) in \<open>simp_all add: vrf_inv_def online_status_simps\<close>)
  ultimately show ?thesis using sol by (simp add: vrf_inv_def)
qed

lemma sum_upd_point:
  fixes f g :: "'a::finite \<Rightarrow> nat"
  assumes "\<And>n. n \<noteq> k \<Longrightarrow> g n = f n"
  shows "(\<Sum>n\<in>UNIV. g n) + f k = (\<Sum>n\<in>UNIV. f n) + g k"
proof -
  have "(\<Sum>n\<in>UNIV. g n) = g k + (\<Sum>n\<in>UNIV - {k}. g n)" "(\<Sum>n\<in>UNIV. f n) = f k + (\<Sum>n\<in>UNIV - {k}. f n)"
    by (rule sum.remove; simp)+
  moreover have "(\<Sum>n\<in>UNIV - {k}. g n) = (\<Sum>n\<in>UNIV - {k}. f n)" by (rule sum.cong) (simp_all add: assms)
  ultimately show ?thesis by simp
qed

lemma add_pending_effect:
  assumes "add_pending at w v s = Inr s'"
  shows "\<exists>x. s' = s\<lparr>PendingUnstakings := (PendingUnstakings s)(at := AList.update w x (PendingUnstakings s at))\<rparr> \<and>
    unat x = unat (pend s at w) + unat v"
  using assms by (auto simp: add_pending_def Let_def res_simps checked_add_Some pend_def)

lemma unstake_entry_elim:
  assumes "unstake_entry E w d v D s = Inr s'"
  obtains stk remain s1 s2 season x at s4 where
    "Stakings s (d, w) = Some stk" "unat (stk_amount stk) = unat v + unat remain"
    "remain = 0 \<or> MinimalStakingAmount E \<le> remain"
    "unreserve E RESERVE_FOR_STAKING w (native_token_id E) v d s = Inr s1"
    "reserve E RESERVE_FOR_PENDING_UNSTAKE w (native_token_id E) v (system_account E) s1 = Inr s2"
    "at = block_number s - block_number s mod DominatorCheckGracePeriod E + UNSTAKE_DELAY_BLOCKS"
    "unat x = unat (pend s2 at w) + unat v"
    "own s4 = own (s2\<lparr>PendingUnstakings := (PendingUnstakings s2)(at := AList.update w x (PendingUnstakings s2 at))\<rparr>)"
    "balances_spec E \<longrightarrow> reserved_balance E s4 = reserved_balance E s2"
    "s' = put_staking (d, w) (if remain \<noteq> 0 then Some \<lparr>from_season = season, stk_amount = remain\<rparr> else None) s4"
proof -
  from assms obtain stk remain s1 s2 season m s3 n s4 where
    1: "Stakings s (d, w) = Some stk" "unat (stk_amount stk) = unat v + unat remain"
      "remain = 0 \<or> MinimalStakingAmount E \<le> remain"
      "unreserve E RESERVE_FOR_STAKING w (native_token_id E) v d s = Inr s1"
      "reserve E RESERVE_FOR_PENDING_UNSTAKE w (native_token_id E) v (system_account E) s1 = Inr s2"
    and m: "m = block_number s mod DominatorCheckGracePeriod E"
    and s3: "add_pending (block_number s - m + UNSTAKE_DELAY_BLOCKS) w v s2 = Inr s3"
    and s4: "take_shares E w d
              \<lparr>dist_from = from_season stk, dist_to = season, dist_staking = stk_amount stk\<rparr> s3 = Inr (n, s4)"
    and s': "s' = put_staking (d, w) (if remain \<noteq> 0 then Some \<lparr>from_season = season, stk_amount = remain\<rparr> else None) s4"
    unfolding unstake_entry_def rbind_eq_Inr ensure_eq_Inr ok_or_eq_Inr checked_sub_Some rem_u32_eq_Inr
      split_paired_Ex prod.case sum.inject
    by (elim exE conjE) (rule that; (assumption | (rule sym, assumption)))
  let ?at = "block_number s - m + UNSTAKE_DELAY_BLOCKS"
  obtain x where s3': "s3 = s2\<lparr>PendingUnstakings := (PendingUnstakings s2)(?at := AList.update w x (PendingUnstakings s2 ?at))\<rparr>"
    and x: "unat x = unat (pend s2 ?at w) + unat v"
    using add_pending_effect [OF s3] by blast
  have rb: "reserved_balance E s3 = reserved_balance E s2" by (rule balance_of_same(2)) (simp_all add: s3')
  show thesis
  proof (rule that [OF 1 _ _ _ _ s'])
    show "?at = block_number s - block_number s mod DominatorCheckGracePeriod E + UNSTAKE_DELAY_BLOCKS" by (simp add: m)
    show "unat x = unat (pend s2 ?at w) + unat v" by (rule x)
    show "own s4 = own (s2\<lparr>PendingUnstakings := (PendingUnstakings s2)(?at := AList.update w x (PendingUnstakings s2 ?at))\<rparr>)"
      using own_take_shares [OF s4] by (simp add: s3')
    show "balances_spec E \<longrightarrow> reserved_balance E s4 = reserved_balance E s2"
      using take_shares_reserved [OF _ s4] rb by (auto simp: fun_eq_iff)
  qed
qed

lemma unstake_from_elim:
  assumes "unstake_from E w d v s = Inr s'"
  obtains D tot s1 where "get_dominator s d = Some D" "d_status D \<noteq> DOMINATOR_REGISTERED"
    "unat (d_staked D) = unat v + unat tot" "unstake_entry E w d v D s = Inr s1"
    "own s' = own (put_dominator d (D\<lparr>d_staked := tot,
       d_status := (if d_status D \<noteq> DOMINATOR_EVICTED then online_status E tot else d_status D)\<rparr>) s1)"
    "reserved_balance E s' = reserved_balance E s1"
proof -
  from assms obtain D tot s1 where 1: "get_dominator s d = Some D" "d_status D \<noteq> DOMINATOR_REGISTERED"
    "unat (d_staked D) = unat v + unat tot" "unstake_entry E w d v D s = Inr s1"
    and s': "s' = (let d' = D\<lparr>d_staked := tot,
                  d_status := (if d_status D \<noteq> DOMINATOR_EVICTED then online_status E tot else d_status D)\<rparr>;
           s2 = deposit_event (VerifierEv (TaoUnstaked w d v)) s1;
           s3 = (if d_status d' = DOMINATOR_INACTIVE \<and> d_status D = DOMINATOR_ACTIVE
                 then deposit_event (VerifierEv (DominatorOffline d)) s2 else s2)
       in put_dominator d d' s3)"
    unfolding unstake_from_def by (auto simp: res_simps checked_sub_Some Let_def)
  show thesis by (rule that [OF 1]) (simp_all add: s' own_def Let_def)
qed

lemma unat_sub_eq: "unat a = unat b + unat c \<Longrightarrow> c = a - b" for a b c :: "'a::len word"
  by (simp add: checked_sub_Some [symmetric] checked_sub_value)

lemma inv_unstake_from:
  assumes "balances_spec E" "vrf_inv E s" "unstake_from E w d v s = Inr s'"
  shows "vrf_inv E s'"
proof -
  from assms(3) obtain D tot s1 where D: "get_dominator s d = Some D" and nr: "d_status D \<noteq> DOMINATOR_REGISTERED"
    and tot: "unat (d_staked D) = unat v + unat tot" and ent: "unstake_entry E w d v D s = Inr s1"
    and own': "own s' = own (put_dominator d (D\<lparr>d_staked := tot,
       d_status := (if d_status D \<noteq> DOMINATOR_EVICTED then online_status E tot else d_status D)\<rparr>) s1)"
    and rb': "reserved_balance E s' = reserved_balance E s1" by (rule unstake_from_elim)
  from ent obtain stk remain s2 s3 season x at s4 where
    stk: "Stakings s (d, w) = Some stk" "unat (stk_amount stk) = unat v + unat remain"
    and u: "unreserve E RESERVE_FOR_STAKING w (native_token_id E) v d s = Inr s2"
    and r: "reserve E RESERVE_FOR_PENDING_UNSTAKE w (native_token_id E) v (system_account E) s2 = Inr s3"
    and x: "unat x = unat (pend s3 at w) + unat v"
    and o4: "own s4 = own (s3\<lparr>PendingUnstakings := (PendingUnstakings s3)(at := AList.update w x (PendingUnstakings s3 at))\<rparr>)"
    and b4: "balances_spec E \<longrightarrow> reserved_balance E s4 = reserved_balance E s3"
    and s1: "s1 = put_staking (d, w) (if remain \<noteq> 0 then Some \<lparr>from_season = season, stk_amount = remain\<rparr> else None) s4"
    by (rule unstake_entry_elim)
  let ?D = "D\<lparr>d_staked := tot, d_status := (if d_status D \<noteq> DOMINATOR_EVICTED then online_status E tot else d_status D)\<rparr>"
  let ?v = "if remain \<noteq> 0 then Some \<lparr>from_season = season, stk_amount = remain\<rparr> else None"
  note fr = ownD [OF own'] and o = ownD [OF o4]
    and ru = unreserve_own_rest [OF u] and rr = reserve_own_rest [OF r]
  have res: "get_reserve s' k = get_reserve s3 k" for k using fr(3) o(3) by (simp add: get_reserve_def s1)
  have g: "unat (get_reserve s' k) + (if k = ((RESERVE_FOR_STAKING, w, native_token_id E), d) then unat v else 0) =
      unat (get_reserve s k) + (if k = ((RESERVE_FOR_PENDING_UNSTAKE, w, native_token_id E), system_account E) then unat v else 0)" for k
    using unreserve_get(2) [OF u, of k] reserve_get(2) [OF r, of k] by (simp add: res)
  have dom: "get_dominator s' a = (if a = d then Some ?D else get_dominator s a)" for a
    using fr(8) o(2) ru(1) rr(1) by (simp add: s1) (simp add: get_dominator_def)
  have sol: "solvent E s'"
  proof (rule solvent_frame)
    have "solvent E s2"
      by (rule solvent_unreserve [OF assms(1) _ u]) (use assms(2) in \<open>simp_all add: vrf_inv_def reserve_ids\<close>)
    then show "solvent E s3" by (rule solvent_reserve [OF assms(1) _ r])
    show "Reserves s' = Reserves s3" "Receipts s' = Receipts s3" using fr(1,3) o(1,3) by (simp_all add: s1)
    show "reserved_balance E s' = reserved_balance E s3" using rb' b4 assms(1) by (simp add: s1)
  qed
  have si: "staking_inv E s" and pinv: "pending_inv E s" and sti: "status_inv E s"
    using assms(2) by (simp_all add: vrf_inv_def)
  have key: "get_reserve s ((RESERVE_FOR_STAKING, w, native_token_id E), d) = stk_amount stk"
    using si stk(1) by (simp add: staking_inv_def get_staking_def)
  have "staking_inv E s'"
  proof (rule staking_inv_update [OF si D dom])
    show "Stakings s' = (Stakings s)((d, w) := ?v)" using fr(5) o(5) ru(2) rr(2) by (simp add: s1)
    show "get_reserve s' ((RESERVE_FOR_STAKING, w', native_token_id E), d') =
      (if w' = w \<and> d' = d then owt stk_amount ?v else get_reserve s ((RESERVE_FOR_STAKING, w', native_token_id E), d'))" for w' d'
      using g [of "((RESERVE_FOR_STAKING, w', native_token_id E), d')"] key stk(2)
      by (auto simp: word_unat_eq_iff reserve_ids split: if_splits)
    show "d_staked ?D = d_staked D - stk_amount (get_staking s (d, w)) + owt stk_amount ?v"
      using unat_sub_eq [OF tot] unat_sub_eq [OF stk(2)] stk(1) by (auto simp: get_staking_def)
  qed
  moreover have "pending_inv E s'"
  proof -
    have P: "PendingUnstakings s' = (PendingUnstakings s)(at := AList.update w x (PendingUnstakings s at))"
      using fr(6) o(6) ru(3) rr(3) by (simp add: s1)
    have x': "unat x = unat (pend s at w) + unat v" using x ru(3) rr(3) by (simp add: pend_def)
    have pd: "pend s' n a = (if n = at \<and> a = w then x else pend s n a)" for n a
      by (auto simp: pend_def P update_conv')
    have "unat (get_reserve s' ((RESERVE_FOR_PENDING_UNSTAKE, a, native_token_id E), system_account E))
        = (\<Sum>n\<in>UNIV. unat (pend s' n a))" for a
    proof -
      have "(\<Sum>n\<in>UNIV. unat (pend s' n a)) + unat (pend s at a) = (\<Sum>n\<in>UNIV. unat (pend s n a)) + unat (pend s' at a)"
        by (rule sum_upd_point) (simp add: pd)
      then show ?thesis
        using g [of "((RESERVE_FOR_PENDING_UNSTAKE, a, native_token_id E), system_account E)"] pinv x'
        by (auto simp: pending_inv_def pd reserve_ids split: if_splits)
    qed
    moreover have "distinct (map fst (PendingUnstakings s' n))" for n
      using pinv by (simp add: P pending_inv_def distinct_update)
    ultimately show ?thesis by (simp add: pending_inv_def)
  qed
  moreover have "status_inv E s'"
  proof (cases "d_status D = DOMINATOR_EVICTED")
    case True
    then show ?thesis by (intro status_inv_update [OF sti dom]) (simp_all add: dominator_statuses)
  next
    case False
    then show ?thesis by (intro status_inv_update [OF sti dom]) (simp_all add: online_status_simps)
  qed
  ultimately show ?thesis using sol by (simp add: vrf_inv_def)
qed

end
