(* ===== verification/Fuso_Verifier_Steps.thy ===== *)
theory Fuso_Verifier_Steps
  imports Fuso_Verifier_Inv Fuso_Reward_Props
begin

text \<open>
  The remaining operations of the verifier pallet keep the invariant, the block hook included; the
  step relation \<open>vrf_step\<close> collects the pallet's calls and its hook, and every state that they
  reach from an empty pallet satisfies the invariant.
\<close>

section \<open>Claims, registration and settings\<close>

lemma inv_claim_shares:
  assumes "balances_spec E" "vrf_inv E s" "claim_shares E orig target s = Inr s'"
  shows "vrf_inv E s'"
proof -
  from assms(3) obtain w d D stk season n s1 where D: "get_dominator s d = Some D"
    and stk: "Stakings s (d, w) = Some stk"
    and t: "take_shares E w d \<lparr>dist_from = from_season stk, dist_to = season, dist_staking = stk_amount stk\<rparr> s = Inr (n, s1)"
    and s': "s' = put_staking (d, w) (Some (stk\<lparr>from_season := n\<rparr>)) s1"
    unfolding claim_shares_def by (auto simp: res_simps)
  note o = ownD [OF own_take_shares [OF t]]
  have sol: "solvent E s'"
    by (rule solvent_frame [OF solvent_take_shares [OF assms(1) _ t]])
      (use assms(2) in \<open>simp_all add: s' vrf_inv_def\<close>)
  have res: "get_reserve s' k = get_reserve s k" for k using o(3) by (simp add: s' get_reserve_def)
  have si: "staking_inv E s" using assms(2) by (simp add: vrf_inv_def)
  have dom: "get_dominator s' a = (if a = d then Some D else get_dominator s a)" for a
    using o(2) D by (simp add: s' get_dominator_def)
  have "staking_inv E s'"
  proof (rule staking_inv_update [OF si D dom])
    show "Stakings s' = (Stakings s)((d, w) := Some (stk\<lparr>from_season := n\<rparr>))" using o(5) by (simp add: s')
    show "get_reserve s' ((RESERVE_FOR_STAKING, w', native_token_id E), d') =
      (if w' = w \<and> d' = d then owt stk_amount (Some (stk\<lparr>from_season := n\<rparr>))
       else get_reserve s ((RESERVE_FOR_STAKING, w', native_token_id E), d'))" for w' d'
      using si stk by (simp add: res staking_inv_def get_staking_def)
  qed (simp add: get_staking_def stk)
  moreover have "pending_inv E s'"
    by (rule pending_inv_same) (use assms(2) o(6) in \<open>simp_all add: vrf_inv_def res\<close>, simp_all add: s')
  moreover have "status_inv E s'"
    using assms(2) dom D by (auto simp: vrf_inv_def status_inv_def split: if_splits)
  ultimately show ?thesis using sol by (simp add: vrf_inv_def)
qed

lemma inv_put_dominator:
  assumes "vrf_inv E s"
    and "d_staked D' = (case get_dominator s d of None \<Rightarrow> 0 | Some D \<Rightarrow> d_staked D)"
    and "d_status D' \<le> DOMINATOR_EVICTED"
    and "d_status D' = DOMINATOR_ACTIVE \<Longrightarrow> DominatorOnlineThreshold E \<le> d_staked D'"
    and "d_status D' = DOMINATOR_REGISTERED \<Longrightarrow> d_staked D' = 0"
  shows "vrf_inv E (put_dominator d D' s)"
proof -
  let ?s = "put_dominator d D' s"
  have si: "staking_inv E s" using assms(1) by (simp add: vrf_inv_def)
  have "solvent E ?s" by (rule solvent_frame [of E s]) (use assms(1) in \<open>simp_all add: vrf_inv_def\<close>)
  moreover have "pending_inv E ?s"
    by (rule pending_inv_same [of E s]) (use assms(1) in \<open>simp_all add: vrf_inv_def get_reserve_def\<close>)
  moreover have "status_inv E ?s"
    by (rule status_inv_update [of E s _ d D']) (use assms in \<open>simp_all add: vrf_inv_def\<close>)
  moreover have "staking_inv E ?s"
  proof -
    have "d_staked D' = msum stk_amount (stakers s d)"
    proof (cases "get_dominator s d")
      case None
      then have "stakers s d = Map.empty" using si by (auto simp: staking_inv_def stakers_def)
      with None assms(2) show ?thesis by simp
    next
      case (Some D)
      with si assms(2) show ?thesis by (simp add: staking_inv_def)
    qed
    with si show ?thesis by (auto simp: staking_inv_def stakers_def get_staking_def get_reserve_def split: if_splits)
  qed
  ultimately show ?thesis by (simp add: vrf_inv_def)
qed

lemma inv_own:
  fixes s s' :: "('b, 'c, 'z) verifier_chain_scheme"
  assumes "vrf_inv E s" "own s' = own s" "reserved_balance E s' = reserved_balance E s"
  shows "vrf_inv E s'"
  by (rule vrf_inv_vframe [OF assms(1) vframe_own [OF assms(2)]])
    (use assms in \<open>auto simp: vrf_inv_def intro: solvent_own\<close>)

lemma inv_deposit: "vrf_inv E s \<Longrightarrow> vrf_inv E (deposit_event e s)"
  by (rule inv_own) simp_all

lemma register_elim:
  assumes "register E orig name s = Inr s'"
  obtains d m where "orig = Signed d" "get_dominator s d = None"
    "s' = deposit_event (VerifierEv (DominatorClaimed d))
       (put_dominator d \<lparr>d_name = name, d_staked = 0, d_merkle_root = replicate 32 0,
          d_start_from = block_number s - m, d_sequence = (0, block_number s), d_status = DOMINATOR_REGISTERED\<rparr> s)"
    "valid_identifier name" "find (\<lambda>d. d_name (snd d) = name) (Dominators s) = None"
  using assms unfolding register_def Let_def by (auto simp: res_simps)

lemma inv_register:
  assumes "vrf_inv E s" "register E orig name s = Inr s'"
  shows "vrf_inv E s'"
  using assms(2)
proof (cases rule: register_elim)
  case (1 d m)
  show ?thesis unfolding 1(3)
    by (intro inv_deposit inv_put_dominator [OF assms(1)]) (simp_all add: 1(2) dominator_statuses)
qed

lemma inv_evict:
  assumes "vrf_inv E s" "evict E orig target s = Inr s'"
  shows "vrf_inv E s'"
proof -
  from assms(2) obtain d D where D: "get_dominator s d = Some D"
    and s': "s' = deposit_event (VerifierEv (vrf_event.DominatorEvicted d)) (put_dominator d (D\<lparr>d_status := DOMINATOR_EVICTED\<rparr>) s)"
    unfolding evict_def by (auto simp: res_simps)
  show ?thesis unfolding s'
    by (intro inv_deposit inv_put_dominator [OF assms(1)]) (simp_all add: D dominator_statuses)
qed

lemma inv_launch:
  assumes "vrf_inv E s" "launch E orig target s = Inr s'"
  shows "vrf_inv E s'"
proof -
  from assms(2) obtain d D where D: "get_dominator s d = Some D" "d_status D = DOMINATOR_REGISTERED"
    and s': "s' = deposit_event (VerifierEv (vrf_event.DominatorInactive d)) (put_dominator d (D\<lparr>d_status := DOMINATOR_INACTIVE\<rparr>) s)"
    unfolding launch_def by (auto simp: res_simps)
  show ?thesis unfolding s'
    by (intro inv_deposit inv_put_dominator [OF assms(1)]) (simp_all add: D dominator_statuses)
qed

lemma put_setting_frame [simp]:
  "own (put_setting d x s) = own s" "reserved_balance E (put_setting d x s) = reserved_balance E s"
  by (simp add: put_setting_def own_def) (rule balance_of_same(2); simp add: put_setting_def)

lemma inc_nonce_frame [simp]:
  "own (inc_account_nonce w s) = own s" "reserved_balance E (inc_account_nonce w s) = reserved_balance E s"
  by (simp add: inc_account_nonce_def own_def) (rule balance_of_same(2); simp add: inc_account_nonce_def)

lemma set_beneficiary_elim:
  assumes "dominator_set_beneficiary E orig w sig s = Inr s'"
  obtains d x s1 where "s' = put_setting d x s1" "s1 = s \<or> (\<exists>a. s1 = inc_account_nonce a s)"
proof (cases orig)
  case (Signed d)
  show ?thesis
  proof (cases "DominatorSettings s d")
    case None
    with Signed assms that [of d _ s] show ?thesis by (auto simp: dominator_set_beneficiary_def res_simps)
  next
    case (Some st)
    with Signed assms obtain s1 where "validate_beneficiary E (ds_beneficiary st) sig w s = Inr s1"
      "s' = put_setting d (st\<lparr>ds_beneficiary := Some w\<rparr>) s1"
      by (auto simp: dominator_set_beneficiary_def res_simps)
    then show ?thesis
      by (intro that [of d "st\<lparr>ds_beneficiary := Some w\<rparr>" s1])
        (auto simp: validate_beneficiary_def Let_def split: option.splits if_splits)
  qed
qed (use assms in \<open>simp_all add: dominator_set_beneficiary_def\<close>)

lemma settings_frame:
  shows "dominator_set_pubkey orig key s = Inr s' \<Longrightarrow> own s' = own s \<and> reserved_balance E s' = reserved_balance E s"
    "dominator_set_rpc_endpoint orig key s = Inr s' \<Longrightarrow> own s' = own s \<and> reserved_balance E s' = reserved_balance E s"
    "dominator_set_beneficiary E' orig w sig s = Inr s' \<Longrightarrow> own s' = own s \<and> reserved_balance E s' = reserved_balance E s"
    "broker_set_rpc_endpoint orig key s = Inr s' \<Longrightarrow> own s' = own s \<and> reserved_balance E s' = reserved_balance E s"
proof -
  show "dominator_set_pubkey orig key s = Inr s' \<Longrightarrow> own s' = own s \<and> reserved_balance E s' = reserved_balance E s"
    by (auto simp: dominator_set_pubkey_def Let_def res_simps)
  show "dominator_set_rpc_endpoint orig key s = Inr s' \<Longrightarrow> own s' = own s \<and> reserved_balance E s' = reserved_balance E s"
    by (auto simp: dominator_set_rpc_endpoint_def Let_def res_simps)
  show "dominator_set_beneficiary E' orig w sig s = Inr s' \<Longrightarrow> own s' = own s \<and> reserved_balance E s' = reserved_balance E s"
    by (erule set_beneficiary_elim) auto
  assume "broker_set_rpc_endpoint orig key s = Inr s'"
  then have "own s' = own s" "Balances s' = Balances s" "native s' = native s"
    by (auto simp: broker_set_rpc_endpoint_def res_simps own_def)
  then show "own s' = own s \<and> reserved_balance E s' = reserved_balance E s" using balance_of_same(2) by blast
qed

lemma inv_settings:
  assumes "vrf_inv E s"
  shows "dominator_set_pubkey orig key s = Inr s' \<Longrightarrow> vrf_inv E s'"
    "dominator_set_rpc_endpoint orig key s = Inr s' \<Longrightarrow> vrf_inv E s'"
    "dominator_set_beneficiary E' orig w sig s = Inr s' \<Longrightarrow> vrf_inv E s'"
    "broker_set_rpc_endpoint orig key s = Inr s' \<Longrightarrow> vrf_inv E s'"
  using settings_frame(1,2,4) [of orig key s s' E] settings_frame(3) [of E' orig w sig s s' E] inv_own [OF assms, of s']
  by blast+

lemma transfer_native_reserved:
  assumes "balances_spec E" "transfer_token E a (native_token_id E) v b s = Inr s'"
  shows "reserved_balance E s' = reserved_balance E s"
proof (cases "v = 0")
  case True
  with assms(2) show ?thesis by (simp add: transfer_token_def)
next
  case False
  with assms(2) obtain n where n: "bal_transfer E a b v (native s) = Inr n" and s': "s' = s\<lparr>native := n\<rparr>"
    by (auto simp: transfer_token_def res_simps)
  show ?thesis
    using balances_transferD(1) [OF assms(1) n]
    by (auto simp: s' fun_eq_iff reserved_balance_def get_token_balance_def)
qed

lemma inv_register_broker:
  assumes "balances_spec E" "vrf_inv E s" "register_broker E orig e w s = Inr s'"
  shows "vrf_inv E s'"
proof -
  from assms(3) obtain a s1 b where t: "transfer_token E a (native_token_id E) (BrokerStakingThreshold E) (system_account E) s = Inr s1"
    and s': "s' = s1\<lparr>Brokers := b\<rparr>"
    unfolding register_broker_def Let_def by (auto simp: res_simps)
  have "vrf_inv E s1"
    by (rule inv_own [OF assms(2) own_transfer [OF t] transfer_native_reserved [OF assms(1) t]])
  moreover have "own s' = own s1" by (simp add: s' own_def)
  moreover have "reserved_balance E s' = reserved_balance E s1" by (rule balance_of_same(2)) (simp_all add: s')
  ultimately show ?thesis by (rule inv_own)
qed

section \<open>The block hook\<close>

lemma save_season_bonuses:
  assumes "save_season E now p s = Inr s'"
  shows "\<exists>B. s' = s\<lparr>Bonuses := B\<rparr>"
proof -
  have "\<exists>B. s = s\<lparr>Bonuses := B\<rparr>" by (rule exI [of _ "Bonuses s"]) simp
  with assms show ?thesis by (auto simp: save_season_def Let_def res_simps split: prod.splits if_splits)
qed

lemma save_seasons_bonuses: "rfold (save_season E now) ps s = Inr s' \<Longrightarrow> \<exists>B. s' = s\<lparr>Bonuses := B\<rparr>"
proof (induction ps arbitrary: s)
  case Nil
  then show ?case by (auto intro: exI [of _ "Bonuses s"])
next
  case (Cons p ps)
  then obtain s1 where 1: "save_season E now p s = Inr s1" and 2: "rfold (save_season E now) ps s1 = Inr s'"
    by (auto simp: res_simps)
  from save_season_bonuses [OF 1] Cons.IH [OF 2] show ?case by auto
qed

text \<open>A release of what the ledger holds of the native currency cannot fail, and the released amount is
  free afterwards.\<close>

lemma unreserve_succeeds:
  assumes "fin_reserves s" "booked s (native_token_id E) w \<le> unat (reserved_balance E s (native_token_id E) w)"
    and "unat v \<le> unat (get_reserve s ((i, w, native_token_id E), d))"
  shows "\<exists>s'. unreserve E i w (native_token_id E) v d s = Inr s'"
proof (cases "v = 0")
  case True
  then show ?thesis by (simp add: unreserve_def)
next
  case False
  let ?k = "((i, w, native_token_id E), d)"
  have "unat v \<le> unat (reserved_balance E s (native_token_id E) w)"
    using assms get_reserve_le_booked [of s i w "native_token_id E" d] by linarith
  then have le: "v \<le> bal_reserved E (native s) w" by (simp add: word_le_nat_alt reserved_balance_def)
  obtain r where r: "Reserves s ?k = Some r" and "v \<le> r"
    using assms(3) False by (cases "Reserves s ?k") (auto simp: get_reserve_def word_le_nat_alt unat_eq_zero)
  with le False show ?thesis
    by (auto simp: unreserve_def Let_def token_unreserve_def checked_sub_def)
qed

lemma unreserve_free:
  assumes "balances_spec E" "unreserve E i w t v d s = Inr s'"
  shows "unat (free_balance E s' t' a) = unat (free_balance E s t' a) + (if t' = t \<and> a = w then unat v else 0)"
proof -
  obtain s2 where t: "token_unreserve E t w v s = Inr s2" and fb: "free_balance E s' = free_balance E s2"
    using unreserve_by_token [OF assms(2)] by blast
  show ?thesis
    using tok.unreserve_free [OF assms(1) t] tok.unreserve_frame [OF assms(1) t, of t' a] by (auto simp: fb)
qed

definition pkey :: "('b, 'x) verifier_env_scheme \<Rightarrow> account \<Rightarrow> (u8 \<times> account \<times> token_id) \<times> account" where
  "pkey E w = ((RESERVE_FOR_PENDING_UNSTAKE, w, native_token_id E), system_account E)"

definition owed :: "(account \<times> u128) list \<Rightarrow> account \<Rightarrow> nat" where
  "owed due w = owt unat (map_of due w)"

text \<open>What the release of a list of due amounts does.\<close>

definition unlocked ::
  "('b, 'x) verifier_env_scheme \<Rightarrow> (account \<times> u128) list \<Rightarrow> ('b, 'c, 'z) verifier_chain_scheme
    \<Rightarrow> ('b, 'c, 'z) verifier_chain_scheme \<Rightarrow> bool" where
  "unlocked E due s s' \<longleftrightarrow> solvent E s' \<and> Dominators s' = Dominators s \<and> Stakings s' = Stakings s \<and>
     PendingUnstakings s' = PendingUnstakings s \<and> Receipts s' = Receipts s \<and>
     (\<forall>w. unat (get_reserve s (pkey E w)) = unat (get_reserve s' (pkey E w)) + owed due w) \<and>
     (\<forall>k. (\<forall>w. k \<noteq> pkey E w) \<longrightarrow> get_reserve s' k = get_reserve s k) \<and>
     (\<forall>w. unat (free_balance E s' (native_token_id E) w) = unat (free_balance E s (native_token_id E) w) + owed due w)"

lemma unlocked_Nil: "solvent E s \<Longrightarrow> unlocked E [] s s"
  by (simp add: unlocked_def owed_def)

lemma unlock_one:
  assumes "balances_spec E" "solvent E s" "unat v \<le> unat (get_reserve s (pkey E w))"
  shows "unlocked E [(w, v)] s (unlock_pending E (w, v) s)"
proof -
  obtain s1 where u: "unreserve E RESERVE_FOR_PENDING_UNSTAKE w (native_token_id E) v (system_account E) s = Inr s1"
    using unreserve_succeeds [of s E w v RESERVE_FOR_PENDING_UNSTAKE "system_account E"] assms(2,3)
    by (auto simp: pkey_def solvent_def)
  have s': "unlock_pending E (w, v) s = deposit_event (VerifierEv (TaoUnstakeUnlock w v)) s1"
    by (simp add: unlock_pending_def u)
  have sol: "solvent E s1"
    by (rule solvent_unreserve [OF assms(1,2) u]) (simp add: reserve_ids)
  note free = unreserve_free [OF assms(1) u]
  have get: "unat (get_reserve s k) = unat (get_reserve s1 k) + (if k = pkey E w then unat v else 0)" for k
    using unreserve_get(2) [OF u, of k] by (simp add: pkey_def)
  have other: "get_reserve s1 k = get_reserve s k" if "k \<noteq> pkey E w" for k
    using get [of k] that by (simp add: word_unat_eq_iff)
  have gd: "get_reserve (deposit_event e s1) = get_reserve s1" for e by (simp add: get_reserve_def fun_eq_iff)
  have "solvent E (unlock_pending E (w, v) s)"
    unfolding s' by (rule solvent_frame [OF sol]) simp_all
  then show ?thesis
    using unreserve_own_rest [OF u] unreserve_get(1) [OF u] get free other
    by (auto simp: unlocked_def s' gd owed_def pkey_def)
qed

lemma unlocked_Cons:
  assumes "unlocked E [(w, v)] s s1" "unlocked E due s1 s'" "w \<notin> fst ` set due"
  shows "unlocked E ((w, v) # due) s s'"
proof -
  have "map_of due w = None" using assms(3) by (simp add: map_of_eq_None_iff)
  then have ow: "owed ((w, v) # due) a = owed [(w, v)] a + owed due a" for a
    by (simp add: owed_def)
  show ?thesis using assms(1,2) by (auto simp: unlocked_def ow)
qed

lemma unlock_list:
  assumes "balances_spec E"
  shows "distinct (map fst due) \<Longrightarrow> solvent E s \<Longrightarrow> \<forall>w. owed due w \<le> unat (get_reserve s (pkey E w)) \<Longrightarrow>
    unlocked E due s (fold (unlock_pending E) due s)"
proof (induction due arbitrary: s)
  case Nil
  then show ?case by (simp add: unlocked_Nil)
next
  case (Cons p due)
  obtain w v where p: "p = (w, v)" by (cases p)
  let ?s1 = "unlock_pending E (w, v) s"
  have nin: "w \<notin> fst ` set due" and dist: "distinct (map fst due)" using Cons.prems(1) by (auto simp: p)
  have "unat v \<le> unat (get_reserve s (pkey E w))" using Cons.prems(3) [rule_format, of w] by (simp add: p owed_def)
  then have one: "unlocked E [(w, v)] s ?s1" by (rule unlock_one [OF assms Cons.prems(2)])
  have "owed due a \<le> unat (get_reserve ?s1 (pkey E a))" for a
  proof -
    have "unat (get_reserve s (pkey E a)) = unat (get_reserve ?s1 (pkey E a)) + owed [(w, v)] a"
      using one by (simp add: unlocked_def)
    moreover have "map_of due w = None" using nin by (simp add: map_of_eq_None_iff)
    ultimately show ?thesis using Cons.prems(3) [rule_format, of a]
      by (auto simp: p owed_def split: if_splits)
  qed
  then have "unlocked E due ?s1 (fold (unlock_pending E) due ?s1)"
    using one by (intro Cons.IH [OF dist]) (simp_all add: unlocked_def)
  from unlocked_Cons [OF one this nin] show ?case by (simp add: p)
qed

lemma on_initialize_elim:
  assumes "on_initialize E now s = Inr s'"
  obtains "s' = s" "now mod DominatorCheckGracePeriod E \<noteq> 0"
  | B where "now mod DominatorCheckGracePeriod E = 0"
      "s' = fold (unlock_pending E) (PendingUnstakings s now)
              (s\<lparr>Bonuses := B, PendingUnstakings := (PendingUnstakings s)(now := [])\<rparr>)"
proof -
  from assms consider "s' = s" "now mod DominatorCheckGracePeriod E \<noteq> 0"
    | s1 where "now mod DominatorCheckGracePeriod E = 0" "rfold (save_season E now) (Dominators s) s = Inr s1"
      "s' = fold (unlock_pending E) (PendingUnstakings s1 now)
              (s1\<lparr>PendingUnstakings := (PendingUnstakings s1)(now := [])\<rparr>)"
    by (auto simp: on_initialize_def Let_def res_simps split: if_splits)
  then show thesis
  proof cases
    case 1
    then show ?thesis by (rule that(1))
  next
    case (2 s1)
    obtain B where "s1 = s\<lparr>Bonuses := B\<rparr>" using save_seasons_bonuses [OF 2(2)] by blast
    with 2 show ?thesis by (intro that(2) [of B]) simp_all
  qed
qed

lemma owed_pend: "owed (PendingUnstakings s n) w = unat (pend s n w)"
  by (simp add: owed_def pend_def split: option.splits)

lemma pend_le_reserve:
  assumes "pending_inv E s"
  shows "unat (pend s n w) \<le> unat (get_reserve s (pkey E w))"
proof -
  have "unat (pend s n w) \<le> (\<Sum>m\<in>UNIV. unat (pend s m w))" by (rule member_le_sum) simp_all
  with assms show ?thesis by (simp add: pending_inv_def pkey_def)
qed

text \<open>What the hook does at a block at which it acts: the amounts due are released in full, and
  nothing else changes but the bonuses.\<close>

lemma hook_unlocks:
  assumes "balances_spec E" "vrf_inv E s"
    and "s2 = s\<lparr>Bonuses := B, PendingUnstakings := (PendingUnstakings s)(now := [])\<rparr>"
  shows "unlocked E (PendingUnstakings s now) s2 (fold (unlock_pending E) (PendingUnstakings s now) s2)"
proof (rule unlock_list [OF assms(1)])
  have gr: "get_reserve s2 k = get_reserve s k" for k by (simp add: assms(3) get_reserve_def)
  show "distinct (map fst (PendingUnstakings s now))" using assms(2) by (simp add: vrf_inv_def pending_inv_def)
  have rb: "reserved_balance E s2 = reserved_balance E s" by (rule balance_of_same(2)) (simp_all add: assms(3))
  show "solvent E s2"
    by (rule solvent_frame [of E s]) (use assms(2) rb in \<open>simp_all add: vrf_inv_def\<close>, simp_all add: assms(3))
  show "\<forall>w. owed (PendingUnstakings s now) w \<le> unat (get_reserve s2 (pkey E w))"
    using pend_le_reserve [of E s now] assms(2) by (simp add: owed_pend gr vrf_inv_def)
qed

lemma pending_inv_unlocked:
  assumes "pending_inv E s" "PendingUnstakings s' = (PendingUnstakings s)(now := [])"
    and "\<And>w. unat (get_reserve s (pkey E w)) = unat (get_reserve s' (pkey E w)) + owed (PendingUnstakings s now) w"
  shows "pending_inv E s'"
proof -
  have pd: "pend s' n w = (if n = now then 0 else pend s n w)" for n w by (simp add: pend_def assms(2))
  have "unat (get_reserve s' (pkey E w)) = (\<Sum>n\<in>UNIV. unat (pend s' n w))" for w
  proof -
    have "(\<Sum>n\<in>UNIV. unat (pend s' n w)) + unat (pend s now w) = (\<Sum>n\<in>UNIV. unat (pend s n w)) + unat (pend s' now w)"
      by (rule sum_upd_point) (simp add: pd)
    then show ?thesis using assms(1) assms(3) [of w] by (simp add: pd owed_pend pending_inv_def pkey_def)
  qed
  with assms(1) show ?thesis by (simp add: pending_inv_def assms(2) pkey_def)
qed

lemma inv_on_initialize:
  assumes "balances_spec E" "vrf_inv E s" "on_initialize E now s = Inr s'"
  shows "vrf_inv E s'"
  using assms(3)
proof (cases rule: on_initialize_elim)
  case 1
  with assms(2) show ?thesis by simp
next
  case (2 B)
  let ?s2 = "s\<lparr>Bonuses := B, PendingUnstakings := (PendingUnstakings s)(now := [])\<rparr>"
  have u: "unlocked E (PendingUnstakings s now) ?s2 s'"
    unfolding 2(2) by (rule hook_unlocks [OF assms(1,2) refl])
  have gr: "get_reserve ?s2 k = get_reserve s k" for k by (simp add: get_reserve_def)
  have dom: "get_dominator s' d = get_dominator s d" for d using u by (simp add: unlocked_def get_dominator_def)
  have stk: "get_reserve s' ((RESERVE_FOR_STAKING, w, t), d) = get_reserve s ((RESERVE_FOR_STAKING, w, t), d)" for w t d
    using u by (simp add: unlocked_def gr pkey_def reserve_ids)
  have "staking_inv E s'"
    using assms(2) u stk dom by (simp add: vrf_inv_def staking_inv_def unlocked_def stakers_def get_staking_def)
  moreover have "status_inv E s'" using assms(2) dom by (simp add: vrf_inv_def status_inv_def)
  moreover have "pending_inv E s'"
    by (rule pending_inv_unlocked [of E s]) (use assms(2) u in \<open>simp_all add: vrf_inv_def unlocked_def gr\<close>)
  ultimately show ?thesis using u by (simp add: vrf_inv_def unlocked_def)
qed

section \<open>Reachable states\<close>

text \<open>The calls of the pallet, as the runtime dispatches them.\<close>

datatype 'c vrf_call =
    Call_register bytes
  | Call_evict bytes
  | Call_launch bytes
  | Call_dominator_set_pubkey bytes
  | Call_dominator_set_rpc_endpoint bytes
  | Call_dominator_set_beneficiary account bytes
  | Call_register_broker bytes account
  | Call_broker_set_rpc_endpoint bytes
  | Call_verify_compress bytes
  | Call_verify "proof_rec list"
  | Call_stake bytes u128
  | Call_unstake bytes u128
  | Call_claim_shares bytes
  | Call_authorize bytes token_id u128
  | Call_revoke bytes token_id u128
  | Call_revoke_with_callback bytes token_id u128 'c
  | Call_listing

fun vrf_dispatch ::
  "('b, 'x) verifier_env_scheme
    \<Rightarrow> ('c \<Rightarrow> account \<Rightarrow> ('b, 'c, 'z) verifier_chain_scheme \<Rightarrow> ('b, 'c, 'z) verifier_chain_scheme result)
    \<Rightarrow> origin \<Rightarrow> 'c vrf_call \<Rightarrow> ('b, 'c, 'z) verifier_chain_scheme
    \<Rightarrow> ('b, 'c, 'z) verifier_chain_scheme result" where
  "vrf_dispatch E disp orig (Call_register name) s = register E orig name s"
| "vrf_dispatch E disp orig (Call_evict target) s = evict E orig target s"
| "vrf_dispatch E disp orig (Call_launch target) s = launch E orig target s"
| "vrf_dispatch E disp orig (Call_dominator_set_pubkey key) s = dominator_set_pubkey orig key s"
| "vrf_dispatch E disp orig (Call_dominator_set_rpc_endpoint e) s = dominator_set_rpc_endpoint orig e s"
| "vrf_dispatch E disp orig (Call_dominator_set_beneficiary w sig) s = dominator_set_beneficiary E orig w sig s"
| "vrf_dispatch E disp orig (Call_register_broker e w) s = register_broker E orig e w s"
| "vrf_dispatch E disp orig (Call_broker_set_rpc_endpoint e) s = broker_set_rpc_endpoint orig e s"
| "vrf_dispatch E disp orig (Call_verify_compress bs) s = verify_compress E disp orig bs s"
| "vrf_dispatch E disp orig (Call_verify ps) s = verify E disp orig ps s"
| "vrf_dispatch E disp orig (Call_stake target v) s = stake E orig target v s"
| "vrf_dispatch E disp orig (Call_unstake target v) s = unstake E orig target v s"
| "vrf_dispatch E disp orig (Call_claim_shares target) s = claim_shares E orig target s"
| "vrf_dispatch E disp orig (Call_authorize target t v) s = authorize E orig target t v s"
| "vrf_dispatch E disp orig (Call_revoke target t v) s = revoke E orig target t v s"
| "vrf_dispatch E disp orig (Call_revoke_with_callback target t v cb) s = revoke_with_callback E orig target t v cb s"
| "vrf_dispatch E disp orig Call_listing s = listing orig s"

text \<open>A step of the chain: a call of the pallet, the start of the next block, or a call of the token
  or the reward pallet by some user.\<close>

inductive vrf_step ::
  "('b, 'x) verifier_env_scheme
    \<Rightarrow> ('c \<Rightarrow> account \<Rightarrow> ('b, 'c, 'z) verifier_chain_scheme \<Rightarrow> ('b, 'c, 'z) verifier_chain_scheme result)
    \<Rightarrow> ('b, 'c, 'z) verifier_chain_scheme \<Rightarrow> ('b, 'c, 'z) verifier_chain_scheme \<Rightarrow> bool"
  for E disp where
  step_call: "vrf_dispatch E disp orig c s = Inr s' \<Longrightarrow> vrf_step E disp s s'"
| step_block: "on_initialize E n (s\<lparr>block_number := n\<rparr>) = Inr s' \<Longrightarrow> n = block_number s + 1 \<Longrightarrow> vrf_step E disp s s'"
| step_token_transfer: "transfer E orig t target v s = Inr s' \<Longrightarrow> vrf_step E disp s s'"
| step_take_reward: "take_reward E orig s = Inr s' \<Longrightarrow> vrf_step E disp s s'"

inductive_cases vrf_stepE: "vrf_step E disp s s'"

definition vrf_genesis :: "('b, 'c, 'z) verifier_chain_scheme \<Rightarrow> bool" where
  "vrf_genesis s \<longleftrightarrow> Receipts s = Map.empty \<and> Dominators s = [] \<and> Reserves s = Map.empty \<and>
     Stakings s = Map.empty \<and> PendingUnstakings s = (\<lambda>_. [])"

inductive vrf_reachable ::
  "('b, 'x) verifier_env_scheme
    \<Rightarrow> ('c \<Rightarrow> account \<Rightarrow> ('b, 'c, 'z) verifier_chain_scheme \<Rightarrow> ('b, 'c, 'z) verifier_chain_scheme result)
    \<Rightarrow> ('b, 'c, 'z) verifier_chain_scheme \<Rightarrow> bool"
  for E disp where
  vrf_start: "vrf_genesis s \<Longrightarrow> vrf_reachable E disp s"
| vrf_next: "vrf_reachable E disp s \<Longrightarrow> vrf_step E disp s s' \<Longrightarrow> vrf_reachable E disp s'"

lemma inv_genesis: "vrf_genesis s \<Longrightarrow> vrf_inv E s"
proof -
  assume g: "vrf_genesis s"
  then have "rslice s t w = Map.empty" for t w by (auto simp: vrf_genesis_def rslice_def fun_eq_iff)
  with g show ?thesis
    by (auto simp: vrf_genesis_def vrf_inv_def solvent_def staking_inv_def pending_inv_def status_inv_def
        stakers_def get_dominator_def get_staking_def get_reserve_def default_staking_def pend_def
        fin_reserves_def booked_def receipts_backed_def)
qed

lemma transfer_reserved:
  assumes "balances_spec E" "transfer_token E a t v b s = Inr s'"
  shows "reserved_balance E s' = reserved_balance E s"
proof (cases "t = native_token_id E")
  case True
  with transfer_native_reserved [OF assms(1)] assms(2) show ?thesis by simp
next
  case False
  have n: "native s' = native s"
    using assms(2) False by (auto simp: transfer_token_def Let_def res_simps split: if_splits)
  have "reserved (get_token_balance s' (t', w)) = reserved (get_token_balance s (t', w))" for t' w
  proof (cases "(t', w) = (t, a) \<or> (t', w) = (t, b)")
    case True
    then show ?thesis
      using transfer_token_other [OF assms(2) False] transfer_token_self [OF _ False] assms(2)
      by (cases "a = b") auto
  next
    case outside: False
    then show ?thesis using transfer_token_frame [OF assms(2), of "(t', w)"] by simp
  qed
  with n show ?thesis by (simp add: reserved_balance_def fun_eq_iff)
qed

lemma inv_transfer:
  assumes "balances_spec E" "vrf_inv E s" "transfer_token E a t v b s = Inr s'"
  shows "vrf_inv E s'"
  by (rule inv_own [OF assms(2) own_transfer [OF assms(3)] transfer_reserved [OF assms(1,3)]])

lemma pay_reward_reserved:
  assumes "balances_spec E" "pay_reward E w v s = Inr s'"
  shows "reserved_balance E s' = reserved_balance E s"
proof -
  from assms(2) obtain n b where n: "n = bal_set_issuance E (bal_issuance E (native s) + v) (native s)"
    and b: "bal_mutate_account E w (bal_free E (native s) w + v, bal_reserved E (native s) w) n = Inr b"
    and s': "s' = s\<lparr>native := b\<rparr>"
    by (auto simp: pay_reward_def try_mutate_account_def try_mutate_issuance_def res_simps split_beta
        checked_add_def split: if_splits)
  have "bal_reserved E b a = bal_reserved E (native s) a" for a
    using balances_mutateD [OF assms(1) b] balances_issuanceD [OF assms(1), of "native s" "bal_issuance E (native s) + v" a]
    by (cases "a = w") (auto simp: same_account_def n)
  then show ?thesis by (simp add: s' fun_eq_iff reserved_balance_def get_token_balance_def)
qed

lemma inv_store_reward: "vrf_inv E s \<Longrightarrow> vrf_inv E (store_reward w r s)"
proof (erule inv_own)
  show "own (store_reward w r s) = own s" by simp
  show "reserved_balance E (store_reward w r s) = reserved_balance E s"
    by (rule balance_of_same(2)) (simp_all add: store_reward_def)
qed

lemma inv_take_reward:
  assumes "balances_spec E" "vrf_inv E s" "take_reward E orig s = Inr s'"
  shows "vrf_inv E s'"
proof -
  from assms(3) obtain w c s1 where cl: "claim_reward E w (block_number s) s = Inr (c, s1)"
    and s': "s' = deposit_event (RewardEv (RewardClaimed w c)) s1"
    by (auto simp: take_reward_def res_simps)
  have rot: "vrf_inv E u" if "rotate_reward E era 0 w s = Inr (x, u)" for era x u
    using rotate_reward_effect [OF that] inv_store_reward [OF assms(2)] by auto
  from cl have "vrf_inv E s1"
  proof (cases rule: claim_reward_elim)
    case (none era u)
    with rot show ?thesis by simp
  next
    case (some era u r u2)
    have "own u2 = own u"
      using some(6) by (auto simp: pay_reward_def try_mutate_account_def try_mutate_issuance_def res_simps split_beta)
    with inv_own [OF rot [OF some(2)] _ pay_reward_reserved [OF assms(1) some(6)]]
    show ?thesis by (simp add: some(7) inv_store_reward)
  qed
  then show ?thesis unfolding s' by (rule inv_deposit)
qed

lemma inv_block_number:
  assumes "vrf_inv E s"
  shows "vrf_inv E (s\<lparr>block_number := n\<rparr>)"
proof -
  let ?s = "s\<lparr>block_number := n\<rparr>"
  have get: "get_dominator ?s = get_dominator s" "get_reserve ?s = get_reserve s" "get_staking ?s = get_staking s"
    "stakers ?s = stakers s" "pend ?s = pend s"
    by (simp_all add: fun_eq_iff get_dominator_def get_reserve_def get_staking_def stakers_def pend_def)
  have rb: "reserved_balance E ?s = reserved_balance E s" by (rule balance_of_same(2)) simp_all
  have "solvent E ?s"
    by (rule solvent_frame [OF _ _ _ rb]) (use assms in \<open>simp_all add: vrf_inv_def\<close>)
  moreover have "staking_inv E ?s" using assms by (simp add: vrf_inv_def staking_inv_def get)
  moreover have "pending_inv E ?s" using assms by (simp add: vrf_inv_def pending_inv_def get)
  moreover have "status_inv E ?s" using assms by (simp add: vrf_inv_def status_inv_def get)
  ultimately show ?thesis by (simp add: vrf_inv_def)
qed

lemma inv_call:
  assumes "balances_spec E" "keeps disp (vrf_inv E)" "vrf_inv E s" "vrf_dispatch E disp orig c s = Inr s'"
  shows "vrf_inv E s'"
proof (cases c)
  case (Call_verify_compress bs)
  with assms(4) show ?thesis
    using inv_verify_batch [OF assms(1-3)] by (auto simp: verify_compress_def res_simps)
next
  case (Call_verify ps)
  with assms(4) show ?thesis using inv_verify_batch [OF assms(1-3)] by (auto simp: verify_def res_simps)
next
  case (Call_stake target v)
  with assms(4) show ?thesis using inv_stake_on [OF assms(1,3)] by (auto simp: stake_def res_simps)
next
  case (Call_unstake target v)
  with assms(4) show ?thesis using inv_unstake_from [OF assms(1,3)] by (auto simp: unstake_def res_simps)
next
  case (Call_authorize target t v)
  with assms(4) show ?thesis
    using safe_inv [OF safe_authorize_to [OF assms(1)] assms(3)] by (auto simp: authorize_def res_simps)
next
  case (Call_revoke target t v)
  with assms(4) show ?thesis
    using safe_inv [OF safe_revoke_from [OF assms(1)] assms(3)] by (auto simp: revoke_def res_simps)
next
  case (Call_revoke_with_callback target t v cb)
  with assms(4) show ?thesis
    using safe_inv [OF safe_revoke_from [OF assms(1)] assms(3)] by (auto simp: revoke_with_callback_def res_simps)
next
  case Call_listing
  with assms(3,4) show ?thesis by (simp add: listing_def)
qed (use assms(3,4) inv_register [OF assms(3)] inv_evict [OF assms(3)] inv_launch [OF assms(3)]
      inv_settings [OF assms(3)] inv_register_broker [OF assms(1,3)] inv_claim_shares [OF assms(1,3)] in auto)

lemma inv_step:
  assumes "balances_spec E" "keeps disp (vrf_inv E)" "vrf_inv E s" "vrf_step E disp s s'"
  shows "vrf_inv E s'"
  using assms(4)
proof cases
  case (step_call orig c)
  then show ?thesis by (rule inv_call [OF assms(1-3)])
next
  case (step_block n)
  show ?thesis by (rule inv_on_initialize [OF assms(1) inv_block_number [OF assms(3)] step_block(1)])
next
  case (step_token_transfer orig t target v)
  then show ?thesis using inv_transfer [OF assms(1,3)] by (auto simp: transfer_def res_simps)
next
  case (step_take_reward orig)
  then show ?thesis by (rule inv_take_reward [OF assms(1,3)])
qed

lemma vrf_reachable_inv:
  assumes "balances_spec E" "keeps disp (vrf_inv E)" "vrf_reachable E disp s"
  shows "vrf_inv E s"
  using assms(3) by induction (auto intro: inv_genesis inv_step [OF assms(1,2)])

end
