(* ===== verification/Fuso_Verifier_Sample.thy ===== *)
theory Fuso_Verifier_Sample
  imports Fuso_Verifier_Steps Fuso_Matching_Props
begin

text \<open>
  A concrete chain on which the properties of the verifier pallet are exercised. A callback is a
  transfer of tokens, dispatched by the token pallet. Bob registers as a dominator, is launched,
  and Alice stakes on him, authorises funds to him and unstakes a part.
\<close>

type_synonym sample_cb = "token_id \<times> u128 \<times> account"
type_synonym sample_chain = "(sample_bal, sample_cb) verifier_chain"

definition pallet_account :: account where "pallet_account = replicate 32 9"

lemma pallet_account_neq [simp]:
  "pallet_account \<noteq> alice" "pallet_account \<noteq> bob" "alice \<noteq> pallet_account" "bob \<noteq> pallet_account"
  by (simp_all add: pallet_account_def alice_def bob_def)

text \<open>Threshold 100, broker stake 50, seasons of 100 blocks, a check every 10 blocks, at least 5 staked.\<close>

definition vrf_env :: "sample_bal verifier_env" where
  "vrf_env = reward_env.extend rwd_env
     (verifier_env.fields 100 50 100 10 5 20000 20000 pallet_account
        (\<lambda>sig msg key. sig = msg @ key) (\<lambda>(n, w). to_le_bytes 8 n @ w)
        (\<lambda>bs. Some (length bs, bs)) (\<lambda>bs n. Some bs) (\<lambda>bs. None) (\<lambda>bs. bs) (\<lambda>p root ls. Some True))"

lemma vrf_env_simps [simp]:
  "DominatorOnlineThreshold vrf_env = 100" "BrokerStakingThreshold vrf_env = 50"
  "SeasonDuration vrf_env = 100" "DominatorCheckGracePeriod vrf_env = 10" "MinimalStakingAmount vrf_env = 5"
  "MaxMakerFee vrf_env = 20000" "MaxTakerFee vrf_env = 20000" "system_account vrf_env = pallet_account"
  "blake2_256 vrf_env = (\<lambda>bs. bs)" "smt_verify vrf_env = (\<lambda>p root ls. Some True)"
  "native_token_id vrf_env = 0" "lookup vrf_env = (\<lambda>a. Some a)"
  "bal_free vrf_env = sb_free" "bal_reserved vrf_env = sb_reserved" "bal_reserve vrf_env = sb_reserve"
  "bal_unreserve vrf_env = sb_unreserve" "bal_transfer vrf_env = sb_transfer"
  "bal_can_reserve vrf_env = (\<lambda>b a v. v \<le> sb_free b a)" "bal_mutate_account vrf_env = sb_mutate"
  "perquintill_from_rational vrf_env = sample_ratio" "perquintill_mul vrf_env = sample_mul"
  by (simp_all add: vrf_env_def rwd_env_def tok_env_def verifier_env.defs token_env.defs reward_env.defs env.defs
      sample_env_def native_token_id_def)

lemma spec_vrf_env: "balances_spec vrf_env" "arith_spec vrf_env"
  using sample_balances_spec [of "env.more vrf_env"] sample_arith_spec [of "env.more vrf_env"]
  by (simp_all add: vrf_env_def rwd_env_def tok_env_def verifier_env.defs token_env.defs reward_env.defs env.defs
      sample_env_def)

definition sample_disp :: "sample_cb \<Rightarrow> account \<Rightarrow> sample_chain \<Rightarrow> sample_chain result" where
  "sample_disp cb w s = (case cb of (t, v, b) \<Rightarrow> transfer_token vrf_env w t v b s)"

lemma sample_disp_keeps: "keeps sample_disp (vrf_inv vrf_env)"
  unfolding keeps_def sample_disp_def
  using inv_transfer [OF spec_vrf_env(1)] by (auto split: prod.splits)

section \<open>The run\<close>

definition v0 :: sample_chain where
  "v0 = \<lparr>block_number = 150, account_nonce = (\<lambda>_. 0), events = [],
     native = ((\<lambda>_. (1000, 0)), 2000), Balances = Map.empty, Tokens = Map.empty, NextTokenId = 1,
     TokenByName = Map.empty, TokenByContract = Map.empty,
     Rewards = Map.empty, EraRewards = None, Volumes = (\<lambda>_. 0),
     OnChainPrices = (\<lambda>_. \<lparr>price = 0, recent_matched_amount = 0, recent_matched_vol = 0, updated_at = 0\<rparr>),
     Receipts = Map.empty, Dominators = [], DominatorSettings = Map.empty, Brokers = Map.empty,
     Reserves = Map.empty, Bonuses = (\<lambda>_. \<lparr>b_staked = 0, b_profit = []\<rparr>), Stakings = Map.empty,
     PendingUnstakings = (\<lambda>_. [])\<rparr>"

definition dominator_of :: "u128 \<Rightarrow> u8 \<Rightarrow> dominator" where
  "dominator_of v st = \<lparr>d_name = [97, 98], d_staked = v, d_merkle_root = replicate 32 0, d_start_from = 150,
     d_sequence = (0, 150), d_status = st\<rparr>"

definition v1 :: sample_chain where
  "v1 = v0\<lparr>Dominators := [(bob, dominator_of 0 0)], events := [VerifierEv (DominatorClaimed bob)]\<rparr>"

definition v2 :: sample_chain where
  "v2 = v0\<lparr>Dominators := [(bob, dominator_of 0 1)],
     events := [VerifierEv (DominatorClaimed bob), VerifierEv (vrf_event.DominatorInactive bob)]\<rparr>"

definition v3 :: sample_chain where
  "v3 = v0\<lparr>Dominators := [(bob, dominator_of 200 2)],
     native := sb_put alice (1000, 200) (native v0),
     Stakings := [(bob, alice) \<mapsto> \<lparr>from_season = 0, stk_amount = 200\<rparr>],
     Reserves := [((RESERVE_FOR_STAKING, alice, 0), bob) \<mapsto> 200],
     events := [VerifierEv (DominatorClaimed bob), VerifierEv (vrf_event.DominatorInactive bob),
       VerifierEv (TaoStaked alice bob 200), VerifierEv (DominatorOnline bob)]\<rparr>"

definition v4 :: sample_chain where
  "v4 = v3\<lparr>Dominators := [(bob, dominator_of 150 2)],
     Stakings := [(bob, alice) \<mapsto> \<lparr>from_season = 0, stk_amount = 150\<rparr>],
     Reserves := [((RESERVE_FOR_STAKING, alice, 0), bob) \<mapsto> 150,
       ((RESERVE_FOR_PENDING_UNSTAKE, alice, 0), pallet_account) \<mapsto> 50],
     PendingUnstakings := (\<lambda>_. [])(57750 := [(alice, 50)]),
     events := events v3 @ [VerifierEv (TaoUnstaked alice bob 50)]\<rparr>"

definition v5 :: sample_chain where
  "v5 = v4\<lparr>native := sb_put alice (1000, 230) (native v0),
     Reserves := (Reserves v4)(((RESERVE_FOR_AUTHORIZING_STASH, alice, 0), bob) \<mapsto> 30),
     Receipts := [(bob, alice) \<mapsto> Authorize 0 30 150],
     events := events v4 @ [VerifierEv (TokenHosted alice bob 0 30)]\<rparr>"

lemma v1_run: "vrf_dispatch vrf_env sample_disp (Signed bob) (Call_register [97, 98]) v0 = Inr v1"
  by (simp add: register_def v0_def v1_def valid_identifier_def get_dominator_def rem_u32_def put_dominator_def
      deposit_event_def dominator_of_def DOMINATOR_REGISTERED_def)

lemma v2_run: "vrf_dispatch vrf_env sample_disp Root (Call_launch bob) v1 = Inr v2"
  by (simp add: launch_def v1_def v2_def v0_def get_dominator_def put_dominator_def deposit_event_def
      dominator_of_def dominator_statuses)

lemma v3_run: "vrf_dispatch vrf_env sample_disp (Signed alice) (Call_stake bob 200) v2 = Inr v3"
  by (simp add: stake_def stake_on_def v2_def v3_def v0_def get_dominator_def put_dominator_def deposit_event_def
      dominator_of_def dominator_statuses stake_entry_def reserve_def token_reserve_def sb_reserve_def sb_free_def
      sb_reserved_def get_reserve_def put_reserve_def get_staking_def default_staking_def checked_add_def
      current_season_def put_staking_def online_status_def)

lemma v4_run: "vrf_dispatch vrf_env sample_disp (Signed alice) (Call_unstake bob 50) v3 = Inr v4"
  by (simp add: unstake_def unstake_from_def v3_def v4_def v0_def get_dominator_def put_dominator_def deposit_event_def
      dominator_of_def dominator_statuses unstake_entry_def unreserve_def token_unreserve_def reserve_def
      token_reserve_def sb_reserve_def sb_unreserve_def sb_free_def sb_put_def
      sb_reserved_def get_reserve_def put_reserve_def checked_add_def checked_sub_def
      current_season_def put_staking_def online_status_def rem_u32_def add_pending_def
      UNSTAKE_DELAY_BLOCKS_def take_shares_def reserve_ids)

lemma v5_run: "vrf_dispatch vrf_env sample_disp (Signed alice) (Call_authorize bob 0 30) v4 = Inr v5"
  by (simp add: authorize_def authorize_to_def v5_def v4_def v3_def v0_def get_dominator_def deposit_event_def
      dominator_of_def dominator_statuses can_reserve_def put_receipt_def reserve_def
      token_reserve_def sb_reserve_def sb_free_def sb_put_def
      sb_reserved_def get_reserve_def put_reserve_def checked_add_def reserve_ids)

lemma v_reachable:
  "vrf_reachable vrf_env sample_disp v3" "vrf_reachable vrf_env sample_disp v4" "vrf_reachable vrf_env sample_disp v5"
proof -
  have "vrf_reachable vrf_env sample_disp v0" by (rule vrf_start) (simp add: vrf_genesis_def v0_def)
  then have "vrf_reachable vrf_env sample_disp v2"
    by (blast intro: vrf_next step_call v1_run v2_run)
  then show "vrf_reachable vrf_env sample_disp v3" by (blast intro: vrf_next step_call v3_run)
  then show "vrf_reachable vrf_env sample_disp v4" by (blast intro: vrf_next step_call v4_run)
  then show "vrf_reachable vrf_env sample_disp v5" by (blast intro: vrf_next step_call v5_run)
qed

lemmas v_run_defs = v5_def v4_def v3_def v0_def

end
