(* ===== verification/Fuso_Verifier_Props.thy ===== *)
theory Fuso_Verifier_Props
  imports Fuso_Verifier_Sample
begin

text \<open>
  Properties of the verifier pallet: its ledger is backed by reserved balances, the staking ledger is
  exact, unstaked funds are released in full and in time, a season's shares are paid once, the
  dominators' status moves as intended and accepted proofs form a chain of Merkle roots.
\<close>

section \<open>Custody\<close>

lemma booked_sum:
  "booked s t w = (\<Sum>(i, d)\<in>{(i, d). Reserves s ((i, w, t), d) \<noteq> None}. unat (get_reserve s ((i, w, t), d)))"
proof -
  have "dom (rslice s t w) = {(i, d). Reserves s ((i, w, t), d) \<noteq> None}" by (auto simp: rslice_def)
  then show ?thesis
    unfolding booked_def msum_def
    by (intro sum.cong) (auto simp: rslice_def get_reserve_def)
qed

text \<open>
  C1: in every reachable state what the pallet's ledger holds of an account's token, over all
  purposes and dominators, is at most the balance that the token pallet has reserved for the account, and an open
  authorisation is covered by its stash. Callbacks are only assumed to keep the pallet's invariant, as
  every call of the runtime does.
\<close>

theorem verifier_solvent:
  assumes "balances_spec E" "keeps disp (vrf_inv E)" "vrf_reachable E disp s"
  shows "(\<Sum>(i, d)\<in>{(i, d). Reserves s ((i, w, t), d) \<noteq> None}. unat (get_reserve s ((i, w, t), d)))
      \<le> unat (reserved_balance E s t w) \<and>
    (\<forall>dex a n. Receipts s (dex, w) = Some (Authorize t a n) \<longrightarrow>
       a \<le> get_reserve s ((RESERVE_FOR_AUTHORIZING_STASH, w, t), dex))"
proof -
  have "solvent E s" using vrf_reachable_inv [OF assms] by (simp add: vrf_inv_def)
  then show ?thesis unfolding solvent_def receipts_backed_def booked_sum by blast
qed

theorem verifier_solvent_witness:
  "vrf_reachable vrf_env sample_disp v5 \<and> reserved_balance vrf_env v5 0 alice = 230 \<and>
   (\<Sum>(i, d)\<in>{(i, d). Reserves v5 ((i, alice, 0), d) \<noteq> None}. unat (get_reserve v5 ((i, alice, 0), d))) \<le> 230 \<and>
   Receipts v5 (bob, alice) = Some (Authorize 0 30 150) \<and>
   30 \<le> get_reserve v5 ((RESERVE_FOR_AUTHORIZING_STASH, alice, 0), bob)"
proof -
  have r: "reserved_balance vrf_env v5 0 alice = 230"
    by (simp add: reserved_balance_def v_run_defs sb_reserved_def sb_put_def)
  have "Receipts v5 (bob, alice) = Some (Authorize 0 30 150)" by (simp add: v5_def)
  with r verifier_solvent [OF spec_vrf_env(1) sample_disp_keeps v_reachable(3), of alice 0] v_reachable(3)
  show ?thesis by simp
qed

section \<open>Staking\<close>

text \<open>
  C7: in every reachable state a dominator's total is the sum of its stakings (in 128 bits), nobody
  has staked on an account that is no dominator, and each staking is exactly what the ledger
  holds of the staker for it.
\<close>

theorem staking_ledger_exact:
  assumes "balances_spec E" "keeps disp (vrf_inv E)" "vrf_reachable E disp s"
  shows "(\<forall>D. get_dominator s d = Some D \<longrightarrow>
      d_staked D = (\<Sum>w\<in>{w. Stakings s (d, w) \<noteq> None}. stk_amount (get_staking s (d, w)))) \<and>
    (get_dominator s d = None \<longrightarrow> Stakings s (d, w) = None) \<and>
    get_reserve s ((RESERVE_FOR_STAKING, w, native_token_id E), d) = stk_amount (get_staking s (d, w))"
proof -
  have inv: "staking_inv E s" using vrf_reachable_inv [OF assms] by (simp add: vrf_inv_def)
  have "msum stk_amount (stakers s d) = (\<Sum>w\<in>{w. Stakings s (d, w) \<noteq> None}. stk_amount (get_staking s (d, w)))"
    unfolding msum_def by (rule sum.cong) (auto simp: stakers_def get_staking_def)
  with inv show ?thesis by (simp add: staking_inv_def)
qed

theorem staking_ledger_exact_witness:
  "vrf_reachable vrf_env sample_disp v4 \<and> get_dominator v4 bob = Some (dominator_of 150 2) \<and>
   150 = (\<Sum>w\<in>{w. Stakings v4 (bob, w) \<noteq> None}. stk_amount (get_staking v4 (bob, w))) \<and>
   get_reserve v4 ((RESERVE_FOR_STAKING, alice, 0), bob) = 150"
proof -
  have d: "get_dominator v4 bob = Some (dominator_of 150 2)" by (simp add: get_dominator_def v4_def)
  have a: "stk_amount (get_staking v4 (bob, alice)) = 150" by (simp add: get_staking_def v4_def)
  from staking_ledger_exact [OF spec_vrf_env(1) sample_disp_keeps v_reachable(2), of bob alice] d a v_reachable(2)
  show ?thesis by (auto simp: dominator_of_def)
qed

lemma save_seasons_succeed:
  assumes "SeasonDuration E \<noteq> 0"
  shows "\<exists>s'. rfold (save_season E now) ps s = Inr s'"
proof (induction ps arbitrary: s)
  case Nil
  then show ?case by simp
next
  case (Cons p ps)
  have "\<exists>s1. save_season E now p s = Inr s1"
    using assms by (cases p) (simp add: save_season_def rem_u32_def div_u32_def Let_def)
  then obtain s1 where "save_season E now p s = Inr s1" by blast
  with Cons.IH [of s1] show ?case by simp
qed

text \<open>
  C9: the hook of a block at which it acts always succeeds, and releases every amount due at that
  block in full: the staker's free balance grows by it and the entry is gone. The branch that logs
  a failed release is unreachable.
\<close>

theorem pending_unstakes_released:
  assumes "balances_spec E" "keeps disp (vrf_inv E)" "vrf_reachable E disp s"
    and "DominatorCheckGracePeriod E \<noteq> 0" "SeasonDuration E \<noteq> 0" "now mod DominatorCheckGracePeriod E = 0"
  shows "\<exists>s'. on_initialize E now s = Inr s' \<and> PendingUnstakings s' = (PendingUnstakings s)(now := []) \<and>
    (\<forall>w. unat (free_balance E s' (native_token_id E) w) =
       unat (free_balance E s (native_token_id E) w) +
       (case map_of (PendingUnstakings s now) w of None \<Rightarrow> 0 | Some v \<Rightarrow> unat v)) \<and>
    Dominators s' = Dominators s \<and> Stakings s' = Stakings s \<and> Receipts s' = Receipts s"
proof -
  have inv: "vrf_inv E s" by (rule vrf_reachable_inv [OF assms(1-3)])
  obtain s1 where "rfold (save_season E now) (Dominators s) s = Inr s1"
    using save_seasons_succeed [OF assms(5)] by blast
  then obtain s' where run: "on_initialize E now s = Inr s'"
    using assms(4,6) by (simp add: on_initialize_def rem_u32_def Let_def)
  from run show ?thesis
  proof (cases rule: on_initialize_elim)
    case 1
    with assms(6) show ?thesis by simp
  next
    case (2 B)
    let ?s2 = "s\<lparr>Bonuses := B, PendingUnstakings := (PendingUnstakings s)(now := [])\<rparr>"
    have u: "unlocked E (PendingUnstakings s now) ?s2 s'"
      unfolding 2(2) by (rule hook_unlocks [OF assms(1) inv refl])
    have "free_balance E ?s2 = free_balance E s" by (rule balance_of_same(1)) simp_all
    moreover have "owed (PendingUnstakings s now) w = (case map_of (PendingUnstakings s now) w of None \<Rightarrow> 0 | Some v \<Rightarrow> unat v)" for w
      by (simp add: owed_def split: option.split)
    ultimately show ?thesis using u run by (simp add: unlocked_def)
  qed
qed

theorem pending_unstakes_released_witness:
  "vrf_reachable vrf_env sample_disp v5 \<and> PendingUnstakings v5 57750 = [(alice, 50)] \<and>
   (\<exists>s'. on_initialize vrf_env 57750 v5 = Inr s' \<and> PendingUnstakings s' 57750 = [] \<and>
      unat (free_balance vrf_env s' 0 alice) = unat (free_balance vrf_env v5 0 alice) + 50)"
proof -
  have p: "PendingUnstakings v5 57750 = [(alice, 50)]" by (simp add: v5_def v4_def)
  obtain s' where "on_initialize vrf_env 57750 v5 = Inr s'" "PendingUnstakings s' 57750 = []"
    "\<forall>w. unat (free_balance vrf_env s' 0 w) = unat (free_balance vrf_env v5 0 w) +
       (case map_of (PendingUnstakings v5 57750) w of None \<Rightarrow> 0 | Some v \<Rightarrow> unat v)"
    using pending_unstakes_released [OF spec_vrf_env(1) sample_disp_keeps v_reachable(3), of 57750] by auto
  with p v_reachable(3) show ?thesis by (intro conjI exI [of _ s']) simp_all
qed

section \<open>Shares\<close>

lemma take_shares_season: "take_shares E w d ds s = Inr (n, s') \<Longrightarrow> n = dist_to ds"
  by (auto simp: take_shares_def res_simps split: if_splits)

text \<open>
  C31: the shares of a season are paid once: a second claim in the same season leaves the state
  exactly as the first one has left it.
\<close>

theorem claim_shares_idempotent:
  assumes "claim_shares E orig target s = Inr s'"
  shows "claim_shares E orig target s' = Inr s'"
proof -
  from assms obtain w d D stk now n s1 where o: "orig = Signed w" "lookup E target = Some d"
    and D: "get_dominator s d = Some D" "d_status D \<noteq> DOMINATOR_REGISTERED"
    and now: "current_season E (block_number s) (d_start_from D) = Inr now"
    and t: "take_shares E w d \<lparr>dist_from = from_season stk, dist_to = now, dist_staking = stk_amount stk\<rparr> s = Inr (n, s1)"
    and s'n: "s' = put_staking (d, w) (Some (stk\<lparr>from_season := n\<rparr>)) s1"
    unfolding claim_shares_def by (auto simp: res_simps)
  have s': "s' = put_staking (d, w) (Some (stk\<lparr>from_season := now\<rparr>)) s1"
    using s'n take_shares_season [OF t] by simp
  note fr = ownD [OF own_take_shares [OF t]]
  have "get_dominator s' d = Some D" "block_number s' = block_number s"
    using fr D(1) by (simp_all add: s' get_dominator_def)
  moreover have "Stakings s' (d, w) = Some (stk\<lparr>from_season := now\<rparr>)" by (simp add: s')
  ultimately show ?thesis
    using o D(2) now by (simp add: claim_shares_def take_shares_def) (simp add: s' put_staking_def)
qed

definition v_profit :: sample_chain where
  "v_profit = v3\<lparr>block_number := 350,
     Bonuses := (Bonuses v3)((bob, 0) := \<lparr>b_staked = 400, b_profit = [(0, 80)]\<rparr>)\<rparr>"

lemma v_profit_shares:
  "all_shares vrf_env v_profit bob \<lparr>dist_from = 0, dist_to = 2, dist_staking = 200\<rparr> = [(0, 40)]"
proof -
  have "seasons 0 2 = [0, 1]" by (simp add: seasons_def upt_rec)
  moreover have "sample_mul (sample_ratio 200 400) 80 = 40" by (simp add: sample_mul_def sample_ratio_def QUINT_def)
  ultimately show ?thesis by (simp add: all_shares_def season_shares_def v_profit_def v_run_defs)
qed

theorem claim_shares_idempotent_witness:
  "\<exists>s'. claim_shares vrf_env (Signed alice) bob v_profit = Inr s' \<and>
     free_balance vrf_env s' 0 alice = free_balance vrf_env v_profit 0 alice + 40 \<and>
     claim_shares vrf_env (Signed alice) bob s' = Inr s'"
proof -
  have n: "native v_profit = sb_put alice (1000, 200) (\<lambda>_. (1000, 0), 2000)" by (simp add: v_profit_def v_run_defs)
  have pay: "pay_share vrf_env alice (0, 40) v_profit = Inr (v_profit\<lparr>native := sb_put alice (1040, 200) (native v_profit)\<rparr>)"
    by (simp add: pay_share_def try_mutate_account_def n sb_free_def sb_reserved_def sb_mutate_def checked_add_def)
  have sel: "get_dominator v_profit bob = Some (dominator_of 200 2)" "block_number v_profit = 350"
    "Stakings v_profit (bob, alice) = Some \<lparr>from_season = 0, stk_amount = 200\<rparr>"
    by (simp_all add: v_profit_def v_run_defs get_dominator_def)
  let ?s = "put_staking (bob, alice) (Some \<lparr>from_season = 2, stk_amount = 200\<rparr>)
      (v_profit\<lparr>native := sb_put alice (1040, 200) (native v_profit)\<rparr>)"
  have "claim_shares vrf_env (Signed alice) bob v_profit = Inr ?s"
    by (simp add: claim_shares_def sel take_shares_def current_season_def div_u32_def dominator_of_def
        dominator_statuses v_profit_shares pay)
  moreover have "free_balance vrf_env ?s 0 alice = free_balance vrf_env v_profit 0 alice + 40"
    by (simp add: free_balance_def n put_staking_def sb_free_def sb_reserved_def sb_put_def)
  ultimately have "\<exists>s'. claim_shares vrf_env (Signed alice) bob v_profit = Inr s' \<and>
     free_balance vrf_env s' 0 alice = free_balance vrf_env v_profit 0 alice + 40" by blast
  then show ?thesis using claim_shares_idempotent by blast
qed

section \<open>Leaving\<close>

lemma two_le_booked:
  assumes "fin_reserves s" "(i, d) \<noteq> (j, e)"
  shows "unat (get_reserve s ((i, w, t), d)) + unat (get_reserve s ((j, w, t), e)) \<le> booked s t w"
proof -
  let ?s = "put_reserve ((i, w, t), d) None s"
  have "booked ?s t w + unat (get_reserve s ((i, w, t), d)) = booked s t w"
    using booked_put [OF assms(1), of i w t d None] by simp
  moreover have "unat (get_reserve ?s ((j, w, t), e)) \<le> booked ?s t w"
    by (rule get_reserve_le_booked) (simp add: assms(1))
  moreover have "get_reserve ?s ((j, w, t), e) = get_reserve s ((j, w, t), e)" using assms(2) by auto
  ultimately show ?thesis by simp
qed

lemma merge_stash_succeeds:
  assumes "solvent E s"
  shows "\<exists>s1. merge_stash w t d s = Inr s1 \<and>
    unat (get_reserve s1 ((RESERVE_FOR_AUTHORIZING, w, t), d)) =
      unat (get_reserve s ((RESERVE_FOR_AUTHORIZING, w, t), d)) + unat (get_reserve s ((RESERVE_FOR_AUTHORIZING_STASH, w, t), d)) \<and>
    get_reserve s1 ((RESERVE_FOR_AUTHORIZING_STASH, w, t), d) = 0 \<and>
    Dominators s1 = Dominators s \<and> free_balance E s1 = free_balance E s"
proof -
  let ?ka = "((RESERVE_FOR_AUTHORIZING, w, t), d)"
  let ?ks = "((RESERVE_FOR_AUTHORIZING_STASH, w, t), d)"
  have ne: "?ka \<noteq> ?ks" by (simp add: reserve_ids)
  have fb: "free_balance E (put_reserve k v u) = free_balance E u" for k v and u :: "('a, 'd, 'e) verifier_chain_scheme"
    by (rule balance_of_same(1)) simp_all
  show ?thesis
  proof (cases "get_reserve s ?ks > 0")
    case True
    have "unat (get_reserve s ?ka) + unat (get_reserve s ?ks) \<le> booked s t w"
      by (rule two_le_booked) (use assms in \<open>simp_all add: solvent_def reserve_ids\<close>)
    also have "\<dots> \<le> unat (reserved_balance E s t w)" using assms by (simp add: solvent_def)
    also have "\<dots> < 2 ^ LENGTH(128)" by (rule unsigned_less)
    finally obtain x where "checked_add (get_reserve s ?ka) (get_reserve s ?ks) = Some x"
      "unat x = unat (get_reserve s ?ka) + unat (get_reserve s ?ks)"
      using checked_add_Some [of "get_reserve s ?ka" "get_reserve s ?ks"] by (auto simp: checked_add_def unat_add_no_wrap)
    with True ne show ?thesis by (simp add: merge_stash_def Let_def fb)
  next
    case False
    then have "get_reserve s ?ks = 0" by (simp add: word_greater_zero_iff)
    with False ne show ?thesis by (simp add: merge_stash_def Let_def fb)
  qed
qed

lemma revoke_evicted:
  assumes "balances_spec E" "solvent E s" "get_dominator s d = Some D" "d_status D = DOMINATOR_EVICTED"
    and "v \<le> get_reserve s ((RESERVE_FOR_AUTHORIZING, w, native_token_id E), d)"
  shows "\<exists>s'. revoke_from E w d (native_token_id E) v cb s = Inr s' \<and> solvent E s' \<and> get_dominator s' d = Some D \<and>
    unat (get_reserve s' ((RESERVE_FOR_AUTHORIZING, w, native_token_id E), d)) + unat v =
      unat (get_reserve s ((RESERVE_FOR_AUTHORIZING, w, native_token_id E), d)) +
      unat (get_reserve s ((RESERVE_FOR_AUTHORIZING_STASH, w, native_token_id E), d)) \<and>
    get_reserve s' ((RESERVE_FOR_AUTHORIZING_STASH, w, native_token_id E), d) = 0 \<and>
    unat (free_balance E s' (native_token_id E) w) = unat (free_balance E s (native_token_id E) w) + unat v"
proof -
  let ?t = "native_token_id E"
  let ?ka = "((RESERVE_FOR_AUTHORIZING, w, ?t), d)"
  let ?ks = "((RESERVE_FOR_AUTHORIZING_STASH, w, ?t), d)"
  obtain s1 where m: "merge_stash w ?t d s = Inr s1"
    and a: "unat (get_reserve s1 ?ka) = unat (get_reserve s ?ka) + unat (get_reserve s ?ks)"
    and st: "get_reserve s1 ?ks = 0" and ds: "Dominators s1 = Dominators s" and fb: "free_balance E s1 = free_balance E s"
    using merge_stash_succeeds [OF assms(2)] by blast
  have "fin_reserves s1" "booked s1 ?t w \<le> unat (reserved_balance E s1 ?t w)"
    using merge_stash_effect [OF m, of E] assms(2) by blast+
  moreover have "unat v \<le> unat (get_reserve s1 ?ka)" using assms(5) a by (simp add: word_le_nat_alt)
  ultimately obtain s2 where u: "unreserve E RESERVE_FOR_AUTHORIZING w ?t v d s1 = Inr s2"
    using unreserve_succeeds by blast
  let ?s' = "deposit_event (VerifierEv (TokenRevoked w d ?t v)) (put_receipt (d, w) None s2)"
  have run: "revoke_from E w d ?t v cb s = Inr ?s'"
    using assms(3-5) by (simp add: revoke_from_def has_authorized_morethan_def dominator_statuses m u)
  have gr: "get_reserve ?s' k = get_reserve s2 k" for k by (simp add: get_reserve_def)
  note ug = unreserve_get(2) [OF u]
  have "solvent E ?s'" using safe_revoke_from [OF assms(1) run] assms(2) by (simp add: safe_def)
  moreover have "get_dominator ?s' d = Some D"
    using unreserve_own_rest(1) [OF u] ds assms(3) by (simp add: get_dominator_def)
  moreover have "unat (get_reserve ?s' ?ka) + unat v = unat (get_reserve s ?ka) + unat (get_reserve s ?ks)"
    using ug [of ?ka] a by (simp add: gr)
  moreover have "get_reserve ?s' ?ks = 0" using ug [of ?ks] st by (simp add: gr reserve_ids unat_eq_0_iff)
  moreover have "free_balance E ?s' = free_balance E s2" by (rule balance_of_same(1)) simp_all
  ultimately show ?thesis using run unreserve_free [OF assms(1) u, of ?t w] fb by auto
qed

text \<open>
  C32: nobody's funds are locked in by an eviction: from an evicted dominator a user gets all his
  native currency back with two revocations, first of what is authorised, then of what was still
  in the stash. Both succeed, at once and without the dominator's help.
\<close>

theorem evicted_funds_recoverable:
  assumes "balances_spec E" "keeps disp (vrf_inv E)" "vrf_reachable E disp s"
    and "get_dominator s d = Some D" "d_status D = DOMINATOR_EVICTED"
    and a_def: "a = get_reserve s ((RESERVE_FOR_AUTHORIZING, w, native_token_id E), d)"
    and b_def: "b = get_reserve s ((RESERVE_FOR_AUTHORIZING_STASH, w, native_token_id E), d)"
  shows "\<exists>s1 s2. revoke_from E w d (native_token_id E) a None s = Inr s1 \<and>
    revoke_from E w d (native_token_id E) b None s1 = Inr s2 \<and>
    unat (free_balance E s2 (native_token_id E) w) = unat (free_balance E s (native_token_id E) w) + unat a + unat b \<and>
    get_reserve s2 ((RESERVE_FOR_AUTHORIZING, w, native_token_id E), d) = 0 \<and>
    get_reserve s2 ((RESERVE_FOR_AUTHORIZING_STASH, w, native_token_id E), d) = 0"
proof -
  have sol: "solvent E s" using vrf_reachable_inv [OF assms(1-3)] by (simp add: vrf_inv_def)
  obtain s1 where s1: "revoke_from E w d (native_token_id E) a None s = Inr s1" "solvent E s1" "get_dominator s1 d = Some D"
    "unat (get_reserve s1 ((RESERVE_FOR_AUTHORIZING, w, native_token_id E), d)) + unat a = unat a + unat b"
    "get_reserve s1 ((RESERVE_FOR_AUTHORIZING_STASH, w, native_token_id E), d) = 0"
    "unat (free_balance E s1 (native_token_id E) w) = unat (free_balance E s (native_token_id E) w) + unat a"
    using revoke_evicted [OF assms(1) sol assms(4,5), of a w None] by (auto simp: a_def b_def)
  then have b: "get_reserve s1 ((RESERVE_FOR_AUTHORIZING, w, native_token_id E), d) = b" by (simp add: word_unat_eq_iff)
  show ?thesis
    using revoke_evicted [OF assms(1) s1(2,3) assms(5), of b w None] s1 b
    by (auto simp: unat_eq_0_iff)
qed

definition v_evicted :: sample_chain where
  "v_evicted = v5\<lparr>Dominators := [(bob, dominator_of 150 3)],
     events := events v5 @ [VerifierEv (vrf_event.DominatorEvicted bob)]\<rparr>"

lemma v_evicted_reachable: "vrf_reachable vrf_env sample_disp v_evicted"
proof -
  have "vrf_dispatch vrf_env sample_disp Root (Call_evict bob) v5 = Inr v_evicted"
    by (simp add: evict_def v_evicted_def v_run_defs get_dominator_def put_dominator_def deposit_event_def
        dominator_of_def dominator_statuses)
  then show ?thesis by (blast intro: vrf_next step_call v_reachable(3))
qed

theorem evicted_funds_recoverable_witness:
  "\<exists>s1 s2. revoke_from vrf_env alice bob 0 0 None v_evicted = Inr s1 \<and>
     revoke_from vrf_env alice bob 0 30 None s1 = Inr s2 \<and>
     unat (free_balance vrf_env s2 0 alice) = unat (free_balance vrf_env v_evicted 0 alice) + 30"
proof -
  have D: "get_dominator v_evicted bob = Some (dominator_of 150 3)" "d_status (dominator_of 150 3) = DOMINATOR_EVICTED"
    by (simp_all add: v_evicted_def get_dominator_def dominator_of_def dominator_statuses)
  have r: "get_reserve v_evicted ((RESERVE_FOR_AUTHORIZING, alice, 0), bob) = 0"
    "get_reserve v_evicted ((RESERVE_FOR_AUTHORIZING_STASH, alice, 0), bob) = 30"
    by (simp_all add: v_evicted_def get_reserve_def v5_def v4_def reserve_ids)
  show ?thesis
    using evicted_funds_recoverable [OF spec_vrf_env(1) sample_disp_keeps v_evicted_reachable D refl refl, of alice] r
    by auto
qed

section \<open>The unlock block\<close>

lemma unlock_block:
  assumes "unat b + 57600 < 2 ^ 32" "G \<noteq> 0"
  shows "unat (b - b mod G + UNSTAKE_DELAY_BLOCKS) = unat b div unat G * unat G + 57600"
proof -
  have "b mod G \<le> b" by (simp add: word_le_nat_alt unat_mod)
  then have "unat (b - b mod G) = unat b - unat b mod unat G" by (simp add: unat_sub unat_mod)
  also have "\<dots> = unat b div unat G * unat G" by (simp add: minus_mod_eq_div_mult)
  finally have e: "unat (b - b mod G) = unat b div unat G * unat G" .
  have le: "unat b div unat G * unat G \<le> unat b" by (rule div_times_less_eq_dividend)
  have "unat UNSTAKE_DELAY_BLOCKS = 57600" by (simp add: UNSTAKE_DELAY_BLOCKS_def)
  moreover have "unat (b - b mod G) \<le> unat b" using e le by (simp only:)
  ultimately have "unat (b - b mod G) + unat UNSTAKE_DELAY_BLOCKS < 2 ^ LENGTH(32)"
    using assms(1) by simp
  then show ?thesis by (simp add: unat_add_no_wrap e) (simp add: UNSTAKE_DELAY_BLOCKS_def)
qed

text \<open>
  C33: unstaking schedules the amount for a block that is less than one check period short of
  four days (57600 blocks) ahead; the hook acts at that block, so that the funds come back, exactly
  when the check period divides 57600.
\<close>

theorem unstake_schedule:
  assumes "unstake_from E w d v s = Inr s'" and "unat (block_number s) + 57600 < 2 ^ 32"
  shows "\<exists>at x. map_of (PendingUnstakings s' at) w = Some x \<and> unat x = unat (pend s at w) + unat v \<and>
    unat at \<le> unat (block_number s) + 57600 \<and>
    unat (block_number s) + 57600 < unat at + unat (DominatorCheckGracePeriod E) \<and>
    (at mod DominatorCheckGracePeriod E = 0 \<longleftrightarrow> 57600 mod unat (DominatorCheckGracePeriod E) = 0)"
proof -
  let ?G = "DominatorCheckGracePeriod E"
  from assms(1) obtain D tot s1 where ent: "unstake_entry E w d v D s = Inr s1"
    and own': "own s' = own (put_dominator d (D\<lparr>d_staked := tot,
       d_status := (if d_status D \<noteq> DOMINATOR_EVICTED then online_status E tot else d_status D)\<rparr>) s1)"
    by (rule unstake_from_elim)
  from ent obtain s2 s3 season x at s4 remain where
    u: "unreserve E RESERVE_FOR_STAKING w (native_token_id E) v d s = Inr s2"
    and r: "reserve E RESERVE_FOR_PENDING_UNSTAKE w (native_token_id E) v (system_account E) s2 = Inr s3"
    and at: "at = block_number s - block_number s mod ?G + UNSTAKE_DELAY_BLOCKS"
    and x: "unat x = unat (pend s3 at w) + unat v"
    and o4: "own s4 = own (s3\<lparr>PendingUnstakings := (PendingUnstakings s3)(at := AList.update w x (PendingUnstakings s3 at))\<rparr>)"
    and s1: "s1 = put_staking (d, w) (if remain \<noteq> 0 then Some \<lparr>from_season = season, stk_amount = remain\<rparr> else None) s4"
    by (rule unstake_entry_elim)
  have G: "?G \<noteq> 0" using ent by (auto simp: unstake_entry_def res_simps)
  have p3: "PendingUnstakings s3 = PendingUnstakings s"
    using unreserve_own_rest(3) [OF u] reserve_own_rest(3) [OF r] by simp
  have "PendingUnstakings s' at = AList.update w x (PendingUnstakings s at)"
    using ownD(6) [OF own'] ownD(6) [OF o4] p3 by (simp add: s1)
  then have m: "map_of (PendingUnstakings s' at) w = Some x" by (simp add: update_conv')
  have ua: "unat at = unat (block_number s) div unat ?G * unat ?G + 57600"
    unfolding at by (rule unlock_block [OF assms(2) G])
  have div: "unat (block_number s) div unat ?G * unat ?G + unat (block_number s) mod unat ?G = unat (block_number s)"
    by (rule div_mult_mod_eq)
  have "unat (block_number s) mod unat ?G < unat ?G" using G by (simp add: unat_gt_0)
  moreover have "at mod ?G = 0 \<longleftrightarrow> 57600 mod unat ?G = 0"
    by (simp add: word_unat_eq_iff unat_mod ua)
  moreover have "unat x = unat (pend s at w) + unat v" using x p3 by (simp add: pend_def)
  moreover have "unat at \<le> unat (block_number s) + 57600" using ua div by linarith
  moreover have "unat (block_number s) + 57600 < unat at + unat ?G" using ua div calculation(1) by linarith
  ultimately show ?thesis using m by (intro exI [of _ at] exI [of _ x] conjI)
qed

theorem unstake_schedule_witness:
  "unstake_from vrf_env alice bob 50 v3 = Inr v4 \<and>
   (\<exists>at x. map_of (PendingUnstakings v4 at) alice = Some x \<and> unat x = unat (pend v3 at alice) + 50 \<and>
      unat at \<le> 150 + 57600 \<and> 150 + 57600 < unat at + 10 \<and> at mod 10 = 0)"
proof -
  have run: "unstake_from vrf_env alice bob 50 v3 = Inr v4" using v4_run by (simp add: unstake_def)
  have b: "unat (block_number v3) = 150" by (simp add: v3_def v0_def)
  from unstake_schedule [OF run] run show ?thesis by (simp add: b)
qed

section \<open>The stash\<close>

lemma transfer_in_books:
  assumes "fin_reserves s" "handle_transfer_in d t v p s = Inr s'"
  shows "booked s' t (user_id p) + unat (get_reserve s ((RESERVE_FOR_AUTHORIZING_STASH, user_id p, t), d)) =
      booked s t (user_id p) + unat v \<and> reserved_balance E s' = reserved_balance E s"
proof -
  let ?w = "user_id p"
  let ?ka = "((RESERVE_FOR_AUTHORIZING, ?w, t), d)"
  let ?ks = "((RESERVE_FOR_AUTHORIZING_STASH, ?w, t), d)"
  have ne: "?ka \<noteq> ?ks" by (simp add: reserve_ids)
  from assms(2) obtain x where x: "unat x = unat (get_reserve s ?ka) + unat v"
    and s': "s' = put_receipt (d, ?w) None (put_reserve ?ka (Some x) (put_reserve ?ks None s))"
    using ne by (auto simp: handle_transfer_in_def Let_def res_simps checked_add_Some)
  have b: "booked s' = booked (put_reserve ?ka (Some x) (put_reserve ?ks None s))"
    by (rule booked_same) (simp add: s')
  have "booked (put_reserve ?ks None s) t ?w + unat (get_reserve s ?ks) = booked s t ?w"
    using booked_put [OF assms(1), of RESERVE_FOR_AUTHORIZING_STASH ?w t d None] by simp
  moreover have "booked s' t ?w + unat (get_reserve s ?ka) = booked (put_reserve ?ks None s) t ?w + unat x"
    using booked_put [of "put_reserve ?ks None s" RESERVE_FOR_AUTHORIZING ?w t d "Some x"] ne assms(1)
    by (simp add: b)
  ultimately show ?thesis using x by (simp add: s')
qed

text \<open>
  C34: the proof of a rejected transfer-in drops the receipt but leaves the stash reserved. After a new
  authorisation the proof of its transfer-in removes the whole stash from the ledger and books only its
  own amount, so that what the rejected authorisation had reserved is owned by nobody: the token
  pallet keeps it reserved while the ledger has lost it.
\<close>

theorem rejected_stash_lost:
  assumes "balances_spec E" "solvent E s" and "Receipts s (d, user_id p) = Some (Authorize t a n)"
    and "handle_reject_transfer_in d p s = Inr s1"
    and "authorize_to E (user_id p) d t v s1 = Inr s2"
    and "handle_transfer_in d t v q s2 = Inr s3" and "user_id q = user_id p"
  shows "Receipts s1 (d, user_id p) = None \<and>
    a \<le> get_reserve s1 ((RESERVE_FOR_AUTHORIZING_STASH, user_id p, t), d) \<and>
    unat (reserved_balance E s3 t (user_id p)) = unat (reserved_balance E s t (user_id p)) + unat v \<and>
    booked s3 t (user_id p) + unat (get_reserve s ((RESERVE_FOR_AUTHORIZING_STASH, user_id p, t), d)) =
      booked s t (user_id p) + unat v"
proof -
  let ?w = "user_id p"
  let ?ks = "((RESERVE_FOR_AUTHORIZING_STASH, ?w, t), d)"
  have s1: "s1 = put_receipt (d, ?w) None s" using assms(3,4) by (simp add: handle_reject_transfer_in_def)
  have fin: "fin_reserves s1" using assms(2) fin_reserves_same [of s1 s] by (simp add: solvent_def s1)
  from assms(5) obtain u m where r: "reserve E RESERVE_FOR_AUTHORIZING_STASH ?w t v d s1 = Inr u"
    and s2: "s2 = deposit_event (VerifierEv (TokenHosted ?w d t v)) (put_receipt (d, ?w) (Some (Authorize t v m)) u)"
    by (auto simp: authorize_to_def res_simps)
  have u: "fin_reserves u" "booked u t ?w = booked s1 t ?w + unat v" using reserve_ledger [OF fin r, of t ?w] by simp_all
  have same: "Reserves s2 = Reserves u" "Reserves s1 = Reserves s" by (simp_all add: s2 s1)
  have fin2: "fin_reserves s2" using u(1) fin_reserves_same [OF same(1)] by simp
  have st: "unat (get_reserve s2 ?ks) = unat (get_reserve s ?ks) + unat v"
    using reserve_get(2) [OF r, of ?ks] same by (simp add: get_reserve_def)
  have rb: "unat (reserved_balance E s2 t ?w) = unat (reserved_balance E s1 t ?w) + unat v"
    using cust.hold_reserved [OF assms(1) r, of t ?w] by (simp add: s2)
  have "a \<le> get_reserve s ?ks" using assms(2,3) unfolding solvent_def receipts_backed_def by blast
  then have "a \<le> get_reserve s1 ?ks" by (simp add: s1 get_reserve_def)
  with transfer_in_books [OF fin2 assms(6), of E] rb st u(2) booked_same [OF same(1)] booked_same [OF same(2)] assms(7)
  show ?thesis by (simp add: s1)
qed

definition proof_of :: "command \<Rightarrow> merkle_leaf list \<Rightarrow> proof_rec" where
  "proof_of c ls = \<lparr>event_id = 1, user_id = alice, cmd = c, leaves = ls, maker_page_delta = 0,
     maker_account_delta = 0, merkle_proof = [], proof_root = replicate 32 7\<rparr>"

definition v6 :: sample_chain where
  "v6 = v5\<lparr>native := sb_put alice (1000, 250) (native v0),
     Reserves := (Reserves v4)(((RESERVE_FOR_AUTHORIZING_STASH, alice, 0), bob) \<mapsto> 50),
     Receipts := [(bob, alice) \<mapsto> Authorize 0 20 150],
     events := events v5 @ [VerifierEv (TokenHosted alice bob 0 20)]\<rparr>"

theorem rejected_stash_lost_witness:
  "\<exists>s1 s3. handle_reject_transfer_in bob (proof_of RejectTransferIn []) v5 = Inr s1 \<and>
     authorize_to vrf_env alice bob 0 20 s1 = Inr v6 \<and>
     handle_transfer_in bob 0 20 (proof_of (TransferIn 0 20) [mk_leaf (account_key 0 alice) (0, 0) (20, 0)]) v6 = Inr s3 \<and>
     unat (reserved_balance vrf_env s3 0 alice) = unat (reserved_balance vrf_env v5 0 alice) + 20 \<and>
     booked s3 0 alice + 30 = booked v5 0 alice + 20"
proof -
  let ?p = "proof_of RejectTransferIn []" and ?q = "proof_of (TransferIn 0 20) [mk_leaf (account_key 0 alice) (0, 0) (20, 0)]"
  let ?s1 = "v5\<lparr>Receipts := Map.empty\<rparr>"
  have p: "user_id ?p = alice" "user_id ?q = alice" by (simp_all add: proof_of_def)
  have r: "Receipts v5 (bob, user_id ?p) = Some (Authorize 0 30 150)" by (simp add: v5_def p)
  have st: "unat (get_reserve v5 ((RESERVE_FOR_AUTHORIZING_STASH, alice, 0), bob)) = 30"
    by (simp add: v5_def get_reserve_def)
  have 1: "handle_reject_transfer_in bob ?p v5 = Inr ?s1"
    by (simp add: handle_reject_transfer_in_def p v5_def put_receipt_def)
  have 2: "authorize_to vrf_env (user_id ?p) bob 0 20 ?s1 = Inr v6"
    by (simp add: p authorize_to_def v6_def v_run_defs get_dominator_def deposit_event_def
        dominator_of_def dominator_statuses can_reserve_def put_receipt_def reserve_def
        token_reserve_def sb_reserve_def sb_free_def sb_put_def
        sb_reserved_def get_reserve_def put_reserve_def checked_add_def reserve_ids)
  have "\<exists>s3. handle_transfer_in bob 0 20 ?q v6 = Inr s3"
    by (simp add: handle_transfer_in_def p v6_def) 
      (simp add: proof_of_def verify_transfer_in_def index_def get_reserve_def checked_add_def v5_def v4_def v3_def v0_def reserve_ids)
  then obtain s3 where 3: "handle_transfer_in bob 0 20 ?q v6 = Inr s3" by blast
  have sol: "solvent vrf_env v5"
    using vrf_reachable_inv [OF spec_vrf_env(1) sample_disp_keeps v_reachable(3)] by (simp add: vrf_inv_def)
  from rejected_stash_lost [OF spec_vrf_env(1) sol r 1 2 3] 1 2 3 p st show ?thesis by auto
qed

end
