(* ===== verification/Fuso_Verifier_Machine.thy ===== *)
theory Fuso_Verifier_Machine
  imports Fuso_Verifier_Props
begin

text \<open>
  Two state machines of the verifier pallet: the status of a dominator (registered, inactive,
  active, evicted), which the properties of the composed runtime build on, and the chain of Merkle roots
  that accepted proofs form.
\<close>

section \<open>The status of a dominator\<close>

text \<open>The ways of the status: launched once, then active or inactive at will, evicted for good.\<close>

definition status_path :: "u8 \<Rightarrow> u8 \<Rightarrow> bool" where
  "status_path a b \<longleftrightarrow> b = a \<or> b = DOMINATOR_EVICTED \<or>
     a \<noteq> DOMINATOR_EVICTED \<and> (b = DOMINATOR_INACTIVE \<or> b = DOMINATOR_ACTIVE)"

text \<open>Names are valid and belong to one dominator each, and the status is one of the four.\<close>

definition dominators_ok :: "('b, 'c, 'z) verifier_chain_scheme \<Rightarrow> bool" where
  "dominators_ok s \<longleftrightarrow> (\<forall>d D. get_dominator s d = Some D \<longrightarrow>
     valid_identifier (d_name D) \<and>
     d_status D \<in> {DOMINATOR_REGISTERED, DOMINATOR_INACTIVE, DOMINATOR_ACTIVE, DOMINATOR_EVICTED} \<and>
     (\<forall>e D'. get_dominator s e = Some D' \<longrightarrow> d_name D' = d_name D \<longrightarrow> e = d))"

definition evolves :: "('b, 'c, 'z) verifier_chain_scheme \<Rightarrow> ('b, 'c, 'z) verifier_chain_scheme \<Rightarrow> bool" where
  "evolves s s' \<longleftrightarrow> (dominators_ok s \<longrightarrow> dominators_ok s') \<and> (\<forall>d D. get_dominator s d = Some D \<longrightarrow>
     (\<exists>D'. get_dominator s' d = Some D' \<and> d_name D' = d_name D \<and> d_start_from D' = d_start_from D \<and>
        status_path (d_status D) (d_status D')))"

lemma get_dominator_deposit [simp]: "get_dominator (deposit_event e s) a = get_dominator s a"
  by (simp add: get_dominator_def)

lemma status_path_refl [simp]: "status_path a a" by (simp add: status_path_def)

lemma status_path_trans: "status_path a b \<Longrightarrow> status_path b c \<Longrightarrow> status_path a c"
  by (auto simp: status_path_def dominator_statuses)

lemma evolves_refl [simp]: "evolves s s" by (simp add: evolves_def)

lemma evolvesD:
  assumes "evolves s s'" "get_dominator s d = Some D"
  obtains D' where "get_dominator s' d = Some D'" "d_name D' = d_name D" "d_start_from D' = d_start_from D"
    "status_path (d_status D) (d_status D')"
  using assms unfolding evolves_def by blast

lemma evolves_trans:
  assumes "evolves s s1" "evolves s1 s2"
  shows "evolves s s2"
  unfolding evolves_def
proof (intro conjI allI impI)
  show "dominators_ok s2" if "dominators_ok s" using that assms by (simp add: evolves_def)
  fix d D
  assume "get_dominator s d = Some D"
  with assms(1) obtain D1 where D1: "get_dominator s1 d = Some D1" "d_name D1 = d_name D" "d_start_from D1 = d_start_from D"
    "status_path (d_status D) (d_status D1)" by (rule evolvesD)
  obtain D2 where "get_dominator s2 d = Some D2" "d_name D2 = d_name D1" "d_start_from D2 = d_start_from D1"
    "status_path (d_status D1) (d_status D2)" by (rule evolvesD [OF assms(2) D1(1)])
  with D1 show "\<exists>D'. get_dominator s2 d = Some D' \<and> d_name D' = d_name D \<and> d_start_from D' = d_start_from D \<and>
      status_path (d_status D) (d_status D')" using status_path_trans by auto
qed

lemma evolves_dinfo:
  assumes "dinfo s' = dinfo s"
  shows "evolves s s'"
  unfolding evolves_def
proof (intro conjI allI impI)
  show "dominators_ok s'" if "dominators_ok s"
    unfolding dominators_ok_def
  proof (intro allI impI)
    fix d D'
    assume "get_dominator s' d = Some D'"
    from dinfo_SomeD [OF assms this] obtain D where D: "get_dominator s d = Some D" "d_name D' = d_name D" "d_status D' = d_status D"
      by auto
    have "e = d" if "get_dominator s' e = Some F'" "d_name F' = d_name D'" for e F'
    proof -
      from dinfo_SomeD [OF assms that(1)] obtain F where "get_dominator s e = Some F" "d_name F' = d_name F" by auto
      with \<open>dominators_ok s\<close> D(1,2) that(2) show ?thesis unfolding dominators_ok_def by metis
    qed
    moreover have "valid_identifier (d_name D) \<and>
        d_status D \<in> {DOMINATOR_REGISTERED, DOMINATOR_INACTIVE, DOMINATOR_ACTIVE, DOMINATOR_EVICTED}"
      using that D(1) unfolding dominators_ok_def by blast
    ultimately show "valid_identifier (d_name D') \<and>
        d_status D' \<in> {DOMINATOR_REGISTERED, DOMINATOR_INACTIVE, DOMINATOR_ACTIVE, DOMINATOR_EVICTED} \<and>
        (\<forall>e F'. get_dominator s' e = Some F' \<longrightarrow> d_name F' = d_name D' \<longrightarrow> e = d)"
      unfolding D(2,3) by blast
  qed
  fix d D
  assume "get_dominator s d = Some D"
  then obtain D' where "get_dominator s' d = Some D'" "d_name D' = d_name D" "d_start_from D' = d_start_from D"
    "d_status D' = d_status D"
    using dinfo_SomeD [OF assms [symmetric], of d D] by auto
  then show "\<exists>D'. get_dominator s' d = Some D' \<and> d_name D' = d_name D \<and> d_start_from D' = d_start_from D \<and>
      status_path (d_status D) (d_status D')" by auto
qed

lemma evolves_dominators: "Dominators s' = Dominators s \<Longrightarrow> evolves s s'"
  by (intro evolves_dinfo dinfo_same)

lemma evolves_safe: "solvent E s \<Longrightarrow> safe E s s' \<Longrightarrow> evolves s s'"
  by (rule evolves_dinfo) (simp add: safe_def vframe_def)

lemma status_path_ok:
  "status_path a b \<Longrightarrow> a \<in> {DOMINATOR_REGISTERED, DOMINATOR_INACTIVE, DOMINATOR_ACTIVE, DOMINATOR_EVICTED} \<Longrightarrow>
   b \<in> {DOMINATOR_REGISTERED, DOMINATOR_INACTIVE, DOMINATOR_ACTIVE, DOMINATOR_EVICTED}"
  by (auto simp: status_path_def)

text \<open>One dominator changes, or is new with a valid name that no other has.\<close>

lemma evolves_put:
  assumes dom: "\<And>a. get_dominator s' a = (if a = d then Some D' else get_dominator s a)"
    and old: "\<And>D. get_dominator s d = Some D \<Longrightarrow>
      d_name D' = d_name D \<and> d_start_from D' = d_start_from D \<and> status_path (d_status D) (d_status D')"
    and new: "get_dominator s d = None \<Longrightarrow> valid_identifier (d_name D') \<and> d_status D' = DOMINATOR_REGISTERED \<and>
      (\<forall>e F. get_dominator s e = Some F \<longrightarrow> d_name F \<noteq> d_name D')"
  shows "evolves s s'"
proof -
  have "dominators_ok s'" if ok: "dominators_ok s"
    unfolding dominators_ok_def
  proof (intro allI impI)
    fix a F'
    assume a: "get_dominator s' a = Some F'"
    note okD = ok [unfolded dominators_ok_def, rule_format]
    have "valid_identifier (d_name F') \<and>
        d_status F' \<in> {DOMINATOR_REGISTERED, DOMINATOR_INACTIVE, DOMINATOR_ACTIVE, DOMINATOR_EVICTED}"
    proof (cases "a = d")
      case True
      with a have F: "F' = D'" by (simp add: dom)
      show ?thesis
      proof (cases "get_dominator s d")
        case None
        with new show ?thesis unfolding F by simp
      next
        case (Some D)
        from okD [OF Some] status_path_ok [of "d_status D" "d_status D'"] old [OF Some] show ?thesis unfolding F by metis
      qed
    next
      case False
      with a have "get_dominator s a = Some F'" by (simp add: dom)
      from okD [OF this] show ?thesis by blast
    qed
    moreover have "e = a" if e: "get_dominator s' e = Some G'" and n: "d_name G' = d_name F'" for e G'
    proof (cases "get_dominator s d")
      case None
      have other: "get_dominator s b = Some H \<or> b = d \<and> H = D'" if "get_dominator s' b = Some H" for b H
        using that by (auto simp: dom split: if_splits)
      from other [OF a] other [OF e] n new [OF None] show ?thesis
        by (elim disjE conjE) (use okD [of a F'] in auto)
    next
      case (Some D)
      have same: "\<exists>F. get_dominator s b = Some F \<and> d_name F = d_name H" if "get_dominator s' b = Some H" for b H
        using that old [OF Some] Some by (auto simp: dom split: if_splits)
      from same [OF a] same [OF e] obtain F G where "get_dominator s a = Some F" "d_name F = d_name F'"
        "get_dominator s e = Some G" "d_name G = d_name G'" by blast
      with okD [of a F] n show ?thesis by simp
    qed
    ultimately show "valid_identifier (d_name F') \<and>
        d_status F' \<in> {DOMINATOR_REGISTERED, DOMINATOR_INACTIVE, DOMINATOR_ACTIVE, DOMINATOR_EVICTED} \<and>
        (\<forall>e G'. get_dominator s' e = Some G' \<longrightarrow> d_name G' = d_name F' \<longrightarrow> e = a)" by blast
  qed
  then show ?thesis using dom old by (auto simp: evolves_def)
qed

lemma evolves_stake:
  assumes "stake_on E w d v s = Inr s'"
  shows "evolves s s'"
proof -
  from assms obtain D s1 where D: "get_dominator s d = Some D" and ent: "stake_entry E w d v D s = Inr s1"
    and own': "own s' = own (put_dominator d (D\<lparr>d_staked := d_staked D + v, d_status := online_status E (d_staked D + v)\<rparr>) s1)"
    by (rule stake_on_elim)
  have st: "d_status D = DOMINATOR_ACTIVE \<or> d_status D = DOMINATOR_INACTIVE"
    using assms D by (auto simp: stake_on_def res_simps)
  have "get_dominator s1 a = get_dominator s a" for a
    using ent
  proof (cases rule: stake_entry_elim)
    case (1 s2 s3 season)
    then show ?thesis using ownD(2) [OF 1(3)] reserve_own_rest(1) [OF 1(1)] by (simp add: get_dominator_def)
  qed
  then have dom: "get_dominator s' a = (if a = d then Some (D\<lparr>d_staked := d_staked D + v,
      d_status := online_status E (d_staked D + v)\<rparr>) else get_dominator s a)" for a
    using ownD(8) [OF own'] by simp
  show ?thesis
    by (rule evolves_put [OF dom]) (use st D in \<open>auto simp: status_path_def online_status_def dominator_statuses\<close>)
qed

lemma evolves_unstake:
  assumes "unstake_from E w d v s = Inr s'"
  shows "evolves s s'"
proof -
  from assms obtain D tot s1 where D: "get_dominator s d = Some D" and ent: "unstake_entry E w d v D s = Inr s1"
    and own': "own s' = own (put_dominator d (D\<lparr>d_staked := tot,
       d_status := (if d_status D \<noteq> DOMINATOR_EVICTED then online_status E tot else d_status D)\<rparr>) s1)"
    by (rule unstake_from_elim)
  have "get_dominator s1 a = get_dominator s a" for a
    using ent
  proof (cases rule: unstake_entry_elim)
    case (1 stk remain s2 s3 season x at s4)
    then show ?thesis
      using ownD(2) [OF 1(8)] reserve_own_rest(1) [OF 1(5)] unreserve_own_rest(1) [OF 1(4)] by (simp add: get_dominator_def)
  qed
  then have dom: "get_dominator s' a = (if a = d then Some (D\<lparr>d_staked := tot,
      d_status := (if d_status D \<noteq> DOMINATOR_EVICTED then online_status E tot else d_status D)\<rparr>) else get_dominator s a)" for a
    using ownD(8) [OF own'] by simp
  show ?thesis
    by (rule evolves_put [OF dom]) (use D in \<open>auto simp: status_path_def online_status_def\<close>)
qed

definition callbacks_evolve ::
  "('b, 'x) verifier_env_scheme \<Rightarrow> ('c \<Rightarrow> account \<Rightarrow> ('b, 'c, 'z) verifier_chain_scheme \<Rightarrow> ('b, 'c, 'z) verifier_chain_scheme result) \<Rightarrow> bool" where
  "callbacks_evolve E disp \<longleftrightarrow> (\<forall>cb w s s'. vrf_inv E s \<longrightarrow> disp cb w s = Inr s' \<longrightarrow> evolves s s')"

lemma evolves_verify:
  assumes "balances_spec E" "keeps disp (vrf_inv E)" "callbacks_evolve E disp"
    and "vrf_inv E s" "verify_batch E disp dom_id d ps s = Inr s'"
  shows "evolves s s'"
proof -
  let ?P = "\<lambda>u. vrf_inv E u \<and> evolves s u"
  have "kept_by_safe E ?P"
    unfolding kept_by_safe_def
  proof (intro allI impI conjI)
    fix u u'
    assume "safe E u u'" "?P u"
    then show "vrf_inv E u'" "evolves s u'"
      using safe_inv evolves_safe [of E u u'] evolves_trans [of s u u'] by (auto simp: vrf_inv_def)
  qed
  moreover have "keeps disp ?P"
    unfolding keeps_def
  proof (intro allI impI conjI)
    fix cb w u u'
    assume run: "disp cb w u = Inr u'" and "?P u"
    then have "vrf_inv E u" "evolves s u" by simp_all
    then show "vrf_inv E u'" "evolves s u'"
      using run assms(2,3) evolves_trans [of s u u'] unfolding keeps_def callbacks_evolve_def by blast+
  qed
  ultimately have "?P s'" by (rule keep_verify_batch [OF assms(1)]) (use assms(4,5) in simp_all)
  then show ?thesis by simp
qed

lemma evolves_call:
  assumes "balances_spec E" "keeps disp (vrf_inv E)" "callbacks_evolve E disp" "vrf_inv E s"
    and "vrf_dispatch E disp orig c s = Inr s'"
  shows "evolves s s'"
proof -
  have sol: "solvent E s" using assms(4) by (simp add: vrf_inv_def)
  show ?thesis
  proof (cases c)
    case (Call_register name)
    with assms(5) have "register E orig name s = Inr s'" by simp
    then show ?thesis
    proof (cases rule: register_elim)
      case (1 d m)
      have dom: "get_dominator s' a = (if a = d then Some \<lparr>d_name = name, d_staked = 0, d_merkle_root = replicate 32 0,
          d_start_from = block_number s - m, d_sequence = (0, block_number s), d_status = DOMINATOR_REGISTERED\<rparr>
        else get_dominator s a)" for a
        unfolding 1(3) by simp
      have fresh: "d_name F \<noteq> name" if "get_dominator s e = Some F" for e F
        using 1(5) map_of_SomeD [of "Dominators s" e F] that by (auto simp: get_dominator_def find_None_iff)
      show ?thesis by (rule evolves_put [OF dom]) (use 1(2,4) fresh in auto)
    qed
  next
    case (Call_evict target)
    with assms(5) obtain d D where D: "get_dominator s d = Some D"
      and s': "s' = deposit_event (VerifierEv (vrf_event.DominatorEvicted d)) (put_dominator d (D\<lparr>d_status := DOMINATOR_EVICTED\<rparr>) s)"
      by (auto simp: evict_def res_simps)
    show ?thesis by (rule evolves_put [of _ d "D\<lparr>d_status := DOMINATOR_EVICTED\<rparr>"]) (use D in \<open>auto simp: s' status_path_def\<close>)
  next
    case (Call_launch target)
    with assms(5) obtain d D where D: "get_dominator s d = Some D" "d_status D = DOMINATOR_REGISTERED"
      and s': "s' = deposit_event (VerifierEv (vrf_event.DominatorInactive d)) (put_dominator d (D\<lparr>d_status := DOMINATOR_INACTIVE\<rparr>) s)"
      by (auto simp: launch_def res_simps)
    show ?thesis
      by (rule evolves_put [of _ d "D\<lparr>d_status := DOMINATOR_INACTIVE\<rparr>"])
        (use D in \<open>auto simp: s' status_path_def dominator_statuses\<close>)
  next
    case (Call_verify_compress bs)
    with assms(5) show ?thesis
      using evolves_verify [OF assms(1-4)] by (auto simp: verify_compress_def res_simps)
  next
    case (Call_verify ps)
    with assms(5) show ?thesis using evolves_verify [OF assms(1-4)] by (auto simp: verify_def res_simps)
  next
    case (Call_stake target v)
    with assms(5) show ?thesis using evolves_stake by (auto simp: stake_def res_simps)
  next
    case (Call_unstake target v)
    with assms(5) show ?thesis using evolves_unstake by (auto simp: unstake_def res_simps)
  next
    case (Call_claim_shares target)
    with assms(5) obtain w d ds n s1 k x where t: "take_shares E w d ds s = Inr (n, s1)" and "s' = put_staking k x s1"
      by (auto simp: claim_shares_def res_simps)
    with ownD(2) [OF own_take_shares [OF t]] show ?thesis by (intro evolves_dominators) simp
  next
    case (Call_authorize target t v)
    with assms(5) show ?thesis
      using evolves_safe [OF sol safe_authorize_to [OF assms(1)]] by (auto simp: authorize_def res_simps)
  next
    case (Call_revoke target t v)
    with assms(5) show ?thesis
      using evolves_safe [OF sol safe_revoke_from [OF assms(1)]] by (auto simp: revoke_def res_simps)
  next
    case (Call_revoke_with_callback target t v cb)
    with assms(5) show ?thesis
      using evolves_safe [OF sol safe_revoke_from [OF assms(1)]] by (auto simp: revoke_with_callback_def res_simps)
  next
    case (Call_register_broker e w)
    with assms(5) obtain a s1 B where t: "transfer_token E a (native_token_id E) (BrokerStakingThreshold E) (system_account E) s = Inr s1"
      and "s' = s1\<lparr>Brokers := B\<rparr>" by (auto simp: register_broker_def Let_def res_simps)
    with ownD(2) [OF own_transfer [OF t]] show ?thesis by (intro evolves_dominators) simp
  next
    case Call_listing
    with assms(5) show ?thesis by (simp add: listing_def)
  next
    case (Call_dominator_set_beneficiary w sig)
    with assms(5) have "dominator_set_beneficiary E orig w sig s = Inr s'" by simp
    from settings_frame(3) [OF this, of E] have "own s' = own s" by blast
    then show ?thesis by (intro evolves_dominators ownD(2))
  qed (use assms(5) settings_frame(1,2,4) [of _ _ s s' E] in \<open>auto intro: evolves_dominators ownD(2)\<close>)
qed

lemma evolves_step:
  assumes "balances_spec E" "keeps disp (vrf_inv E)" "callbacks_evolve E disp" "vrf_inv E s" "vrf_step E disp s s'"
  shows "evolves s s'"
  using assms(5)
proof cases
  case (step_call orig c)
  then show ?thesis by (rule evolves_call [OF assms(1-4)])
next
  case (step_block n)
  from step_block(1) show ?thesis
  proof (cases rule: on_initialize_elim)
    case 1
    then show ?thesis by (intro evolves_dominators) simp
  next
    case (2 B)
    have "unlocked E (PendingUnstakings s n) (s\<lparr>block_number := n, Bonuses := B, PendingUnstakings := (PendingUnstakings s)(n := [])\<rparr>) s'"
      using hook_unlocks [OF assms(1) inv_block_number [OF assms(4), of n] refl, of n] 2(2) by simp
    then show ?thesis by (intro evolves_dominators) (simp add: unlocked_def)
  qed
next
  case (step_token_transfer orig t target v)
  then obtain a b where "transfer_token E a t v b s = Inr s'" by (auto simp: transfer_def res_simps)
  from ownD(2) [OF own_transfer [OF this]] show ?thesis by (rule evolves_dominators)
next
  case (step_take_reward orig)
  then obtain w c s1 where cl: "claim_reward E w (block_number s) s = Inr (c, s1)"
    and s': "s' = deposit_event (RewardEv (RewardClaimed w c)) s1" by (auto simp: take_reward_def res_simps)
  from cl have "own s1 = own s"
  proof (cases rule: claim_reward_elim)
    case (none era u)
    then show ?thesis using own_rotate by blast
  next
    case (some era u r u2)
    have "own u2 = own u"
      using some(6) by (auto simp: pay_reward_def try_mutate_account_def try_mutate_issuance_def res_simps split_beta)
    with own_rotate [OF some(2)] show ?thesis by (simp add: some(7))
  qed
  from ownD(2) [OF this] show ?thesis by (intro evolves_dominators) (simp add: s')
qed

section \<open>The chain of roots\<close>

definition next_root :: "proof_rec \<Rightarrow> merkle_hash \<Rightarrow> merkle_hash" where
  "next_root p r = (case cmd p of RejectTransferOut _ _ \<Rightarrow> r | RejectTransferIn \<Rightarrow> r | _ \<Rightarrow> proof_root p)"

fun root_chain :: "('b, 'x) verifier_env_scheme \<Rightarrow> merkle_hash \<Rightarrow> proof_rec list \<Rightarrow> bool" where
  "root_chain E r [] = True"
| "root_chain E r (p # ps) \<longleftrightarrow>
     smt_verify E (merkle_proof p) r (map (\<lambda>l. (blake2_256 E (l_key l), old_v l)) (leaves p)) = Some True \<and>
     smt_verify E (merkle_proof p) (proof_root p) (map (\<lambda>l. (blake2_256 E (l_key l), new_v l)) (leaves p)) = Some True \<and>
     root_chain E (next_root p r) ps"

lemma check_merkle_iff:
  "check_merkle E r p = Inr u \<longleftrightarrow>
     smt_verify E (merkle_proof p) r (map (\<lambda>l. (blake2_256 E (l_key l), old_v l)) (leaves p)) = Some True \<and>
     smt_verify E (merkle_proof p) (proof_root p) (map (\<lambda>l. (blake2_256 E (l_key l), new_v l)) (leaves p)) = Some True"
  by (auto simp: check_merkle_def Let_def res_simps)

definition stored_root :: "('b, 'c, 'z) verifier_chain_scheme \<Rightarrow> account \<Rightarrow> merkle_hash option" where
  "stored_root s d = map_option d_merkle_root (get_dominator s d)"

lemma step_forward_root:
  "step_forward d p ts = Inr (tr, s') \<Longrightarrow> trade_root tr = proof_root p \<and> stored_root s' d = Some (proof_root p)"
  by (auto simp: step_forward_def res_simps stored_root_def split: prod.splits)

lemma stored_root_receipt [simp]: "stored_root (put_receipt k r s) d = stored_root s d"
  by (simp add: stored_root_def get_dominator_def)

lemma verify_and_update_root:
  assumes "verify_and_update E disp d root at p s = Inr (tr, s')"
  shows "check_merkle E root p = Inr () \<and> trade_root tr = next_root p root \<and>
    (stored_root s d = Some root \<longrightarrow> stored_root s' d = Some (next_root p root))"
proof -
  have c: "check_merkle E root p = Inr ()" using assms by (auto simp: verify_and_update_def res_simps)
  show ?thesis
  proof (cases "cmd p")
    case (RejectTransferOut c v)
    with assms c show ?thesis
      by (auto simp: verify_and_update_def Let_def res_simps handle_reject_transfer_out_def next_root_def)
  next
    case RejectTransferIn
    with assms c show ?thesis
      by (auto simp: verify_and_update_def Let_def res_simps handle_reject_transfer_in_def next_root_def
          split: option.splits receipt.splits)
  qed (use assms c in \<open>auto simp: verify_and_update_def Let_def res_simps next_root_def dest!: step_forward_root\<close>)
qed

lemma verify_run_root:
  "rfold (verify_one E disp d at) ps (root, incr, s) = Inr (root', incr', s') \<Longrightarrow>
   root_chain E root ps \<and> root' = fold next_root ps root \<and>
   (stored_root s d = Some root \<longrightarrow> stored_root s' d = Some root')"
proof (induction ps arbitrary: root incr s)
  case Nil
  then show ?case by simp
next
  case (Cons p ps)
  from Cons.prems obtain a where one: "verify_one E disp d at p (root, incr, s) = Inr a"
    and rest: "rfold (verify_one E disp d at) ps a = Inr (root', incr', s')" by (auto simp: res_simps)
  from one obtain tr s1 where v: "verify_and_update E disp d root at p s = Inr (tr, s1)"
    and a: "a = (trade_root tr, record_trade tr incr, s1)" by (auto simp: verify_one_def res_simps)
  note r = rest [unfolded a]
  from verify_and_update_root [OF v] Cons.IH [OF r] show ?case by (auto simp: check_merkle_iff)
qed

lemma own_set_prices: "own (set_prices E incr s) = own s"
proof -
  have "own (fold (\<lambda>(t, b, q) u. set_price E t b q at u) incr s) = own s" for at
    by (induction incr arbitrary: s) (auto simp: set_price_def Let_def own_def)
  then show ?thesis by (simp add: set_prices_def)
qed

lemma set_prices_balances [simp]:
  "native (set_prices E incr s) = native s" "Balances (set_prices E incr s) = Balances s"
proof -
  have "native (fold (\<lambda>(t, b, q) u. set_price E t b q at u) incr s) = native s \<and>
      Balances (fold (\<lambda>(t, b, q) u. set_price E t b q at u) incr s) = Balances s" for at
    by (induction incr arbitrary: s) (auto simp: set_price_def Let_def)
  then show "native (set_prices E incr s) = native s" "Balances (set_prices E incr s) = Balances s"
    by (simp_all add: set_prices_def)
qed

lemma verify_stored_root:
  assumes "verify E disp (Signed d) ps s = Inr s'" "get_dominator s d = Some D"
  shows "root_chain E (d_merkle_root D) ps \<and> stored_root s' d = Some (fold next_root ps (d_merkle_root D))"
proof -
  from assms obtain root incr s1 where
    run: "rfold (verify_one E disp d (d_start_from D)) ps (d_merkle_root D, [], s) = Inr (root, incr, s1)"
    and s': "s' = set_prices E incr s1"
    by (auto simp: verify_def verify_batch_def res_simps)
  have "stored_root s d = Some (d_merkle_root D)" using assms(2) by (simp add: stored_root_def)
  moreover have "get_dominator s' d = get_dominator s1 d" using ownD(8) [OF own_set_prices, of E incr s1] by (simp add: s')
  ultimately show ?thesis using verify_run_root [OF run] by (auto simp: stored_root_def)
qed

definition alice_deposit :: proof_rec where
  "alice_deposit = proof_of (TransferIn 0 30) [mk_leaf (account_key 0 alice) (0, 0) (30, 0)]"

lemma v5_verify: "\<exists>s'. verify vrf_env sample_disp (Signed bob) [alice_deposit] v5 = Inr s'"
proof -
  have p: "cmd alice_deposit = TransferIn 0 30" "proof_root alice_deposit = replicate 32 7"
    by (simp_all add: alice_deposit_def proof_of_def)
  have D: "get_dominator v5 bob = Some (dominator_of 150 2)" by (simp add: v5_def v4_def get_dominator_def)
  have "\<exists>u. handle_transfer_in bob 0 30 alice_deposit v5 = Inr u \<and> get_dominator u bob = Some (dominator_of 150 2)"
    by (simp add: handle_transfer_in_def alice_deposit_def proof_of_def v5_def)
      (simp add: verify_transfer_in_def index_def get_reserve_def checked_add_def v4_def v3_def v0_def reserve_ids
        get_dominator_def put_receipt_def put_reserve_def)
  then obtain u where u: "handle_transfer_in bob 0 30 alice_deposit v5 = Inr u" "get_dominator u bob = Some (dominator_of 150 2)" by blast
  show ?thesis
    by (simp add: verify_def D verify_batch_def verify_one_def verify_and_update_def check_merkle_def current_season_def
        p u step_forward_def unwrap_def) (simp add: dominator_of_def dominator_statuses v5_def v4_def v3_def v0_def)
qed

text \<open>
  C2: a batch of proofs is accepted only when it is a chain: the first proof starts from the root
  that the chain holds for the dominator, each next one from the root its predecessor has proved
  (rejections do not move it), and the root of the last one is what the chain holds afterwards.
\<close>

theorem accepted_proofs_chain:
  assumes "verify E disp (Signed d) ps s = Inr s'"
  shows "\<exists>D D'. get_dominator s d = Some D \<and> d_status D = DOMINATOR_ACTIVE \<and>
    root_chain E (d_merkle_root D) ps \<and>
    get_dominator s' d = Some D' \<and> d_merkle_root D' = fold next_root ps (d_merkle_root D)"
proof -
  from assms obtain D where D: "get_dominator s d = Some D" "d_status D = DOMINATOR_ACTIVE"
    by (auto simp: verify_def res_simps)
  from verify_stored_root [OF assms D(1)] D show ?thesis by (auto simp: stored_root_def)
qed

theorem accepted_proofs_chain_witness:
  "\<exists>s' D'. verify vrf_env sample_disp (Signed bob) [alice_deposit] v5 = Inr s' \<and>
     get_dominator s' bob = Some D' \<and> d_merkle_root D' = replicate 32 7"
proof -
  obtain s' where run: "verify vrf_env sample_disp (Signed bob) [alice_deposit] v5 = Inr s'" using v5_verify by blast
  from accepted_proofs_chain [OF run] run show ?thesis by (auto simp: next_root_def alice_deposit_def proof_of_def)
qed

end
