(* ===== verification/Fuso_Bridge.thy ===== *)
theory Fuso_Bridge
  imports Fuso_Verifier
begin

text \<open>
  The bridge pallet (\<^verbatim>\<open>pallet-chainbridge/src/lib.rs\<close>): relayers vote on proposals that come from
  other chains, and a proposal with enough votes is dispatched with the account of the bridge as its
  origin. \<open>'p\<close> is the type of the proposed calls of the runtime; their dispatch is the argument
  \<open>pd\<close>, which rolls a failing call back. Its storage extends that of the verifier pallet, beside
  which the bridge handler uses it.
\<close>

section \<open>Storage and configuration\<close>

datatype proposal_status = Initiated | Approved | Rejected

record proposal_votes =
  votes_for :: "account list"
  votes_against :: "account list"
  pv_status :: proposal_status
  expiry :: u32

record ('b, 'c, 'p) bridge_chain = "('b, 'c) verifier_chain" +
  ChainNonces :: "chain_id \<Rightarrow> deposit_nonce option"
  RelayerThreshold :: "u32 option"
  Relayers :: "account \<Rightarrow> bool"
  RelayerCount :: u32
  Votes :: "chain_id \<times> deposit_nonce \<times> 'p \<Rightarrow> proposal_votes option"
  Resources :: "resource_id \<Rightarrow> bytes option"

text \<open>\<open>bridge_account\<close> is the account of the pallet's identifier.\<close>

record 'b bridge_env = "'b verifier_env" +
  ThisChainId :: chain_id
  ProposalLifetime :: u32
  TreasuryAccount :: account
  NativeResourceId :: resource_id
  bridge_admin :: "origin \<Rightarrow> bool"
  bridge_account :: account

definition DEFAULT_RELAYER_THRESHOLD :: u32 where "DEFAULT_RELAYER_THRESHOLD = 1"

definition relayer_threshold :: "('b, 'c, 'p, 'z) bridge_chain_scheme \<Rightarrow> u32" where
  "relayer_threshold s = (case RelayerThreshold s of None \<Rightarrow> DEFAULT_RELAYER_THRESHOLD | Some t \<Rightarrow> t)"

section \<open>Proposal votes\<close>

text \<open>The length of \<open>votes_against\<close> is cast to 32 bits before the sum.\<close>

definition try_to_complete :: "u32 \<Rightarrow> u32 \<Rightarrow> proposal_votes \<Rightarrow> proposal_status \<times> proposal_votes" where
  "try_to_complete threshold tot v =
     (if unat threshold \<le> length (votes_for v) then (Approved, v\<lparr>pv_status := Approved\<rparr>)
      else if threshold \<le> tot \<and> tot < of_nat (length (votes_against v)) + threshold
      then (Rejected, v\<lparr>pv_status := Rejected\<rparr>)
      else (Initiated, v))"

definition is_complete :: "proposal_votes \<Rightarrow> bool" where
  "is_complete v \<longleftrightarrow> pv_status v \<noteq> Initiated"

definition hash_voted :: "account \<Rightarrow> proposal_votes \<Rightarrow> bool" where
  "hash_voted who v \<longleftrightarrow> who \<in> set (votes_for v) \<or> who \<in> set (votes_against v)"

definition is_expired :: "u32 \<Rightarrow> proposal_votes \<Rightarrow> bool" where
  "is_expired now v \<longleftrightarrow> expiry v \<le> now"

definition default_votes :: proposal_votes where
  "default_votes = \<lparr>votes_for = [], votes_against = [], pv_status = Initiated, expiry = 0\<rparr>"

section \<open>Utility methods\<close>

definition ensure_bridge_admin :: "('b, 'x) bridge_env_scheme \<Rightarrow> origin \<Rightarrow> unit result" where
  "ensure_bridge_admin E orig = ensure (bridge_admin E orig) BadOrigin (Inr ())"

definition is_relayer :: "('b, 'c, 'p, 'z) bridge_chain_scheme \<Rightarrow> account \<Rightarrow> bool" where
  "is_relayer s who = Relayers s who"

definition resource_exists :: "('b, 'c, 'p, 'z) bridge_chain_scheme \<Rightarrow> resource_id \<Rightarrow> bool" where
  "resource_exists s rid \<longleftrightarrow> Resources s rid \<noteq> None"

definition chain_whitelisted :: "('b, 'c, 'p, 'z) bridge_chain_scheme \<Rightarrow> chain_id \<Rightarrow> bool" where
  "chain_whitelisted s c \<longleftrightarrow> ChainNonces s c \<noteq> None"

definition bump_nonce ::
  "chain_id \<Rightarrow> ('b, 'c, 'p, 'z) bridge_chain_scheme \<Rightarrow> deposit_nonce \<times> ('b, 'c, 'p, 'z) bridge_chain_scheme" where
  "bump_nonce c s =
     (let nonce = (case ChainNonces s c of None \<Rightarrow> 0 | Some n \<Rightarrow> n) + 1
      in (nonce, s\<lparr>ChainNonces := (ChainNonces s)(c \<mapsto> nonce)\<rparr>))"

section \<open>Admin methods\<close>

definition set_relayer_threshold ::
  "u32 \<Rightarrow> ('b, 'c, 'p, 'z) bridge_chain_scheme \<Rightarrow> ('b, 'c, 'p, 'z) bridge_chain_scheme result" where
  "set_relayer_threshold threshold s =
     ensure (threshold > 0) (BridgeE InvalidThreshold) (
       Inr (deposit_event (BridgeEv (RelayerThresholdChanged threshold)) (s\<lparr>RelayerThreshold := Some threshold\<rparr>)))"

definition register_resource ::
  "resource_id \<Rightarrow> bytes \<Rightarrow> ('b, 'c, 'p, 'z) bridge_chain_scheme \<Rightarrow> ('b, 'c, 'p, 'z) bridge_chain_scheme result" where
  "register_resource rid method_name s = Inr (s\<lparr>Resources := (Resources s)(rid \<mapsto> method_name)\<rparr>)"

definition unregister_resource ::
  "resource_id \<Rightarrow> ('b, 'c, 'p, 'z) bridge_chain_scheme \<Rightarrow> ('b, 'c, 'p, 'z) bridge_chain_scheme result" where
  "unregister_resource rid s = Inr (s\<lparr>Resources := (Resources s)(rid := None)\<rparr>)"

definition whitelist ::
  "('b, 'x) bridge_env_scheme \<Rightarrow> chain_id \<Rightarrow> ('b, 'c, 'p, 'z) bridge_chain_scheme
    \<Rightarrow> ('b, 'c, 'p, 'z) bridge_chain_scheme result" where
  "whitelist E c s =
     ensure (c \<noteq> ThisChainId E) (BridgeE InvalidChainId) (
     ensure (\<not> chain_whitelisted s c) (BridgeE ChainAlreadyWhitelisted) (
       Inr (deposit_event (BridgeEv (ChainWhitelisted c)) (s\<lparr>ChainNonces := (ChainNonces s)(c \<mapsto> 0)\<rparr>))))"

definition register_relayer ::
  "account \<Rightarrow> ('b, 'c, 'p, 'z) bridge_chain_scheme \<Rightarrow> ('b, 'c, 'p, 'z) bridge_chain_scheme result" where
  "register_relayer relayer s =
     ensure (\<not> is_relayer s relayer) (BridgeE RelayerAlreadyExists) (
       Inr (deposit_event (BridgeEv (RelayerAdded relayer))
              (s\<lparr>Relayers := (Relayers s)(relayer := True), RelayerCount := RelayerCount s + 1\<rparr>)))"

definition unregister_relayer ::
  "account \<Rightarrow> ('b, 'c, 'p, 'z) bridge_chain_scheme \<Rightarrow> ('b, 'c, 'p, 'z) bridge_chain_scheme result" where
  "unregister_relayer relayer s =
     ensure (is_relayer s relayer) (BridgeE RelayerInvalid) (
       Inr (deposit_event (BridgeEv (RelayerRemoved relayer))
              (s\<lparr>Relayers := (Relayers s)(relayer := False), RelayerCount := RelayerCount s - 1\<rparr>)))"

section \<open>Voting and execution\<close>

definition commit_vote ::
  "('b, 'x) bridge_env_scheme \<Rightarrow> account \<Rightarrow> deposit_nonce \<Rightarrow> chain_id \<Rightarrow> 'p \<Rightarrow> bool
    \<Rightarrow> ('b, 'c, 'p, 'z) bridge_chain_scheme \<Rightarrow> ('b, 'c, 'p, 'z) bridge_chain_scheme result" where
  "commit_vote E who nonce src prop in_favour s =
     (let now = block_number s;
          votes = (case Votes s (src, nonce, prop) of
                     Some v \<Rightarrow> v
                   | None \<Rightarrow> default_votes\<lparr>expiry := now + ProposalLifetime E\<rparr>)
      in ensure (\<not> is_complete votes) (BridgeE ProposalAlreadyComplete) (
         ensure (\<not> is_expired now votes) (BridgeE ProposalExpired) (
         ensure (\<not> hash_voted who votes) (BridgeE RelayerAlreadyVoted) (
         let (votes', ev) =
               (if in_favour
                then (votes\<lparr>votes_for := votes_for votes @ [who]\<rparr>, VoteFor src nonce who)
                else (votes\<lparr>votes_against := votes_against votes @ [who]\<rparr>, VoteAgainst src nonce who));
             s1 = deposit_event (BridgeEv ev) s
         in Inr (s1\<lparr>Votes := (Votes s1)((src, nonce, prop) \<mapsto> votes')\<rparr>)))))"

definition finalize_execution ::
  "('b, 'x) bridge_env_scheme
    \<Rightarrow> ('p \<Rightarrow> account \<Rightarrow> ('b, 'c, 'p, 'z) bridge_chain_scheme \<Rightarrow> ('b, 'c, 'p, 'z) bridge_chain_scheme result)
    \<Rightarrow> chain_id \<Rightarrow> deposit_nonce \<Rightarrow> 'p \<Rightarrow> ('b, 'c, 'p, 'z) bridge_chain_scheme
    \<Rightarrow> ('b, 'c, 'p, 'z) bridge_chain_scheme result" where
  "finalize_execution E pd src nonce prop s =
     rbind (pd prop (bridge_account E) (deposit_event (BridgeEv (ProposalApproved src nonce)) s)) (\<lambda>s1.
       Inr (deposit_event (BridgeEv (ProposalSucceeded src nonce)) s1))"

definition cancel_execution ::
  "chain_id \<Rightarrow> deposit_nonce \<Rightarrow> ('b, 'c, 'p, 'z) bridge_chain_scheme
    \<Rightarrow> ('b, 'c, 'p, 'z) bridge_chain_scheme result" where
  "cancel_execution src nonce s = Inr (deposit_event (BridgeEv (ProposalRejected src nonce)) s)"

definition try_resolve_proposal ::
  "('b, 'x) bridge_env_scheme
    \<Rightarrow> ('p \<Rightarrow> account \<Rightarrow> ('b, 'c, 'p, 'z) bridge_chain_scheme \<Rightarrow> ('b, 'c, 'p, 'z) bridge_chain_scheme result)
    \<Rightarrow> deposit_nonce \<Rightarrow> chain_id \<Rightarrow> 'p \<Rightarrow> ('b, 'c, 'p, 'z) bridge_chain_scheme
    \<Rightarrow> ('b, 'c, 'p, 'z) bridge_chain_scheme result" where
  "try_resolve_proposal E pd nonce src prop s =
     (case Votes s (src, nonce, prop) of
        Some votes \<Rightarrow>
          let now = block_number s
          in ensure (\<not> is_complete votes) (BridgeE ProposalAlreadyComplete) (
             ensure (\<not> is_expired now votes) (BridgeE ProposalExpired) (
             let (status, votes') = try_to_complete (relayer_threshold s) (RelayerCount s) votes;
                 s1 = s\<lparr>Votes := (Votes s)((src, nonce, prop) \<mapsto> votes')\<rparr>
             in (case status of
                   Approved \<Rightarrow> finalize_execution E pd src nonce prop s1
                 | Rejected \<Rightarrow> cancel_execution src nonce s1
                 | Initiated \<Rightarrow> Inr s1)))
      | None \<Rightarrow> Inl (BridgeE ProposalDoesNotExist))"

definition vote_for ::
  "('b, 'x) bridge_env_scheme
    \<Rightarrow> ('p \<Rightarrow> account \<Rightarrow> ('b, 'c, 'p, 'z) bridge_chain_scheme \<Rightarrow> ('b, 'c, 'p, 'z) bridge_chain_scheme result)
    \<Rightarrow> account \<Rightarrow> deposit_nonce \<Rightarrow> chain_id \<Rightarrow> 'p \<Rightarrow> ('b, 'c, 'p, 'z) bridge_chain_scheme
    \<Rightarrow> ('b, 'c, 'p, 'z) bridge_chain_scheme result" where
  "vote_for E pd who nonce src prop s =
     rbind (commit_vote E who nonce src prop True s) (try_resolve_proposal E pd nonce src prop)"

definition vote_against ::
  "('b, 'x) bridge_env_scheme
    \<Rightarrow> ('p \<Rightarrow> account \<Rightarrow> ('b, 'c, 'p, 'z) bridge_chain_scheme \<Rightarrow> ('b, 'c, 'p, 'z) bridge_chain_scheme result)
    \<Rightarrow> account \<Rightarrow> deposit_nonce \<Rightarrow> chain_id \<Rightarrow> 'p \<Rightarrow> ('b, 'c, 'p, 'z) bridge_chain_scheme
    \<Rightarrow> ('b, 'c, 'p, 'z) bridge_chain_scheme result" where
  "vote_against E pd who nonce src prop s =
     rbind (commit_vote E who nonce src prop False s) (try_resolve_proposal E pd nonce src prop)"

section \<open>Transfers out of the chain\<close>

definition transfer_fungible ::
  "chain_id \<Rightarrow> resource_id \<Rightarrow> bytes \<Rightarrow> 256 word \<Rightarrow> ('b, 'c, 'p, 'z) bridge_chain_scheme
    \<Rightarrow> ('b, 'c, 'p, 'z) bridge_chain_scheme result" where
  "transfer_fungible dest rid recipient amount s =
     ensure (chain_whitelisted s dest) (BridgeE ChainNotWhitelisted) (
       let (nonce, s1) = bump_nonce dest s
       in Inr (deposit_event (BridgeEv (FungibleTransfer dest nonce rid amount recipient)) s1))"

definition transfer_nonfungible ::
  "chain_id \<Rightarrow> resource_id \<Rightarrow> bytes \<Rightarrow> bytes \<Rightarrow> bytes \<Rightarrow> ('b, 'c, 'p, 'z) bridge_chain_scheme
    \<Rightarrow> ('b, 'c, 'p, 'z) bridge_chain_scheme result" where
  "transfer_nonfungible dest rid tid recipient metadata s =
     ensure (chain_whitelisted s dest) (BridgeE ChainNotWhitelisted) (
       let (nonce, s1) = bump_nonce dest s
       in Inr (deposit_event (BridgeEv (NonFungibleTransfer dest nonce rid tid recipient metadata)) s1))"

definition transfer_generic ::
  "chain_id \<Rightarrow> resource_id \<Rightarrow> bytes \<Rightarrow> ('b, 'c, 'p, 'z) bridge_chain_scheme
    \<Rightarrow> ('b, 'c, 'p, 'z) bridge_chain_scheme result" where
  "transfer_generic dest rid metadata s =
     ensure (chain_whitelisted s dest) (BridgeE ChainNotWhitelisted) (
       let (nonce, s1) = bump_nonce dest s
       in Inr (deposit_event (BridgeEv (GenericTransfer dest nonce rid metadata)) s1))"

section \<open>Calls\<close>

definition set_threshold ::
  "('b, 'x) bridge_env_scheme \<Rightarrow> origin \<Rightarrow> u32 \<Rightarrow> ('b, 'c, 'p, 'z) bridge_chain_scheme
    \<Rightarrow> ('b, 'c, 'p, 'z) bridge_chain_scheme result" where
  "set_threshold E orig threshold s =
     rbind (ensure_bridge_admin E orig) (\<lambda>_. set_relayer_threshold threshold s)"

definition set_resource ::
  "('b, 'x) bridge_env_scheme \<Rightarrow> origin \<Rightarrow> resource_id \<Rightarrow> bytes \<Rightarrow> ('b, 'c, 'p, 'z) bridge_chain_scheme
    \<Rightarrow> ('b, 'c, 'p, 'z) bridge_chain_scheme result" where
  "set_resource E orig rid method_name s =
     rbind (ensure_bridge_admin E orig) (\<lambda>_.
     rbind (if rid \<noteq> NativeResourceId E
            then rbind (decode_resource_id rid) (\<lambda>(chain, _, contract).
                 rbind (ok_or (try_get_asset_id s chain contract) (BridgeE ResourceIdNotMapToToken)) (\<lambda>_. Inr ()))
            else Inr ()) (\<lambda>_.
       register_resource rid method_name s))"

definition remove_resource ::
  "('b, 'x) bridge_env_scheme \<Rightarrow> origin \<Rightarrow> resource_id \<Rightarrow> ('b, 'c, 'p, 'z) bridge_chain_scheme
    \<Rightarrow> ('b, 'c, 'p, 'z) bridge_chain_scheme result" where
  "remove_resource E orig rid s =
     rbind (ensure_bridge_admin E orig) (\<lambda>_. unregister_resource rid s)"

definition whitelist_chain ::
  "('b, 'x) bridge_env_scheme \<Rightarrow> origin \<Rightarrow> chain_id \<Rightarrow> ('b, 'c, 'p, 'z) bridge_chain_scheme
    \<Rightarrow> ('b, 'c, 'p, 'z) bridge_chain_scheme result" where
  "whitelist_chain E orig c s = rbind (ensure_bridge_admin E orig) (\<lambda>_. whitelist E c s)"

definition add_relayer ::
  "('b, 'x) bridge_env_scheme \<Rightarrow> origin \<Rightarrow> account \<Rightarrow> ('b, 'c, 'p, 'z) bridge_chain_scheme
    \<Rightarrow> ('b, 'c, 'p, 'z) bridge_chain_scheme result" where
  "add_relayer E orig v s = rbind (ensure_bridge_admin E orig) (\<lambda>_. register_relayer v s)"

definition remove_relayer ::
  "('b, 'x) bridge_env_scheme \<Rightarrow> origin \<Rightarrow> account \<Rightarrow> ('b, 'c, 'p, 'z) bridge_chain_scheme
    \<Rightarrow> ('b, 'c, 'p, 'z) bridge_chain_scheme result" where
  "remove_relayer E orig v s = rbind (ensure_bridge_admin E orig) (\<lambda>_. unregister_relayer v s)"

definition acknowledge_proposal ::
  "('b, 'x) bridge_env_scheme
    \<Rightarrow> ('p \<Rightarrow> account \<Rightarrow> ('b, 'c, 'p, 'z) bridge_chain_scheme \<Rightarrow> ('b, 'c, 'p, 'z) bridge_chain_scheme result)
    \<Rightarrow> origin \<Rightarrow> deposit_nonce \<Rightarrow> chain_id \<Rightarrow> resource_id \<Rightarrow> evm_hash \<Rightarrow> 'p
    \<Rightarrow> ('b, 'c, 'p, 'z) bridge_chain_scheme \<Rightarrow> ('b, 'c, 'p, 'z) bridge_chain_scheme result" where
  "acknowledge_proposal E pd orig nonce src rid hash prop s =
     rbind (ensure_signed orig) (\<lambda>who.
     ensure (is_relayer s who) (BridgeE MustBeRelayer) (
     ensure (chain_whitelisted s src) (BridgeE ChainNotWhitelisted) (
     ensure (resource_exists s rid) (BridgeE ResourceDoesNotExist) (
       vote_for E pd who nonce src prop (deposit_event (BridgeEv (ProposalVote src hash nonce)) s)))))"

definition reject_proposal ::
  "('b, 'x) bridge_env_scheme
    \<Rightarrow> ('p \<Rightarrow> account \<Rightarrow> ('b, 'c, 'p, 'z) bridge_chain_scheme \<Rightarrow> ('b, 'c, 'p, 'z) bridge_chain_scheme result)
    \<Rightarrow> origin \<Rightarrow> deposit_nonce \<Rightarrow> chain_id \<Rightarrow> resource_id \<Rightarrow> 'p
    \<Rightarrow> ('b, 'c, 'p, 'z) bridge_chain_scheme \<Rightarrow> ('b, 'c, 'p, 'z) bridge_chain_scheme result" where
  "reject_proposal E pd orig nonce src rid prop s =
     rbind (ensure_signed orig) (\<lambda>who.
     ensure (is_relayer s who) (BridgeE MustBeRelayer) (
     ensure (chain_whitelisted s src) (BridgeE ChainNotWhitelisted) (
     ensure (resource_exists s rid) (BridgeE ResourceDoesNotExist) (
       vote_against E pd who nonce src prop s))))"

definition eval_vote_state ::
  "('b, 'x) bridge_env_scheme
    \<Rightarrow> ('p \<Rightarrow> account \<Rightarrow> ('b, 'c, 'p, 'z) bridge_chain_scheme \<Rightarrow> ('b, 'c, 'p, 'z) bridge_chain_scheme result)
    \<Rightarrow> origin \<Rightarrow> deposit_nonce \<Rightarrow> chain_id \<Rightarrow> 'p
    \<Rightarrow> ('b, 'c, 'p, 'z) bridge_chain_scheme \<Rightarrow> ('b, 'c, 'p, 'z) bridge_chain_scheme result" where
  "eval_vote_state E pd orig nonce src prop s =
     rbind (ensure_signed orig) (\<lambda>_. try_resolve_proposal E pd nonce src prop s)"

text \<open>The origin check that the bridge provides for its own calls.\<close>

fun ensure_bridge :: "('b, 'x) bridge_env_scheme \<Rightarrow> origin \<Rightarrow> account result" where
  "ensure_bridge E (Signed who) = (if who = bridge_account E then Inr (bridge_account E) else Inl BadOrigin)"
| "ensure_bridge E _ = Inl BadOrigin"

lemma ensure_bridge_eq_Inr [res_simps]:
  "ensure_bridge E orig = Inr w \<longleftrightarrow> orig = Signed (bridge_account E) \<and> w = bridge_account E"
  by (cases orig) auto

end
