(* ===== verification/Fuso_Handler.thy ===== *)
theory Fuso_Handler
  imports Fuso_Bridge
begin

text \<open>
  The bridge handler pallet (\<^verbatim>\<open>pallet-chainbridge-handler/src/lib.rs\<close>): tokens leave the chain by
  locking the native coin on the account of the bridge or by burning an issued token, and they
  enter it by a proposal of the bridge that unlocks or mints. The associated types of its
  configuration are wired as in its mock runtime: the assets, the conversion of balances and the
  map of contracts are the token pallet, the oracle is the indicator pallet, and the origin of the
  bridge is \<open>ensure_bridge\<close>.
\<close>

section \<open>Storage and configuration\<close>

record ('b, 'c, 'p) handler_chain = "('b, 'c, 'p) bridge_chain" +
  NativeCheck :: bool
  BridgingFeeInUSD :: "u128 option"
  AssociatedDominator :: "u8 \<Rightarrow> account option"

record 'b handler_env = "'b bridge_env" +
  NativeTokenMaxValue :: u128
  DonorAccount :: account
  DonationForAgent :: u128

definition DefaultBridgingFee :: u128 where "DefaultBridgingFee = QUINTILL * 2"

definition bridging_fee :: "('b, 'c, 'p, 'z) handler_chain_scheme \<Rightarrow> u128" where
  "bridging_fee s = (case BridgingFeeInUSD s of None \<Rightarrow> DefaultBridgingFee | Some f \<Rightarrow> f)"

section \<open>Internal operations\<close>

definition is_native_resource :: "('b, 'x) handler_env_scheme \<Rightarrow> resource_id \<Rightarrow> bool result" where
  "is_native_resource E r_id =
     rbind (decode_resource_id r_id) (\<lambda>(orig, _, p).
     rbind (decode_resource_id (NativeResourceId E)) (\<lambda>(nat_chain, _, p0).
       Inr (nat_chain = orig \<and> p = p0)))"

definition hdl_ensure_admin :: "('b, 'x) handler_env_scheme \<Rightarrow> origin \<Rightarrow> unit result" where
  "hdl_ensure_admin E orig = ensure (bridge_admin E orig) BadOrigin (Inr ())"

definition set_associated_dominator ::
  "u8 \<Rightarrow> account \<Rightarrow> ('b, 'c, 'p, 'z) handler_chain_scheme \<Rightarrow> ('b, 'c, 'p, 'z) handler_chain_scheme" where
  "set_associated_dominator idx dom_id s =
     s\<lparr>AssociatedDominator := (AssociatedDominator s)(idx \<mapsto> dom_id)\<rparr>"

text \<open>The products and the sum are \<^verbatim>\<open>u128\<close> and wrap around.\<close>

definition calculate_bridging_fee ::
  "('b, 'x) handler_env_scheme \<Rightarrow> ('b, 'c, 'p, 'z) handler_chain_scheme \<Rightarrow> token_id \<Rightarrow> u128" where
  "calculate_bridging_fee E s tid =
     (let p = get_price E s tid
      in if p = 0 then 0
         else let usd = bridging_fee s
              in usd div p * QUINTILL + ucast (perquintill_from_rational E (usd mod p) p))"

text \<open>The limit on the native coin: the balance of the bridge, with the amount, must stay within a
  third of the configured maximum.\<close>

definition over_native_limit ::
  "('b, 'x) handler_env_scheme \<Rightarrow> u128 \<Rightarrow> ('b, 'c, 'p, 'z) handler_chain_scheme \<Rightarrow> bool" where
  "over_native_limit E amount s \<longleftrightarrow>
     NativeCheck s \<and>
     NativeTokenMaxValue E div 3 < free_balance E s (native_token_id E) (bridge_account E) + amount"

definition do_lock ::
  "('b, 'x) handler_env_scheme \<Rightarrow> account \<Rightarrow> u128 \<Rightarrow> resource_id \<Rightarrow> bytes \<Rightarrow> chain_id
    \<Rightarrow> ('b, 'c, 'p, 'z) handler_chain_scheme \<Rightarrow> ('b, 'c, 'p, 'z) handler_chain_scheme result" where
  "do_lock E sender amount r_id recipient dest_id s =
     ensure (\<not> over_native_limit E amount s) (HandlerE OverTransferLimit) (
     let fee = calculate_bridging_fee E s (native_token_id E)
     in ensure (fee + fee < amount) (HandlerE LessThanBridgingThreshold) (
        rbind (transfer_token E sender (native_token_id E) fee (TreasuryAccount E) s) (\<lambda>s1.
        rbind (transfer_token E sender (native_token_id E) (amount - fee) (bridge_account E) s1) (\<lambda>s2.
          transfer_fungible dest_id r_id recipient (ucast (amount - fee)) s2))))"

definition do_unlock ::
  "('b, 'x) handler_env_scheme \<Rightarrow> account \<Rightarrow> account \<Rightarrow> u128
    \<Rightarrow> ('b, 'c, 'p, 'z) handler_chain_scheme \<Rightarrow> ('b, 'c, 'p, 'z) handler_chain_scheme result" where
  "do_unlock E sender dest amount s = transfer_token E sender (native_token_id E) amount dest s"

definition do_burn_assets ::
  "('b, 'x) handler_env_scheme \<Rightarrow> account \<Rightarrow> u128 \<Rightarrow> resource_id \<Rightarrow> bytes \<Rightarrow> chain_id
    \<Rightarrow> ('b, 'c, 'p, 'z) handler_chain_scheme \<Rightarrow> ('b, 'c, 'p, 'z) handler_chain_scheme result" where
  "do_burn_assets E who amount r_id recipient dest_id s =
     rbind (decode_resource_id r_id) (\<lambda>(chain, _, maybe_contract).
     rbind (ok_or (try_get_asset_id s chain maybe_contract) (HandlerE InvalidResourceId)) (\<lambda>tid.
     let fee = calculate_bridging_fee E s tid
     in ensure (fee + fee < amount) (HandlerE LessThanBridgingThreshold) (
        rbind (transfer_token E who tid fee (TreasuryAccount E) s) (\<lambda>s1.
        rbind (burn_from tid who (amount - fee) s1) (\<lambda>(_, s2).
          transfer_fungible dest_id r_id recipient (ucast (amount - fee)) s2)))))"

definition do_mint_assets ::
  "account \<Rightarrow> u128 \<Rightarrow> resource_id
    \<Rightarrow> ('b, 'c, 'p, 'z) handler_chain_scheme \<Rightarrow> ('b, 'c, 'p, 'z) handler_chain_scheme result" where
  "do_mint_assets who amount r_id s =
     rbind (decode_resource_id r_id) (\<lambda>(chain, _, maybe_contract).
     rbind (ok_or (try_get_asset_id s chain maybe_contract) (HandlerE InvalidResourceId)) (\<lambda>tid.
       mint_into tid who amount s))"

section \<open>Calls\<close>

definition native_limit ::
  "origin \<Rightarrow> bool \<Rightarrow> ('b, 'c, 'p, 'z) handler_chain_scheme \<Rightarrow> ('b, 'c, 'p, 'z) handler_chain_scheme result" where
  "native_limit orig v s = rbind (ensure_root orig) (\<lambda>_. Inr (s\<lparr>NativeCheck := v\<rparr>))"

definition transfer_out ::
  "('b, 'x) handler_env_scheme \<Rightarrow> origin \<Rightarrow> u128 \<Rightarrow> resource_id \<Rightarrow> bytes \<Rightarrow> chain_id
    \<Rightarrow> ('b, 'c, 'p, 'z) handler_chain_scheme \<Rightarrow> ('b, 'c, 'p, 'z) handler_chain_scheme result" where
  "transfer_out E orig amount r_id recipient dest_id s =
     rbind (ensure_signed orig) (\<lambda>source.
     ensure (chain_whitelisted s dest_id) (HandlerE InvalidTransfer) (
     rbind (is_native_resource E r_id) (\<lambda>is_native.
       if is_native then do_lock E source amount r_id recipient dest_id s
       else do_burn_assets E source amount r_id recipient dest_id s)))"

text \<open>What arrives for an associated dominator is authorised to it at once; a failure of that is
  only logged.\<close>

definition authorize_native ::
  "('b, 'x) handler_env_scheme \<Rightarrow> account \<Rightarrow> u128 \<Rightarrow> resource_id
    \<Rightarrow> ('b, 'c, 'p, 'z) handler_chain_scheme \<Rightarrow> ('b, 'c, 'p, 'z) handler_chain_scheme result" where
  "authorize_native E dest amount r_id s =
     rbind (decode_resource_id r_id) (\<lambda>(_, associated, _).
       (case AssociatedDominator s associated of
          Some dom_id \<Rightarrow>
            rbind (case to_asset_balance E s amount (native_token_id E) of
                     Inl _ \<Rightarrow> Inl (HandlerE InvalidResourceId) | Inr b \<Rightarrow> Inr b) (\<lambda>b.
              caught (authorize_to E dest dom_id (native_token_id E) b s) s)
        | None \<Rightarrow> Inr s))"

definition authorize_asset ::
  "('b, 'x) handler_env_scheme \<Rightarrow> account \<Rightarrow> u128 \<Rightarrow> resource_id
    \<Rightarrow> ('b, 'c, 'p, 'z) handler_chain_scheme \<Rightarrow> ('b, 'c, 'p, 'z) handler_chain_scheme result" where
  "authorize_asset E dest amount r_id s =
     rbind (decode_resource_id r_id) (\<lambda>(chain, associated, maybe_contract).
       (case AssociatedDominator s associated of
          Some dom_id \<Rightarrow>
            rbind (ok_or (try_get_asset_id s chain maybe_contract) (HandlerE InvalidResourceId)) (\<lambda>token.
            rbind (case to_asset_balance E s amount token of
                     Inl _ \<Rightarrow> Inl (HandlerE InvalidResourceId) | Inr b \<Rightarrow> Inr b) (\<lambda>b.
              caught (authorize_to E dest dom_id token b s) s))
        | None \<Rightarrow> Inr s))"

definition donate ::
  "('b, 'x) handler_env_scheme \<Rightarrow> account
    \<Rightarrow> ('b, 'c, 'p, 'z) handler_chain_scheme \<Rightarrow> ('b, 'c, 'p, 'z) handler_chain_scheme result" where
  "donate E dest s =
     (if account_nonce s dest = 0
      then caught (transfer_token E (DonorAccount E) (native_token_id E) (DonationForAgent E) dest s) s
      else Inr s)"

definition transfer_in ::
  "('b, 'x) handler_env_scheme \<Rightarrow> origin \<Rightarrow> account \<Rightarrow> u128 \<Rightarrow> resource_id
    \<Rightarrow> ('b, 'c, 'p, 'z) handler_chain_scheme \<Rightarrow> ('b, 'c, 'p, 'z) handler_chain_scheme result" where
  "transfer_in E orig dest amount r_id s =
     rbind (ensure_bridge E orig) (\<lambda>source.
     rbind (is_native_resource E r_id) (\<lambda>is_native.
     rbind (if is_native
            then rbind (do_unlock E source dest amount s) (authorize_native E dest amount r_id)
            else rbind (do_mint_assets dest amount r_id s) (authorize_asset E dest amount r_id))
       (donate E dest)))"

definition associate_dominator ::
  "('b, 'x) handler_env_scheme \<Rightarrow> origin \<Rightarrow> u8 \<Rightarrow> account
    \<Rightarrow> ('b, 'c, 'p, 'z) handler_chain_scheme \<Rightarrow> ('b, 'c, 'p, 'z) handler_chain_scheme result" where
  "associate_dominator E orig associate_id dom_id s =
     rbind (hdl_ensure_admin E orig) (\<lambda>_.
       Inr (s\<lparr>AssociatedDominator := (AssociatedDominator s)(associate_id \<mapsto> dom_id)\<rparr>))"

definition remark ::
  "('b, 'x) handler_env_scheme \<Rightarrow> origin \<Rightarrow> bytes \<Rightarrow> bytes \<Rightarrow> resource_id
    \<Rightarrow> ('b, 'c, 'p, 'z) handler_chain_scheme \<Rightarrow> ('b, 'c, 'p, 'z) handler_chain_scheme result" where
  "remark E orig message depositer r_id s = rbind (ensure_bridge E orig) (\<lambda>_. Inr s)"

section \<open>The calls that a bridge proposal carries\<close>

text \<open>\<open>Transfer_in\<close> and \<open>Remark\<close> are the two calls of the handler whose origin is the bridge;
  \<open>run_proposal\<close> dispatches them with the account that the bridge passes.\<close>

datatype hdl_call =
    Transfer_in account u128 resource_id
  | Remark bytes bytes resource_id

fun run_proposal ::
  "('b, 'x) handler_env_scheme \<Rightarrow> hdl_call \<Rightarrow> account
    \<Rightarrow> ('b, 'c, hdl_call, 'z) handler_chain_scheme \<Rightarrow> ('b, 'c, hdl_call, 'z) handler_chain_scheme result" where
  "run_proposal E (Transfer_in dest amount r_id) who s = transfer_in E (Signed who) dest amount r_id s"
| "run_proposal E (Remark message depositer r_id) who s = remark E (Signed who) message depositer r_id s"

end
