(* ===== verification/Fuso_Bridge_Laws.thy ===== *)
theory Fuso_Bridge_Laws
  imports Fuso_Handler
begin

text \<open>
  The invariant of the bridge pallet and its transition system. What the bridge needs of the calls
  that its proposals carry is the locale \<open>proposal_runner\<close>: they keep the invariant and they never
  reopen a ballot. A runner that leaves the storage of the bridge alone, \<open>framed_runner\<close>, is such a
  runner; the calls of the bridge handler are one.
\<close>

named_theorems brg_frame \<open>operations of other pallets leave the storage of the bridge alone\<close>

section \<open>The storage of the bridge and its invariant\<close>

text \<open>The nonces of the deposits for a chain, in the order of their events.\<close>

fun deposit_nonce_of :: "chain_id \<Rightarrow> event \<Rightarrow> deposit_nonce list" where
  "deposit_nonce_of c (BridgeEv (FungibleTransfer d n _ _ _)) = (if d = c then [n] else [])"
| "deposit_nonce_of c (BridgeEv (NonFungibleTransfer d n _ _ _ _)) = (if d = c then [n] else [])"
| "deposit_nonce_of c (BridgeEv (GenericTransfer d n _ _)) = (if d = c then [n] else [])"
| "deposit_nonce_of c _ = []"

definition deposit_nonces :: "chain_id \<Rightarrow> event list \<Rightarrow> deposit_nonce list" where
  "deposit_nonces c evs = concat (map (deposit_nonce_of c) evs)"

text \<open>The approvals of proposals, with the source chain and the nonce of each; the event is written just before
  the call of the proposal is dispatched.\<close>

fun approval_of :: "event \<Rightarrow> (chain_id \<times> deposit_nonce) list" where
  "approval_of (BridgeEv (ProposalApproved src n)) = [(src, n)]"
| "approval_of _ = []"

definition approvals :: "event list \<Rightarrow> (chain_id \<times> deposit_nonce) list" where
  "approvals evs = concat (map approval_of evs)"

text \<open>The calls that have been approved for a source chain and a nonce.\<close>

definition approved_calls :: "(chain_id \<times> deposit_nonce \<times> 'p \<Rightarrow> proposal_votes option) \<Rightarrow> chain_id \<times> deposit_nonce \<Rightarrow> 'p set" where
  "approved_calls vs k = {p. \<exists>v. vs (fst k, snd k, p) = Some v \<and> pv_status v = Approved}"

definition approvals_logged ::
  "(chain_id \<times> deposit_nonce \<times> 'p \<Rightarrow> proposal_votes option) \<Rightarrow> (chain_id \<times> deposit_nonce) list \<Rightarrow> bool" where
  "approvals_logged vs l \<longleftrightarrow> (\<forall>k. finite (approved_calls vs k) \<and> card (approved_calls vs k) = count_list l k)"

definition brg :: "('b, 'c, 'p, 'z) bridge_chain_scheme \<Rightarrow> _" where
  "brg s = (ChainNonces s, RelayerThreshold s, Relayers s, RelayerCount s, Votes s, Resources s,
     (\<lambda>c. deposit_nonces c (events s)), approvals (events s))"

definition relayer_set :: "('b, 'c, 'p, 'z) bridge_chain_scheme \<Rightarrow> account set" where
  "relayer_set s = {w. Relayers s w}"

definition ballot_inv :: "proposal_votes \<Rightarrow> bool" where
  "ballot_inv v \<longleftrightarrow> distinct (votes_for v @ votes_against v) \<and> (pv_status v = Approved \<longrightarrow> votes_for v \<noteq> [])"

definition nonce_log :: "nat \<Rightarrow> deposit_nonce list" where
  "nonce_log k = map of_nat [1..<Suc k]"

definition bridge_inv :: "('b, 'x) bridge_env_scheme \<Rightarrow> ('b, 'c, 'p, 'z) bridge_chain_scheme \<Rightarrow> bool" where
  "bridge_inv E s \<longleftrightarrow>
     relayer_threshold s \<noteq> 0 \<and>
     finite (relayer_set s) \<and> RelayerCount s = of_nat (card (relayer_set s)) \<and>
     ChainNonces s (ThisChainId E) = None \<and>
     (\<forall>k v. Votes s k = Some v \<longrightarrow> ballot_inv v) \<and>
     approvals_logged (Votes s) (approvals (events s)) \<and>
     (\<forall>c. \<exists>k. deposit_nonces c (events s) = nonce_log k \<and>
        (case ChainNonces s c of None \<Rightarrow> k = 0 | Some n \<Rightarrow> n = of_nat k))"

text \<open>A ballot only grows, and a complete one stays as it is.\<close>

definition ballots_evolve ::
  "('b, 'c, 'p, 'z) bridge_chain_scheme \<Rightarrow> ('b, 'c, 'p, 'z) bridge_chain_scheme \<Rightarrow> bool" where
  "ballots_evolve s s' \<longleftrightarrow> (\<forall>k v. Votes s k = Some v \<longrightarrow> (\<exists>v'. Votes s' k = Some v' \<and>
     set (votes_for v) \<subseteq> set (votes_for v') \<and> set (votes_against v) \<subseteq> set (votes_against v') \<and>
     expiry v' = expiry v \<and> (is_complete v \<longrightarrow> v' = v)))"

lemma brgD:
  assumes "brg s' = brg s"
  shows "ChainNonces s' = ChainNonces s" "RelayerThreshold s' = RelayerThreshold s" "Relayers s' = Relayers s"
    "RelayerCount s' = RelayerCount s" "Votes s' = Votes s" "Resources s' = Resources s"
    "deposit_nonces c (events s') = deposit_nonces c (events s)" "approvals (events s') = approvals (events s)"
  using assms by (auto simp: brg_def fun_eq_iff)

lemma ballots_evolve_refl [simp]: "ballots_evolve s s" by (auto simp: ballots_evolve_def)

lemma ballots_evolveD:
  assumes "ballots_evolve s s'" "Votes s k = Some v"
  obtains v' where "Votes s' k = Some v'" "set (votes_for v) \<subseteq> set (votes_for v')"
    "set (votes_against v) \<subseteq> set (votes_against v')" "expiry v' = expiry v" "is_complete v \<longrightarrow> v' = v"
  using assms unfolding ballots_evolve_def by blast

lemma ballots_evolve_trans:
  assumes "ballots_evolve s s1" "ballots_evolve s1 s2"
  shows "ballots_evolve s s2"
  unfolding ballots_evolve_def
proof (intro allI impI)
  fix k v
  assume v: "Votes s k = Some v"
  obtain v1 where v1: "Votes s1 k = Some v1" "set (votes_for v) \<subseteq> set (votes_for v1)"
    "set (votes_against v) \<subseteq> set (votes_against v1)" "expiry v1 = expiry v" "is_complete v \<longrightarrow> v1 = v"
    by (rule ballots_evolveD [OF assms(1) v])
  obtain v2 where v2: "Votes s2 k = Some v2" "set (votes_for v1) \<subseteq> set (votes_for v2)"
    "set (votes_against v1) \<subseteq> set (votes_against v2)" "expiry v2 = expiry v1" "is_complete v1 \<longrightarrow> v2 = v1"
    by (rule ballots_evolveD [OF assms(2) v1(1)])
  from v1 v2 show "\<exists>v'. Votes s2 k = Some v' \<and> set (votes_for v) \<subseteq> set (votes_for v') \<and>
      set (votes_against v) \<subseteq> set (votes_against v') \<and> expiry v' = expiry v \<and> (is_complete v \<longrightarrow> v' = v)"
    by auto
qed

lemma evolve_votes: "Votes s' = Votes s \<Longrightarrow> ballots_evolve s s'"
  by (auto simp: ballots_evolve_def)

lemma evolve_put:
  assumes "Votes s' = (Votes s)(k \<mapsto> v')"
    and "\<And>v. Votes s k = Some v \<Longrightarrow> \<not> is_complete v \<and> expiry v' = expiry v \<and>
      set (votes_for v) \<subseteq> set (votes_for v') \<and> set (votes_against v) \<subseteq> set (votes_against v')"
  shows "ballots_evolve s s'"
  using assms by (auto simp: ballots_evolve_def)

lemma bridge_inv_brg:
  assumes "bridge_inv E s" "brg s' = brg s"
  shows "bridge_inv E s'"
  using assms(1) brgD [OF assms(2)]
  by (simp add: bridge_inv_def relayer_threshold_def relayer_set_def)

lemma bridge_inv_ballotD: "bridge_inv E s \<Longrightarrow> Votes s k = Some v \<Longrightarrow> ballot_inv v"
  unfolding bridge_inv_def by blast

lemma deposit_nonces_snoc [simp]:
  "deposit_nonces c (evs @ [e]) = deposit_nonces c evs @ deposit_nonce_of c e"
  by (simp add: deposit_nonces_def)

lemma approvals_snoc [simp]: "approvals (evs @ [e]) = approvals evs @ approval_of e"
  by (simp add: approvals_def)

lemma count_approvals: "count_list (approvals evs) (src, n) = count_list evs (BridgeEv (ProposalApproved src n))"
proof (induction evs)
  case (Cons e evs)
  then show ?case by (cases e rule: approval_of.cases) (auto simp: approvals_def)
qed (simp add: approvals_def)

lemma approved_calls_other:
  assumes "pv_status v \<noteq> Approved" "\<And>u. vs (src, n, p) = Some u \<Longrightarrow> pv_status u \<noteq> Approved"
  shows "approved_calls (vs((src, n, p) \<mapsto> v)) k = approved_calls vs k"
  using assms by (auto simp: approved_calls_def)

lemma approved_calls_new:
  assumes "pv_status v = Approved"
  shows "approved_calls (vs((src, n, p) \<mapsto> v)) k = (if k = (src, n) then insert p (approved_calls vs k) else approved_calls vs k)"
  using assms by (cases k) (auto simp: approved_calls_def)

lemma logged_other:
  assumes "approvals_logged vs l" "pv_status v \<noteq> Approved" "\<And>u. vs (src, n, p) = Some u \<Longrightarrow> pv_status u \<noteq> Approved"
  shows "approvals_logged (vs((src, n, p) \<mapsto> v)) l"
proof -
  have "approved_calls (vs((src, n, p) \<mapsto> v)) k = approved_calls vs k" for k
    by (rule approved_calls_other) (use assms(2,3) in auto)
  with assms(1) show ?thesis by (simp add: approvals_logged_def)
qed

lemma logged_new:
  assumes "approvals_logged vs l" "pv_status v = Approved" "\<And>u. vs (src, n, p) = Some u \<Longrightarrow> pv_status u \<noteq> Approved"
  shows "approvals_logged (vs((src, n, p) \<mapsto> v)) (l @ [(src, n)])"
proof -
  have "p \<notin> approved_calls vs (src, n)" using assms(3) by (auto simp: approved_calls_def)
  with assms(1) show ?thesis by (simp add: approvals_logged_def approved_calls_new [where vs = vs, OF assms(2)])
qed

lemma brg_deposit [simp]:
  "(\<And>c. deposit_nonce_of c e = []) \<Longrightarrow> approval_of e = [] \<Longrightarrow> brg (deposit_event e s) = brg s"
  by (simp add: brg_def deposit_event_def)

lemma bridge_deposit [simp]:
  "Votes (deposit_event e s) = Votes s" "Relayers (deposit_event e s) = Relayers s"
  "RelayerCount (deposit_event e s) = RelayerCount s" "RelayerThreshold (deposit_event e s) = RelayerThreshold s"
  "ChainNonces (deposit_event e s) = ChainNonces s" "Resources (deposit_event e s) = Resources s"
  "events (deposit_event e s) = events s @ [e]"
  by (simp_all add: deposit_event_def)

lemma bridge_inv_deposit:
  assumes "bridge_inv E s" "\<And>c. deposit_nonce_of c e = []" "approval_of e = []"
  shows "bridge_inv E (deposit_event e s)"
  by (rule bridge_inv_brg [OF assms(1)]) (simp add: assms(2,3))

lemma nonce_log_Suc: "nonce_log (Suc k) = nonce_log k @ [of_nat (Suc k)]"
  by (simp add: nonce_log_def)

section \<open>Administration\<close>

lemma inv_set_relayer_threshold:
  assumes "bridge_inv E s" "set_relayer_threshold t s = Inr s'"
  shows "bridge_inv E s' \<and> Votes s' = Votes s"
  using assms by (auto simp: set_relayer_threshold_def res_simps bridge_inv_def relayer_threshold_def relayer_set_def)

lemma inv_set_resource:
  assumes "bridge_inv E s" "set_resource E' orig rid m s = Inr s'"
  shows "bridge_inv E s' \<and> Votes s' = Votes s"
  using assms
  by (auto simp: set_resource_def register_resource_def res_simps bridge_inv_def relayer_threshold_def relayer_set_def)

lemma inv_unregister_resource:
  assumes "bridge_inv E s" "unregister_resource rid s = Inr s'"
  shows "bridge_inv E s' \<and> Votes s' = Votes s"
  using assms by (auto simp: unregister_resource_def bridge_inv_def relayer_threshold_def relayer_set_def)

lemma inv_whitelist:
  assumes "bridge_inv E s" "whitelist E c s = Inr s'"
  shows "bridge_inv E s' \<and> Votes s' = Votes s"
proof -
  from assms(2) have c: "c \<noteq> ThisChainId E" "ChainNonces s c = None"
    and s': "s' = deposit_event (BridgeEv (ChainWhitelisted c)) (s\<lparr>ChainNonces := (ChainNonces s)(c \<mapsto> 0)\<rparr>)"
    by (auto simp: whitelist_def chain_whitelisted_def res_simps)
  have log: "\<exists>k. deposit_nonces d (events s) = nonce_log k \<and>
      (case ((ChainNonces s)(c \<mapsto> 0)) d of None \<Rightarrow> k = 0 | Some n \<Rightarrow> n = of_nat k)" for d
    using assms(1) c(2) unfolding bridge_inv_def by (cases "d = c") (force split: option.splits)+
  show ?thesis using assms(1) c log unfolding s'
    by (simp add: bridge_inv_def relayer_threshold_def relayer_set_def)
qed

lemma inv_register_relayer:
  assumes "bridge_inv E s" "register_relayer w s = Inr s'"
  shows "bridge_inv E s' \<and> Votes s' = Votes s"
proof -
  from assms(2) have w: "w \<notin> relayer_set s"
    and s': "s' = deposit_event (BridgeEv (RelayerAdded w))
      (s\<lparr>Relayers := (Relayers s)(w := True), RelayerCount := RelayerCount s + 1\<rparr>)"
    by (auto simp: register_relayer_def is_relayer_def relayer_set_def res_simps)
  have "relayer_set s' = insert w (relayer_set s)" by (auto simp: s' relayer_set_def)
  then show ?thesis using assms(1) w unfolding bridge_inv_def
    by (simp add: s' relayer_threshold_def)
qed

lemma inv_unregister_relayer:
  assumes "bridge_inv E s" "unregister_relayer w s = Inr s'"
  shows "bridge_inv E s' \<and> Votes s' = Votes s"
proof -
  from assms(2) have w: "w \<in> relayer_set s"
    and s': "s' = deposit_event (BridgeEv (RelayerRemoved w))
      (s\<lparr>Relayers := (Relayers s)(w := False), RelayerCount := RelayerCount s - 1\<rparr>)"
    by (auto simp: unregister_relayer_def is_relayer_def relayer_set_def res_simps)
  have r: "relayer_set s' = relayer_set s - {w}" by (auto simp: s' relayer_set_def)
  have "card (relayer_set s) = Suc (card (relayer_set s'))"
    using assms(1) w unfolding r bridge_inv_def by (metis card_Suc_Diff1)
  with assms(1) r show ?thesis unfolding bridge_inv_def by (simp add: s' relayer_threshold_def)
qed

section \<open>Deposits\<close>

lemma inv_bump:
  assumes "bridge_inv E s" "chain_whitelisted s c" "bump_nonce c s = (n, s1)"
    and e: "\<And>d. deposit_nonce_of d e = (if d = c then [n] else [])" "approval_of e = []"
  shows "bridge_inv E (deposit_event e s1) \<and> Votes (deposit_event e s1) = Votes s"
proof -
  from assms(2,3) obtain m where m: "ChainNonces s c = Some m" and n: "n = m + 1"
    and s1: "s1 = s\<lparr>ChainNonces := (ChainNonces s)(c \<mapsto> n)\<rparr>"
    by (auto simp: chain_whitelisted_def bump_nonce_def Let_def)
  have log: "\<exists>k. deposit_nonces d (events (deposit_event e s1)) = nonce_log k \<and>
      (case ChainNonces (deposit_event e s1) d of None \<Rightarrow> k = 0 | Some n \<Rightarrow> n = of_nat k)" for d
  proof (cases "d = c")
    case True
    from assms(1) m obtain k where "deposit_nonces c (events s) = nonce_log k" "m = of_nat k"
      unfolding bridge_inv_def by (metis option.simps(5))
    with True show ?thesis by (intro exI [of _ "Suc k"]) (simp add: s1 e n nonce_log_Suc add.commute)
  next
    case False
    with assms(1) show ?thesis by (simp add: s1 e bridge_inv_def)
  qed
  from assms(1) m have "c \<noteq> ThisChainId E" by (auto simp: bridge_inv_def)
  with assms(1) log e(2) show ?thesis unfolding bridge_inv_def
    by (simp add: s1 relayer_threshold_def relayer_set_def)
qed

lemma inv_transfers:
  assumes "bridge_inv E s"
  shows "transfer_fungible c rid to' amt s = Inr s' \<Longrightarrow> bridge_inv E s' \<and> Votes s' = Votes s"
    and "transfer_nonfungible c rid tid to' md s = Inr s' \<Longrightarrow> bridge_inv E s' \<and> Votes s' = Votes s"
    and "transfer_generic c rid md s = Inr s' \<Longrightarrow> bridge_inv E s' \<and> Votes s' = Votes s"
proof -
  obtain n s1 where b: "bump_nonce c s = (n, s1)" by fastforce
  note * = inv_bump [OF assms _ b]
  show "transfer_fungible c rid to' amt s = Inr s' \<Longrightarrow> bridge_inv E s' \<and> Votes s' = Votes s"
    using * [of "BridgeEv (FungibleTransfer c n rid amt to')"] by (auto simp: transfer_fungible_def b res_simps)
  show "transfer_nonfungible c rid tid to' md s = Inr s' \<Longrightarrow> bridge_inv E s' \<and> Votes s' = Votes s"
    using * [of "BridgeEv (NonFungibleTransfer c n rid tid to' md)"] by (auto simp: transfer_nonfungible_def b res_simps)
  show "transfer_generic c rid md s = Inr s' \<Longrightarrow> bridge_inv E s' \<and> Votes s' = Votes s"
    using * [of "BridgeEv (GenericTransfer c n rid md)"] by (auto simp: transfer_generic_def b res_simps)
qed

section \<open>Votes\<close>

lemma commit_vote_elim:
  assumes "commit_vote E w nonce src prop fav s = Inr s'"
  obtains v v' ev where
    "v = (case Votes s (src, nonce, prop) of Some v \<Rightarrow> v
          | None \<Rightarrow> default_votes\<lparr>expiry := block_number s + ProposalLifetime E\<rparr>)"
    "\<not> is_complete v" "block_number s < expiry v" "w \<notin> set (votes_for v)" "w \<notin> set (votes_against v)"
    "v' = (if fav then v\<lparr>votes_for := votes_for v @ [w]\<rparr> else v\<lparr>votes_against := votes_against v @ [w]\<rparr>)"
    "ev = (if fav then VoteFor src nonce w else VoteAgainst src nonce w)"
    "s' = (deposit_event (BridgeEv ev) s)\<lparr>Votes := (Votes s)((src, nonce, prop) \<mapsto> v')\<rparr>"
  using assms unfolding commit_vote_def Let_def
  by (auto simp: res_simps is_expired_def hash_voted_def not_le split: if_splits)

lemma try_to_complete_elim:
  assumes "try_to_complete t n v = (st, v')"
  shows "v' = v\<lparr>pv_status := st\<rparr> \<or> st = Initiated \<and> v' = v"
    and "st = Approved \<Longrightarrow> unat t \<le> length (votes_for v)"
  using assms by (auto simp: try_to_complete_def split: if_splits)

lemma try_resolve_elim:
  assumes "try_resolve_proposal E pd nonce src prop s = Inr s'"
  obtains v st v' s1 where "Votes s (src, nonce, prop) = Some v" "\<not> is_complete v" "block_number s < expiry v"
    "try_to_complete (relayer_threshold s) (RelayerCount s) v = (st, v')"
    "s1 = s\<lparr>Votes := (Votes s)((src, nonce, prop) \<mapsto> v')\<rparr>"
    "st = Approved \<Longrightarrow> \<exists>s2. pd prop (bridge_account E) (deposit_event (BridgeEv (ProposalApproved src nonce)) s1) = Inr s2 \<and>
       s' = deposit_event (BridgeEv (ProposalSucceeded src nonce)) s2"
    "st = Rejected \<Longrightarrow> s' = deposit_event (BridgeEv (ProposalRejected src nonce)) s1"
    "st = Initiated \<Longrightarrow> s' = s1"
proof (cases "Votes s (src, nonce, prop)")
  case None
  with assms show ?thesis by (simp add: try_resolve_proposal_def)
next
  case (Some v)
  obtain st v' where t: "try_to_complete (relayer_threshold s) (RelayerCount s) v = (st, v')" by fastforce
  have ok: "\<not> is_complete v" "block_number s < expiry v"
    using assms Some by (auto simp: try_resolve_proposal_def res_simps is_expired_def)
  from assms Some t ok
  have r: "(case st of Approved \<Rightarrow> finalize_execution E pd src nonce prop (s\<lparr>Votes := (Votes s)((src, nonce, prop) \<mapsto> v')\<rparr>)
      | Rejected \<Rightarrow> cancel_execution src nonce (s\<lparr>Votes := (Votes s)((src, nonce, prop) \<mapsto> v')\<rparr>)
      | Initiated \<Rightarrow> Inr (s\<lparr>Votes := (Votes s)((src, nonce, prop) \<mapsto> v')\<rparr>)) = Inr s'"
    by (simp add: try_resolve_proposal_def is_expired_def not_le Let_def)
  show ?thesis
    by (rule that [OF Some ok t refl])
      (use r in \<open>auto simp: finalize_execution_def cancel_execution_def res_simps\<close>)
qed

lemma bridge_inv_ballot:
  assumes "bridge_inv E s" "ballot_inv v" "pv_status v \<noteq> Approved"
    and "\<And>u. Votes s (src, n, p) = Some u \<Longrightarrow> pv_status u \<noteq> Approved"
  shows "bridge_inv E (s\<lparr>Votes := (Votes s)((src, n, p) \<mapsto> v)\<rparr>)"
proof -
  have "approvals_logged ((Votes s)((src, n, p) \<mapsto> v)) (approvals (events s))"
    using assms by (intro logged_other) (simp_all add: bridge_inv_def)
  with assms(1,2) show ?thesis by (auto simp: bridge_inv_def relayer_threshold_def relayer_set_def)
qed

lemma bridge_inv_approved:
  assumes "bridge_inv E s" "ballot_inv v" "pv_status v = Approved"
    and "\<And>u. Votes s (src, n, p) = Some u \<Longrightarrow> pv_status u \<noteq> Approved"
  shows "bridge_inv E (deposit_event (BridgeEv (ProposalApproved src n)) (s\<lparr>Votes := (Votes s)((src, n, p) \<mapsto> v)\<rparr>))"
proof -
  have "approvals_logged ((Votes s)((src, n, p) \<mapsto> v)) (approvals (events s) @ [(src, n)])"
    using assms by (intro logged_new) (simp_all add: bridge_inv_def)
  with assms(1,2) show ?thesis by (auto simp: bridge_inv_def relayer_threshold_def relayer_set_def)
qed

lemma inv_commit_vote:
  assumes "bridge_inv E s" "commit_vote E w nonce src prop fav s = Inr s'"
  shows "bridge_inv E s' \<and> ballots_evolve s s'"
  using assms(2)
proof (cases rule: commit_vote_elim)
  case (1 v v' ev)
  have "ballot_inv v" using 1(1) assms(1)
    by (auto simp: bridge_inv_def default_votes_def ballot_inv_def split: option.splits)
  then have v': "ballot_inv v'" using 1(2,4,5,6) by (auto simp: ballot_inv_def is_complete_def)
  have st: "pv_status v' \<noteq> Approved" "\<And>u. Votes s (src, nonce, prop) = Some u \<Longrightarrow> pv_status u \<noteq> Approved"
    using 1(1,2,6) by (auto simp: is_complete_def)
  let ?s = "deposit_event (BridgeEv ev) s"
  have "bridge_inv E ?s" by (rule bridge_inv_deposit [OF assms(1)]) (simp_all add: 1(7))
  from bridge_inv_ballot [OF this v' st(1)] st(2) have "bridge_inv E s'" by (simp add: 1(8))
  moreover have "ballots_evolve s s'"
    by (rule evolve_put [of _ _ "(src, nonce, prop)" v']) (use 1 in \<open>auto split: if_splits\<close>)
  ultimately show ?thesis ..
qed

section \<open>The transition system of the bridge\<close>

text \<open>The calls of the pallet, the deposits that other pallets make through it, and every step of
  the chain that leaves its storage alone.\<close>

datatype 'p brg_call =
    Set_threshold u32
  | Set_resource resource_id bytes
  | Remove_resource resource_id
  | Whitelist_chain chain_id
  | Add_relayer account
  | Remove_relayer account
  | Acknowledge_proposal deposit_nonce chain_id resource_id evm_hash 'p
  | Reject_proposal deposit_nonce chain_id resource_id 'p
  | Eval_vote_state deposit_nonce chain_id 'p

fun brg_dispatch ::
  "('b, 'x) bridge_env_scheme
    \<Rightarrow> ('p \<Rightarrow> account \<Rightarrow> ('b, 'c, 'p, 'z) bridge_chain_scheme \<Rightarrow> ('b, 'c, 'p, 'z) bridge_chain_scheme result)
    \<Rightarrow> origin \<Rightarrow> 'p brg_call \<Rightarrow> ('b, 'c, 'p, 'z) bridge_chain_scheme \<Rightarrow> ('b, 'c, 'p, 'z) bridge_chain_scheme result" where
  "brg_dispatch E pd orig (Set_threshold t) s = set_threshold E orig t s"
| "brg_dispatch E pd orig (Set_resource rid m) s = set_resource E orig rid m s"
| "brg_dispatch E pd orig (Remove_resource rid) s = remove_resource E orig rid s"
| "brg_dispatch E pd orig (Whitelist_chain c) s = whitelist_chain E orig c s"
| "brg_dispatch E pd orig (Add_relayer w) s = add_relayer E orig w s"
| "brg_dispatch E pd orig (Remove_relayer w) s = remove_relayer E orig w s"
| "brg_dispatch E pd orig (Acknowledge_proposal n src rid h p) s = acknowledge_proposal E pd orig n src rid h p s"
| "brg_dispatch E pd orig (Reject_proposal n src rid p) s = reject_proposal E pd orig n src rid p s"
| "brg_dispatch E pd orig (Eval_vote_state n src p) s = eval_vote_state E pd orig n src p s"

inductive brg_step ::
  "('b, 'x) bridge_env_scheme
    \<Rightarrow> ('p \<Rightarrow> account \<Rightarrow> ('b, 'c, 'p, 'z) bridge_chain_scheme \<Rightarrow> ('b, 'c, 'p, 'z) bridge_chain_scheme result)
    \<Rightarrow> ('b, 'c, 'p, 'z) bridge_chain_scheme \<Rightarrow> ('b, 'c, 'p, 'z) bridge_chain_scheme \<Rightarrow> bool" for E pd where
  bstep_call: "brg_dispatch E pd orig c s = Inr s' \<Longrightarrow> brg_step E pd s s'"
| bstep_fungible: "transfer_fungible c rid recipient amount s = Inr s' \<Longrightarrow> brg_step E pd s s'"
| bstep_nonfungible: "transfer_nonfungible c rid tid recipient md s = Inr s' \<Longrightarrow> brg_step E pd s s'"
| bstep_generic: "transfer_generic c rid md s = Inr s' \<Longrightarrow> brg_step E pd s s'"
| bstep_other: "brg s' = brg s \<Longrightarrow> brg_step E pd s s'"

definition brg_genesis :: "('b, 'c, 'p, 'z) bridge_chain_scheme \<Rightarrow> bool" where
  "brg_genesis s \<longleftrightarrow> ChainNonces s = Map.empty \<and> RelayerThreshold s = None \<and> Relayers s = (\<lambda>_. False) \<and>
     RelayerCount s = 0 \<and> Votes s = Map.empty \<and> Resources s = Map.empty \<and> events s = []"

definition brg_reachable ::
  "('b, 'x) bridge_env_scheme
    \<Rightarrow> ('p \<Rightarrow> account \<Rightarrow> ('b, 'c, 'p, 'z) bridge_chain_scheme \<Rightarrow> ('b, 'c, 'p, 'z) bridge_chain_scheme result)
    \<Rightarrow> ('b, 'c, 'p, 'z) bridge_chain_scheme \<Rightarrow> bool" where
  "brg_reachable E pd s \<longleftrightarrow> (\<exists>s0. brg_genesis s0 \<and> (brg_step E pd)\<^sup>*\<^sup>* s0 s)"

lemma bridge_inv_genesis: "brg_genesis s \<Longrightarrow> bridge_inv E s"
  by (auto simp: brg_genesis_def bridge_inv_def relayer_threshold_def DEFAULT_RELAYER_THRESHOLD_def
      relayer_set_def deposit_nonces_def nonce_log_def approvals_logged_def approved_calls_def approvals_def)

section \<open>The contract of the dispatched proposals\<close>

locale proposal_runner =
  fixes E :: "('b, 'x) bridge_env_scheme"
    and pd :: "'p \<Rightarrow> account \<Rightarrow> ('b, 'c, 'p, 'z) bridge_chain_scheme \<Rightarrow> ('b, 'c, 'p, 'z) bridge_chain_scheme result"
  assumes run_inv: "bridge_inv E s \<Longrightarrow> pd p w s = Inr s' \<Longrightarrow> bridge_inv E s'"
    and run_evolve: "bridge_inv E s \<Longrightarrow> pd p w s = Inr s' \<Longrightarrow> ballots_evolve s s'"
begin

lemma inv_try_resolve:
  assumes "bridge_inv E s" "try_resolve_proposal E pd nonce src prop s = Inr s'"
  shows "bridge_inv E s' \<and> ballots_evolve s s'"
  using assms(2)
proof (cases rule: try_resolve_elim)
  case (1 v st v' s1)
  have bi: "ballot_inv v" using assms(1) 1(1) by (auto simp: bridge_inv_def)
  have t: "relayer_threshold s \<noteq> 0" using assms(1) by (simp add: bridge_inv_def)
  have v': "ballot_inv v'"
    using try_to_complete_elim [OF 1(4)] bi t by (auto simp: ballot_inv_def unat_eq_zero)
  have old: "pv_status v \<noteq> Approved" "\<And>u. Votes s (src, nonce, prop) = Some u \<Longrightarrow> pv_status u \<noteq> Approved"
    using 1(1,2) by (auto simp: is_complete_def)
  have st: "pv_status v' = Approved \<longleftrightarrow> st = Approved" using try_to_complete_elim(1) [OF 1(4)] old(1) by auto
  have s1: "bridge_inv E s1" if "st \<noteq> Approved"
    unfolding 1(5) by (rule bridge_inv_ballot [OF assms(1) v' _ old(2)]) (use st that in auto)
  have e1: "ballots_evolve s s1"
    by (rule evolve_put [of _ _ "(src, nonce, prop)" v'])
      (use 1(1,2,5) try_to_complete_elim(1) [OF 1(4)] in auto)
  let ?s1 = "deposit_event (BridgeEv (ProposalApproved src nonce)) s1"
  show ?thesis
  proof (cases st)
    case Approved
    with 1(6) obtain s2 where s2: "pd prop (bridge_account E) ?s1 = Inr s2"
      and s': "s' = deposit_event (BridgeEv (ProposalSucceeded src nonce)) s2" by blast
    have d: "bridge_inv E ?s1" unfolding 1(5)
      by (rule bridge_inv_approved [OF assms(1) v' _ old(2)]) (use st Approved in auto)
    have "bridge_inv E s2" by (rule run_inv [OF d s2])
    then have "bridge_inv E s'" unfolding s' by (rule bridge_inv_deposit) simp_all
    moreover have "ballots_evolve s s'"
      by (rule ballots_evolve_trans [OF e1 ballots_evolve_trans [OF _ ballots_evolve_trans [OF run_evolve [OF d s2]]]])
        (simp_all add: s' evolve_votes)
    ultimately show ?thesis ..
  next
    case Rejected
    then have s': "s' = deposit_event (BridgeEv (ProposalRejected src nonce)) s1" by (rule 1(7))
    show ?thesis unfolding s'
      using bridge_inv_deposit [OF s1, of "BridgeEv (ProposalRejected src nonce)"] Rejected
        ballots_evolve_trans [OF e1 evolve_votes] by simp
  next
    case Initiated
    then show ?thesis using 1(8) s1 e1 by simp
  qed
qed

lemma runner_vote:
  assumes "bridge_inv E s"
    and "rbind (commit_vote E w nonce src prop fav s) (try_resolve_proposal E pd nonce src prop) = Inr s'"
  shows "bridge_inv E s' \<and> ballots_evolve s s'"
proof -
  from assms(2) obtain s1 where s1: "commit_vote E w nonce src prop fav s = Inr s1"
    and s': "try_resolve_proposal E pd nonce src prop s1 = Inr s'" by (auto simp: res_simps)
  from inv_commit_vote [OF assms(1) s1] inv_try_resolve [OF _ s'] show ?thesis
    by (auto intro: ballots_evolve_trans)
qed

lemma runner_dispatch:
  assumes "bridge_inv E s" "brg_dispatch E pd orig c s = Inr s'"
  shows "bridge_inv E s' \<and> ballots_evolve s s'"
proof (cases c)
  case (Set_threshold t)
  with assms show ?thesis using inv_set_relayer_threshold
    by (fastforce simp: set_threshold_def res_simps intro: evolve_votes)
next
  case (Set_resource rid m)
  with assms show ?thesis using inv_set_resource by (fastforce intro: evolve_votes)
next
  case (Remove_resource rid)
  with assms show ?thesis using inv_unregister_resource
    by (fastforce simp: remove_resource_def res_simps intro: evolve_votes)
next
  case (Whitelist_chain d)
  with assms show ?thesis using inv_whitelist
    by (fastforce simp: whitelist_chain_def res_simps intro: evolve_votes)
next
  case (Add_relayer w)
  with assms show ?thesis using inv_register_relayer
    by (fastforce simp: add_relayer_def res_simps intro: evolve_votes)
next
  case (Remove_relayer w)
  with assms show ?thesis using inv_unregister_relayer
    by (fastforce simp: remove_relayer_def res_simps intro: evolve_votes)
next
  case (Acknowledge_proposal nonce src rid hash p)
  let ?s = "deposit_event (BridgeEv (ProposalVote src hash nonce)) s"
  from Acknowledge_proposal assms(2) obtain w where
    v: "rbind (commit_vote E w nonce src p True ?s) (try_resolve_proposal E pd nonce src p) = Inr s'"
    by (auto simp: acknowledge_proposal_def vote_for_def res_simps)
  have "bridge_inv E ?s" by (rule bridge_inv_deposit [OF assms(1)]) simp_all
  from runner_vote [OF this v] show ?thesis by (auto simp: ballots_evolve_def)
next
  case (Reject_proposal nonce src rid p)
  with assms show ?thesis using runner_vote
    by (fastforce simp: reject_proposal_def vote_against_def res_simps)
next
  case (Eval_vote_state nonce src p)
  with assms show ?thesis using inv_try_resolve by (fastforce simp: eval_vote_state_def res_simps)
qed

lemma runner_step:
  assumes "bridge_inv E s" "brg_step E pd s s'"
  shows "bridge_inv E s' \<and> ballots_evolve s s'"
  using assms(2)
proof cases
  case bstep_call
  then show ?thesis using runner_dispatch [OF assms(1)] by blast
next
  case bstep_fungible
  then show ?thesis using inv_transfers(1) [OF assms(1)] evolve_votes by blast
next
  case bstep_nonfungible
  then show ?thesis using inv_transfers(2) [OF assms(1)] evolve_votes by blast
next
  case bstep_generic
  then show ?thesis using inv_transfers(3) [OF assms(1)] evolve_votes by blast
next
  case bstep_other
  then show ?thesis using bridge_inv_brg [OF assms(1)] brgD(5) evolve_votes by blast
qed

lemma runner_steps:
  assumes "(brg_step E pd)\<^sup>*\<^sup>* s s'" "bridge_inv E s"
  shows "bridge_inv E s' \<and> ballots_evolve s s'"
  using assms
proof (induction rule: rtranclp_induct)
  case base
  then show ?case by simp
next
  case (step s1 s2)
  then show ?case using runner_step [of s1 s2] ballots_evolve_trans by blast
qed

lemma runner_reachable: "brg_reachable E pd s \<Longrightarrow> bridge_inv E s"
  unfolding brg_reachable_def using runner_steps bridge_inv_genesis by blast

end

text \<open>A runner that does not touch the storage of the bridge.\<close>

locale framed_runner =
  fixes E :: "('b, 'x) bridge_env_scheme"
    and pd :: "'p \<Rightarrow> account \<Rightarrow> ('b, 'c, 'p, 'z) bridge_chain_scheme \<Rightarrow> ('b, 'c, 'p, 'z) bridge_chain_scheme result"
  assumes run_frame: "pd p w s = Inr s' \<Longrightarrow> brg s' = brg s"

sublocale framed_runner \<subseteq> proposal_runner
  by unfold_locales (auto dest: run_frame intro: bridge_inv_brg evolve_votes brgD(5))

section \<open>The calls of the handler are such proposals\<close>

lemma brg_transfer_token [brg_frame]:
  "transfer_token E a t v b s = Inr s' \<Longrightarrow> brg s' = brg s"
  by (auto simp: transfer_token_def store_account_def deposit_event_def brg_def Let_def res_simps split: if_splits)

lemma brg_mint [brg_frame]: "mint_into t w v s = Inr s' \<Longrightarrow> brg s' = brg s"
  by (auto simp: mint_into_def do_mint_def store_account_def deposit_event_def brg_def Let_def res_simps split: if_splits)

lemma brg_reserve [brg_frame]: "reserve E i w t v d s = Inr s' \<Longrightarrow> brg s' = brg s"
  by (auto simp: reserve_def token_reserve_def put_reserve_def store_account_def deposit_event_def brg_def Let_def
      res_simps split: if_splits)

lemma brg_authorize [brg_frame]:
  assumes "authorize_to E w d t v s = Inr s'"
  shows "brg s' = brg s"
proof -
  from assms obtain s1 r where "reserve E RESERVE_FOR_AUTHORIZING_STASH w t v d s = Inr s1"
    "s' = deposit_event (VerifierEv (TokenHosted w d t v)) (put_receipt (d, w) r s1)"
    by (auto simp: authorize_to_def res_simps)
  then show ?thesis using brg_reserve by (fastforce simp: brg_def put_receipt_def)
qed

lemma brg_authorize_in [brg_frame]:
  "authorize_native E w v rid s = Inr s' \<Longrightarrow> brg s' = brg s"
  "authorize_asset E w v rid s = Inr s' \<Longrightarrow> brg s' = brg s"
  by (auto simp: authorize_native_def authorize_asset_def res_simps dest: brg_frame split: option.splits)

lemma brg_donate [brg_frame]: "donate E w s = Inr s' \<Longrightarrow> brg s' = brg s"
  by (auto simp: donate_def res_simps dest: brg_frame split: if_splits)

lemma transfer_in_elim:
  assumes "transfer_in E orig w v rid s = Inr s'"
  obtains s1 where "orig = Signed (bridge_account E)" "is_native_resource E rid = Inr True"
      "rbind (do_unlock E (bridge_account E) w v s) (authorize_native E w v rid) = Inr s1" "donate E w s1 = Inr s'"
  | s1 where "orig = Signed (bridge_account E)" "is_native_resource E rid = Inr False"
      "rbind (do_mint_assets w v rid s) (authorize_asset E w v rid) = Inr s1" "donate E w s1 = Inr s'"
proof -
  from assms obtain n where "orig = Signed (bridge_account E)" "is_native_resource E rid = Inr n"
    "rbind (if n then rbind (do_unlock E (bridge_account E) w v s) (authorize_native E w v rid)
      else rbind (do_mint_assets w v rid s) (authorize_asset E w v rid)) (donate E w) = Inr s'"
    unfolding transfer_in_def rbind_eq_Inr ensure_bridge_eq_Inr by blast
  with that show thesis by (cases n) (simp_all add: rbind_eq_Inr, blast+)
qed

lemma brg_transfer_in [brg_frame]:
  assumes "transfer_in E orig w v rid s = Inr s'"
  shows "brg s' = brg s"
proof -
  from assms obtain s1 where d: "donate E w s1 = Inr s'" and
    "rbind (do_unlock E (bridge_account E) w v s) (authorize_native E w v rid) = Inr s1 \<or>
     rbind (do_mint_assets w v rid s) (authorize_asset E w v rid) = Inr s1"
    by (rule transfer_in_elim) blast+
  then have "brg s1 = brg s"
    by (auto simp: do_unlock_def do_mint_assets_def res_simps
        dest!: brg_frame split: if_splits)
  with brg_donate [OF d] show ?thesis by simp
qed

interpretation hdl: framed_runner E "run_proposal E"
proof unfold_locales
  fix p w s s'
  assume "run_proposal E p w s = Inr s'"
  then show "brg s' = brg s" by (cases p) (auto simp: remark_def res_simps dest: brg_transfer_in)
qed

end
