(* ===== verification/Fuso_Bridge_Props.thy ===== *)
theory Fuso_Bridge_Props
  imports Fuso_Bridge_Laws Fuso_Verifier_Sample
begin

text \<open>
  Properties of the bridge pallet with the proposals of the bridge handler: the invariant, the
  refinement of the stored vote lists to ballots of two sets, the correctness of the tally and the
  uniqueness of deposit nonces. The finality of a decision is proved in the composed runtime.
\<close>

section \<open>The abstract ballot\<close>

text \<open>A ballot is a set of supporters, a set of opponents and its outcome. A vote joins one of the
  sets; enough supporters approve, and opponents reject as soon as the others cannot approve.\<close>

record ballot =
  yes :: "account set"
  no :: "account set"
  outcome :: proposal_status

definition decide :: "nat \<Rightarrow> nat \<Rightarrow> account set \<Rightarrow> account set \<Rightarrow> proposal_status" where
  "decide t n Y N =
     (if t \<le> card Y then Approved else if t \<le> n \<and> n < card N + t then Rejected else Initiated)"

definition cast_vote :: "nat \<Rightarrow> nat \<Rightarrow> account \<Rightarrow> bool \<Rightarrow> ballot \<Rightarrow> ballot" where
  "cast_vote t n w fav b =
     (let Y = (if fav then insert w (yes b) else yes b); N = (if fav then no b else insert w (no b))
      in \<lparr>yes = Y, no = N, outcome = decide t n Y N\<rparr>)"

definition ballot_of :: "proposal_votes \<Rightarrow> ballot" where
  "ballot_of v = \<lparr>yes = set (votes_for v), no = set (votes_against v), outcome = pv_status v\<rparr>"

definition ballot_at ::
  "('b, 'c, 'p, 'z) bridge_chain_scheme \<Rightarrow> chain_id \<times> deposit_nonce \<times> 'p \<Rightarrow> ballot" where
  "ballot_at s k = (case Votes s k of None \<Rightarrow> \<lparr>yes = {}, no = {}, outcome = Initiated\<rparr> | Some v \<Rightarrow> ballot_of v)"

lemma try_to_complete_decide:
  assumes "distinct (votes_for v)" "distinct (votes_against v)" "length (votes_against v) + unat t < 2 ^ 32"
  shows "fst (try_to_complete t n v) = decide (unat t) (unat n) (set (votes_for v)) (set (votes_against v))"
proof -
  let ?l = "length (votes_against v)"
  have "unat (of_nat ?l :: u32) = ?l" using assms(3) by (simp add: unsigned_of_nat take_bit_nat_eq_self)
  then have "unat (of_nat ?l + t) = ?l + unat t" using assms(3) by (simp add: unat_add_no_wrap)
  then have "n < of_nat ?l + t \<longleftrightarrow> unat n < ?l + unat t" by (simp add: word_less_nat_alt)
  then show ?thesis
    using assms(1,2) by (simp add: try_to_complete_def decide_def distinct_card word_le_nat_alt)
qed

lemma try_to_complete_snd:
  "try_to_complete t n v = (st, v') \<Longrightarrow> pv_status v = Initiated \<Longrightarrow> v' = v\<lparr>pv_status := st\<rparr>"
  by (auto simp: try_to_complete_def split: if_splits)

lemma relayer_count_card:
  "bridge_inv E s \<Longrightarrow> card (relayer_set s) < 2 ^ 32 \<Longrightarrow> unat (RelayerCount s) = card (relayer_set s)"
  by (simp add: bridge_inv_def unsigned_of_nat take_bit_nat_eq_self)

text \<open>The vote and the resolution of a proposal, for both kinds of votes.\<close>

lemma vote_elim:
  assumes inv: "bridge_inv E s"
    and vote: "rbind (commit_vote E w nonce src p fav s) (try_resolve_proposal E (run_proposal E) nonce src p) = Inr s'"
    and bound: "Suc (card (no (ballot_at s (src, nonce, p)))) + unat (relayer_threshold s) < 2 ^ 32"
  obtains v s1 where
    "outcome (ballot_at s (src, nonce, p)) = Initiated"
    "w \<notin> yes (ballot_at s (src, nonce, p)) \<union> no (ballot_at s (src, nonce, p))"
    "ballot_of v = cast_vote (unat (relayer_threshold s)) (unat (RelayerCount s)) w fav (ballot_at s (src, nonce, p))"
    "Votes s1 = (Votes s)((src, nonce, p) \<mapsto> v)" "native s1 = native s" "Balances s1 = Balances s"
    "pv_status v = Approved \<Longrightarrow> \<exists>s2. run_proposal E p (bridge_account E) s1 = Inr s2 \<and>
       s' = deposit_event (BridgeEv (ProposalSucceeded src nonce)) s2"
    "pv_status v \<noteq> Approved \<Longrightarrow> s' = s1"
proof -
  let ?k = "(src, nonce, p)"
  from vote obtain s0 where c: "commit_vote E w nonce src p fav s = Inr s0"
    and r: "try_resolve_proposal E (run_proposal E) nonce src p s0 = Inr s'" by (auto simp: res_simps)
  obtain v0 v1 ev where v0: "v0 = (case Votes s ?k of Some v \<Rightarrow> v
        | None \<Rightarrow> default_votes\<lparr>expiry := block_number s + ProposalLifetime E\<rparr>)"
    and op: "\<not> is_complete v0" and fresh: "w \<notin> set (votes_for v0)" "w \<notin> set (votes_against v0)"
    and v1: "v1 = (if fav then v0\<lparr>votes_for := votes_for v0 @ [w]\<rparr> else v0\<lparr>votes_against := votes_against v0 @ [w]\<rparr>)"
    and s0: "s0 = (deposit_event (BridgeEv ev) s)\<lparr>Votes := (Votes s)(?k \<mapsto> v1)\<rparr>"
    by (rule commit_vote_elim [OF c])
  have b: "ballot_at s ?k = ballot_of v0" unfolding v0
    by (simp add: ballot_at_def ballot_of_def default_votes_def split: option.splits)
  have i1: "ballot_inv v1" using inv_commit_vote [OF inv c] bridge_inv_ballotD [of E s0 ?k v1] by (simp add: s0)
  obtain st v' s1 where st: "try_to_complete (relayer_threshold s0) (RelayerCount s0) v1 = (st, v')"
    and s1: "s1 = s0\<lparr>Votes := (Votes s0)(?k \<mapsto> v')\<rparr>"
    and ok: "st = Approved \<Longrightarrow> \<exists>s2. run_proposal E p (bridge_account E)
        (deposit_event (BridgeEv (ProposalApproved src nonce)) s1) = Inr s2 \<and>
        s' = deposit_event (BridgeEv (ProposalSucceeded src nonce)) s2"
    and no': "st = Rejected \<Longrightarrow> s' = deposit_event (BridgeEv (ProposalRejected src nonce)) s1"
    and init: "st = Initiated \<Longrightarrow> s' = s1"
    by (rule try_resolve_elim [OF r]) (simp add: s0)
  have same: "relayer_threshold s0 = relayer_threshold s" "RelayerCount s0 = RelayerCount s"
    by (simp_all add: s0 relayer_threshold_def)
  have st1: "pv_status v1 = Initiated" using op by (simp add: v1 is_complete_def)
  have v': "v' = v1\<lparr>pv_status := st\<rparr>" by (rule try_to_complete_snd [OF st st1])
  have d: "distinct (votes_for v1)" "distinct (votes_against v1)" using i1 by (auto simp: ballot_inv_def)
  have "length (votes_against v1) \<le> Suc (card (no (ballot_of v0)))"
    using d(2) by (auto simp: v1 ballot_of_def distinct_card split: if_splits)
  then have "length (votes_against v1) + unat (relayer_threshold s) < 2 ^ 32" using bound b by simp
  from try_to_complete_decide [OF d this, of "RelayerCount s"] st
  have "st = decide (unat (relayer_threshold s)) (unat (RelayerCount s)) (set (votes_for v1)) (set (votes_against v1))"
    by (simp add: same)
  then have cast: "ballot_of v' = cast_vote (unat (relayer_threshold s)) (unat (RelayerCount s)) w fav (ballot_at s ?k)"
    unfolding b by (simp add: v' v1 ballot_of_def cast_vote_def Let_def)
  define s2 where "s2 = (case st of Approved \<Rightarrow> deposit_event (BridgeEv (ProposalApproved src nonce)) s1
    | Rejected \<Rightarrow> deposit_event (BridgeEv (ProposalRejected src nonce)) s1 | Initiated \<Rightarrow> s1)"
  show thesis
  proof (rule that [of v' s2])
    show "outcome (ballot_at s ?k) = Initiated" using op by (simp add: b ballot_of_def is_complete_def)
    show "w \<notin> yes (ballot_at s ?k) \<union> no (ballot_at s ?k)" using fresh by (simp add: b ballot_of_def)
    show "Votes s2 = (Votes s)(?k \<mapsto> v')" "native s2 = native s" "Balances s2 = Balances s"
      by (simp_all add: s2_def s1 s0 deposit_event_def split: proposal_status.splits)
    show "pv_status v' = Approved \<Longrightarrow> \<exists>s3. run_proposal E p (bridge_account E) s2 = Inr s3 \<and>
       s' = deposit_event (BridgeEv (ProposalSucceeded src nonce)) s3"
      using ok by (simp add: v' s2_def)
    show "pv_status v' \<noteq> Approved \<Longrightarrow> s' = s2"
      using no' init by (cases st) (simp_all add: v' s2_def)
  qed (rule cast)
qed

section \<open>The sample bridge\<close>

text \<open>The bridge of the mock runtime: this chain is 42, proposals live for 50 blocks, root
  administrates, the native resource is that of the name \<open>TAO\<close>.\<close>

definition bridge_acc :: account where "bridge_acc = replicate 32 7"
definition treasury :: account where "treasury = replicate 32 5"
definition tao_rid :: resource_id where "tao_rid = 3 # replicate 25 0 @ [84, 65, 79] @ [0, 42, 0]"

lemma tao_rid_derived: "derive_resource_id 42 0 [84, 65, 79] = Inr tao_rid"
  by code_simp

definition hdl_env :: "sample_bal handler_env" where
  "hdl_env = bridge_env.extend
     (verifier_env.extend vrf_env (bridge_env.fields 42 50 treasury tao_rid (\<lambda>orig. orig = Root) bridge_acc))
     (handler_env.fields 6000 bob 10)"

type_synonym sample_bridge = "(sample_bal, sample_cb, hdl_call) handler_chain"

definition b0 :: sample_bridge where
  "b0 = bridge_chain.extend
     (verifier_chain.extend (v0\<lparr>events := []\<rparr>)
        (bridge_chain.fields Map.empty None (\<lambda>_. False) 0 Map.empty Map.empty))
     (handler_chain.fields False None Map.empty)"

lemma hdl_env_simps [simp]:
  "ThisChainId hdl_env = 42" "ProposalLifetime hdl_env = 50" "TreasuryAccount hdl_env = treasury"
  "NativeResourceId hdl_env = tao_rid" "bridge_admin hdl_env = (\<lambda>orig. orig = Root)"
  "bridge_account hdl_env = bridge_acc" "NativeTokenMaxValue hdl_env = 6000" "DonorAccount hdl_env = bob"
  "DonationForAgent hdl_env = 10" "native_token_id hdl_env = 0" "bal_transfer hdl_env = sb_transfer"
  "bal_free hdl_env = sb_free" "bal_reserved hdl_env = sb_reserved"
  "perquintill_from_rational hdl_env = sample_ratio"
  by (simp_all add: hdl_env_def vrf_env_def rwd_env_def tok_env_def bridge_env.defs handler_env.defs verifier_env.defs
      token_env.defs reward_env.defs env.defs sample_env_def native_token_id_def)

lemma spec_hdl_env: "balances_spec hdl_env" "arith_spec hdl_env"
  using sample_balances_spec [of "env.more hdl_env"] sample_arith_spec [of "env.more hdl_env"]
  by (simp_all add: hdl_env_def vrf_env_def rwd_env_def tok_env_def bridge_env.defs handler_env.defs verifier_env.defs
      token_env.defs reward_env.defs env.defs sample_env_def)

text \<open>Root whitelists chain 1, registers the native resource and three relayers, and asks for two
  votes. The proposal pays 300 to Alice.\<close>

definition rel :: "u8 \<Rightarrow> account" where "rel i = replicate 32 (10 + i)"

definition setup_calls :: "hdl_call brg_call list" where
  "setup_calls = [Whitelist_chain 1, Set_resource tao_rid [1], Add_relayer (rel 1), Add_relayer (rel 2),
     Add_relayer (rel 3), Set_threshold 2]"

definition pay_alice :: hdl_call where "pay_alice = Transfer_in alice 300 tao_rid"

definition b1 :: sample_bridge where
  "b1 = b0\<lparr>ChainNonces := [1 \<mapsto> 0], RelayerThreshold := Some 2,
     Relayers := (\<lambda>_. False)(rel 1 := True, rel 2 := True, rel 3 := True), RelayerCount := 3,
     Resources := [tao_rid \<mapsto> [1]],
     events := map BridgeEv [ChainWhitelisted 1, RelayerAdded (rel 1), RelayerAdded (rel 2), RelayerAdded (rel 3),
       RelayerThresholdChanged 2]\<rparr>"

definition one_vote :: proposal_votes where
  "one_vote = \<lparr>votes_for = [rel 1], votes_against = [], pv_status = Initiated, expiry = 200\<rparr>"

definition b2 :: sample_bridge where
  "b2 = b1\<lparr>Votes := [(1, 0, pay_alice) \<mapsto> one_vote],
     events := events b1 @ map BridgeEv [ProposalVote 1 (replicate 32 0) 0, VoteFor 1 0 (rel 1)]\<rparr>"

definition b3 :: sample_bridge where
  "b3 = b1\<lparr>Votes := [(1, 0, pay_alice) \<mapsto> one_vote\<lparr>votes_for := [rel 1, rel 2], pv_status := Approved\<rparr>],
     native := sb_put bob (990, 0) (sb_put alice (1310, 0) (sb_put bridge_acc (700, 0) (native b0))),
     events := events b2 @ map BridgeEv [ProposalVote 1 (replicate 32 0) 0, VoteFor 1 0 (rel 2),
       ProposalApproved 1 0, ProposalSucceeded 1 0]\<rparr>"

lemma rel_simps [simp]: "rel i = rel j \<longleftrightarrow> i = j" by (simp add: rel_def)

lemma acc_neq [simp]: "alice \<noteq> bridge_acc" "bridge_acc \<noteq> alice" "bob \<noteq> bridge_acc" "bridge_acc \<noteq> bob"
  "treasury \<noteq> alice" "alice \<noteq> treasury" "treasury \<noteq> bridge_acc" "bridge_acc \<noteq> treasury"
  by (simp_all add: alice_def bob_def bridge_acc_def treasury_def)

lemmas b_defs = b0_def v0_def verifier_chain.defs bridge_chain.defs handler_chain.defs

lemma b1_run: "rfold (\<lambda>c. brg_dispatch hdl_env (run_proposal hdl_env) Root c) setup_calls b0 = Inr b1"
  by (simp add: setup_calls_def whitelist_chain_def ensure_bridge_admin_def whitelist_def chain_whitelisted_def
      set_resource_def register_resource_def add_relayer_def register_relayer_def is_relayer_def set_threshold_def
      set_relayer_threshold_def b1_def b_defs deposit_event_def)

lemma b2_run: "acknowledge_proposal hdl_env (run_proposal hdl_env) (Signed (rel 1)) 0 1 tao_rid (replicate 32 0) pay_alice b1 = Inr b2"
  by (simp add: acknowledge_proposal_def is_relayer_def chain_whitelisted_def resource_exists_def vote_for_def
      commit_vote_def default_votes_def is_complete_def is_expired_def hash_voted_def try_resolve_proposal_def
      try_to_complete_def relayer_threshold_def b2_def b1_def b_defs one_vote_def deposit_event_def)

lemma b3_run: "acknowledge_proposal hdl_env (run_proposal hdl_env) (Signed (rel 2)) 0 1 tao_rid (replicate 32 0) pay_alice b2 = Inr b3"
proof -
  let ?s = "b3\<lparr>native := native b0, events := butlast (events b3)\<rparr>"
  have "acknowledge_proposal hdl_env (run_proposal hdl_env) (Signed (rel 2)) 0 1 tao_rid (replicate 32 0) pay_alice b2 =
      finalize_execution hdl_env (run_proposal hdl_env) 1 0 pay_alice (b3\<lparr>native := native b0, events := butlast (butlast (events b3))\<rparr>)"
    by (simp add: acknowledge_proposal_def is_relayer_def chain_whitelisted_def resource_exists_def vote_for_def
        commit_vote_def default_votes_def is_complete_def is_expired_def hash_voted_def try_resolve_proposal_def
        try_to_complete_def relayer_threshold_def b3_def b2_def b1_def b_defs one_vote_def deposit_event_def)
  moreover have "run_proposal hdl_env pay_alice bridge_acc ?s = Inr (b3\<lparr>events := butlast (events b3)\<rparr>)"
    by (simp add: pay_alice_def transfer_in_def is_native_resource_def decode_resource_id_def tao_rid_def do_unlock_def
        transfer_token_def sb_transfer_def authorize_native_def donate_def caught_def b3_def b2_def b1_def b_defs
        sb_put_def sb_free_def sb_reserved_def checked_add_def fun_eq_iff)
  ultimately show ?thesis by (simp add: finalize_execution_def b3_def deposit_event_def butlast_append)
qed

lemma b_reachable:
  "brg_reachable hdl_env (run_proposal hdl_env) b1" "brg_reachable hdl_env (run_proposal hdl_env) b2"
  "brg_reachable hdl_env (run_proposal hdl_env) b3"
proof -
  let ?step = "brg_step hdl_env (run_proposal hdl_env)"
  have g: "brg_genesis b0" by (simp add: brg_genesis_def b_defs)
  have "?step\<^sup>*\<^sup>* b0 b1"
    by (rule rfold_invariant [OF b1_run]) (auto intro: rtranclp.rtrancl_into_rtrancl bstep_call)
  moreover have "?step b1 b2"
    by (rule bstep_call [of _ _ "Signed (rel 1)" "Acknowledge_proposal 0 1 tao_rid (replicate 32 0) pay_alice"])
      (simp add: b2_run)
  moreover have "?step b2 b3"
    by (rule bstep_call [of _ _ "Signed (rel 2)" "Acknowledge_proposal 0 1 tao_rid (replicate 32 0) pay_alice"])
      (simp add: b3_run)
  ultimately show "brg_reachable hdl_env (run_proposal hdl_env) b1" "brg_reachable hdl_env (run_proposal hdl_env) b2"
    "brg_reachable hdl_env (run_proposal hdl_env) b3"
    unfolding brg_reachable_def using g by (meson rtranclp.rtrancl_into_rtrancl)+
qed

section \<open>Properties\<close>

text \<open>
  In every state that a chain with the bridge reaches, the vote threshold is positive, the counter
  of relayers is the number of registered relayers (modulo the width of the counter), this chain is
  never a destination, no relayer has voted twice on a proposal, nor on both sides, and a proposal
  is approved only with a vote for it.\<close>
theorem bridge_invariant:
  assumes "brg_reachable E (run_proposal E) s"
  shows "relayer_threshold s \<noteq> 0 \<and> finite (relayer_set s) \<and>
    RelayerCount s = of_nat (card (relayer_set s)) \<and> \<not> chain_whitelisted s (ThisChainId E) \<and>
    (\<forall>k v. Votes s k = Some v \<longrightarrow> distinct (votes_for v @ votes_against v) \<and>
       (pv_status v = Approved \<longrightarrow> votes_for v \<noteq> []))"
  using hdl.runner_reachable [OF assms] by (simp add: bridge_inv_def chain_whitelisted_def ballot_inv_def)

theorem bridge_invariant_witness:
  "brg_reachable hdl_env (run_proposal hdl_env) b3 \<and> card (relayer_set b3) = 3 \<and>
   distinct (votes_for (the (Votes b3 (1, 0, pay_alice))) @ votes_against (the (Votes b3 (1, 0, pay_alice))))"
proof -
  have "relayer_set b3 = {rel 1, rel 2, rel 3}" by (auto simp: relayer_set_def b3_def b1_def)
  moreover have "card {rel 1, rel 2, rel 3} = 3" by simp
  moreover have "Votes b3 (1, 0, pay_alice) = Some (one_vote\<lparr>votes_for := [rel 1, rel 2], pv_status := Approved\<rparr>)"
    by (simp add: b3_def)
  moreover have "distinct (votes_for v @ votes_against v)" if "Votes b3 (1, 0, pay_alice) = Some v" for v
    using bridge_invariant [OF b_reachable(3)] that by blast
  ultimately show ?thesis using b_reachable(3) by (metis option.sel)
qed

text \<open>
  C5: A vote on a proposal, for or against it, refines a step on an abstract ballot of two sets. The
  call succeeds only for a registered relayer that has not voted yet, while the ballot is open; the
  stored votes then stand for the ballot with that vote cast and its outcome decided from the size
  of the sets; no other ballot changes. No balance moves unless the outcome is an approval, and then
  the balances are those after the proposed call, dispatched once with the account of the bridge.\<close>
theorem proposal_vote_refines:
  fixes s s' :: "('b, 'c, hdl_call, 'z) handler_chain_scheme"
  assumes reach: "brg_reachable E (run_proposal E) s"
    and vote: "(if fav then acknowledge_proposal E (run_proposal E) (Signed w) nonce src rid hash p s
       else reject_proposal E (run_proposal E) (Signed w) nonce src rid p s) = Inr s'"
    and b: "b = ballot_at s (src, nonce, p)" and b': "b' = ballot_at s' (src, nonce, p)"
    and small: "card (relayer_set s) < 2 ^ 32" "Suc (card (no b)) + unat (relayer_threshold s) < 2 ^ 32"
  shows "w \<in> relayer_set s \<and> outcome b = Initiated \<and> w \<notin> yes b \<union> no b \<and>
    b' = cast_vote (unat (relayer_threshold s)) (card (relayer_set s)) w fav b \<and>
    (\<forall>k. k \<noteq> (src, nonce, p) \<longrightarrow> ballot_at s' k = ballot_at s k) \<and>
    (if outcome b' = Approved
     then \<exists>s1 s2 :: ('b, 'c, hdl_call, 'z) handler_chain_scheme.
       run_proposal E p (bridge_account E) s1 = Inr s2 \<and> native s1 = native s \<and> Balances s1 = Balances s \<and>
       native s' = native s2 \<and> Balances s' = Balances s2
     else native s' = native s \<and> Balances s' = Balances s)"
proof -
  have inv: "bridge_inv E s" by (rule hdl.runner_reachable [OF reach])
  let ?s = "if fav then deposit_event (BridgeEv (ProposalVote src hash nonce)) s else s"
  have r: "w \<in> relayer_set s"
    and v: "rbind (commit_vote E w nonce src p fav ?s) (try_resolve_proposal E (run_proposal E) nonce src p) = Inr s'"
    using vote by (auto simp: acknowledge_proposal_def reject_proposal_def vote_for_def vote_against_def is_relayer_def
        relayer_set_def res_simps split: if_splits)
  have i: "bridge_inv E ?s" using inv bridge_inv_deposit [OF inv] by simp
  have same: "ballot_at ?s = ballot_at s" "relayer_threshold ?s = relayer_threshold s"
    "unat (RelayerCount ?s) = card (relayer_set s)" "Votes ?s = Votes s" "native ?s = native s" "Balances ?s = Balances s"
    using relayer_count_card [OF inv small(1)]
    by (simp_all add: ballot_at_def fun_eq_iff relayer_threshold_def deposit_event_def)
  obtain x s1 where x: "outcome b = Initiated" "w \<notin> yes b \<union> no b"
    "ballot_of x = cast_vote (unat (relayer_threshold s)) (card (relayer_set s)) w fav b"
    "Votes s1 = (Votes s)((src, nonce, p) \<mapsto> x)" "native s1 = native s" "Balances s1 = Balances s"
    "pv_status x = Approved \<Longrightarrow> \<exists>s2. run_proposal E p (bridge_account E) s1 = Inr s2 \<and>
       s' = deposit_event (BridgeEv (ProposalSucceeded src nonce)) s2"
    "pv_status x \<noteq> Approved \<Longrightarrow> s' = s1"
    using vote_elim [OF i v, unfolded same, folded b] small(2) by blast
  have votes: "Votes s' = Votes s1" using x(7,8) hdl.run_frame brgD(5) by (cases "pv_status x = Approved") fastforce+
  then have bx: "b' = ballot_of x" by (simp add: b' ballot_at_def x(4))
  then have out: "outcome b' = pv_status x" by (simp add: ballot_of_def)
  have others: "ballot_at s' k = ballot_at s k" if "k \<noteq> (src, nonce, p)" for k
    using that by (simp add: ballot_at_def votes x(4))
  have "if outcome b' = Approved
     then \<exists>s1 s2 :: ('b, 'c, hdl_call, 'z) handler_chain_scheme.
       run_proposal E p (bridge_account E) s1 = Inr s2 \<and> native s1 = native s \<and> Balances s1 = Balances s \<and>
       native s' = native s2 \<and> Balances s' = Balances s2
     else native s' = native s \<and> Balances s' = Balances s"
  proof (cases "pv_status x = Approved")
    case True
    then obtain s2 where "run_proposal E p (bridge_account E) s1 = Inr s2"
      "s' = deposit_event (BridgeEv (ProposalSucceeded src nonce)) s2" using x(7) by blast
    with True x(5,6) show ?thesis by (auto simp: out deposit_event_def)
  next
    case False
    with x(5,6,8) show ?thesis by (simp add: out)
  qed
  with r x(1-3) bx others show ?thesis by auto
qed

theorem proposal_vote_refines_witness:
  "brg_reachable hdl_env (run_proposal hdl_env) b2 \<and>
   acknowledge_proposal hdl_env (run_proposal hdl_env) (Signed (rel 2)) 0 1 tao_rid (replicate 32 0) pay_alice b2 = Inr b3 \<and>
   ballot_at b3 (1, 0, pay_alice) = cast_vote 2 3 (rel 2) True (ballot_at b2 (1, 0, pay_alice)) \<and>
   outcome (ballot_at b3 (1, 0, pay_alice)) = Approved \<and> sb_free (native b3) alice = 1310"
proof -
  have r: "relayer_set b2 = {rel 1, rel 2, rel 3}" by (auto simp: relayer_set_def b2_def b1_def)
  have t: "relayer_threshold b2 = 2" by (simp add: relayer_threshold_def b2_def b1_def)
  have b: "ballot_at b2 (1, 0, pay_alice) = \<lparr>yes = {rel 1}, no = {}, outcome = Initiated\<rparr>"
    by (simp add: ballot_at_def b2_def ballot_of_def one_vote_def)
  have "ballot_at b3 (1, 0, pay_alice) = cast_vote 2 3 (rel 2) True (ballot_at b2 (1, 0, pay_alice))"
    using proposal_vote_refines [OF b_reachable(2), of True "rel 2" 0 1 tao_rid "replicate 32 0" pay_alice b3 _ _,
        OF _ refl refl] b3_run by (simp add: r t b numeral_3_eq_3)
  moreover have "outcome (cast_vote 2 3 (rel 2) True (ballot_at b2 (1, 0, pay_alice))) = Approved"
    by (simp add: cast_vote_def decide_def b)
  moreover have "sb_free (native b3) alice = 1310" by (simp add: b3_def sb_put_def sb_free_def sb_reserved_def)
  ultimately show ?thesis using b_reachable(2) b3_run by simp
qed

text \<open>
  The tally is sound and complete. With every vote cast by a member of the relayer set, a
  proposal is approved exactly when the supporters reach the threshold; it is rejected only when
  the relayers that have not voted against it could not reach the threshold any more; and once all
  relayers have voted, a reachable threshold leaves no proposal undecided.\<close>
theorem tally_sound_complete:
  assumes "ballot_inv v" "set (votes_for v) \<union> set (votes_against v) \<subseteq> R" "finite R" "card R + unat t < 2 ^ 32"
    and st: "try_to_complete t (of_nat (card R)) v = (st, v')"
  shows "(st = Approved \<longleftrightarrow> unat t \<le> card (set (votes_for v))) \<and>
    (st = Rejected \<longrightarrow> (\<forall>Y. Y \<subseteq> R - set (votes_against v) \<longrightarrow> card Y < unat t)) \<and>
    (set (votes_for v) \<union> set (votes_against v) = R \<and> unat t \<le> card R \<longrightarrow> st \<noteq> Initiated)"
proof -
  let ?Y = "set (votes_for v)" and ?N = "set (votes_against v)"
  have d: "distinct (votes_for v)" "distinct (votes_against v)" "?Y \<inter> ?N = {}"
    using assms(1) by (auto simp: ballot_inv_def)
  have N: "card ?N \<le> card R" using assms(2,3) by (meson card_mono le_sup_iff)
  have n: "unat (of_nat (card R) :: u32) = card R"
    using assms(4) by (simp add: unsigned_of_nat take_bit_nat_eq_self)
  have st': "st = decide (unat t) (card R) ?Y ?N"
    using try_to_complete_decide [of v t "of_nat (card R)"] d N assms(4) st n by (simp add: distinct_card)
  have "card Y < unat t" if "st = Rejected" "Y \<subseteq> R - ?N" for Y
  proof -
    have "card Y \<le> card (R - ?N)" using that(2) assms(3) by (intro card_mono) auto
    also have "\<dots> = card R - card ?N" using assms(2) by (intro card_Diff_subset) auto
    finally show ?thesis using that(1) N by (auto simp: st' decide_def split: if_splits)
  qed
  moreover have "st \<noteq> Initiated" if "?Y \<union> ?N = R" "unat t \<le> card R"
    using that card_Un_disjoint [OF _ _ d(3)] by (auto simp: st' decide_def)
  ultimately show ?thesis by (auto simp: st' decide_def)
qed

theorem tally_sound_complete_witness:
  "fst (try_to_complete 2 3 (one_vote\<lparr>votes_against := [rel 2, rel 3]\<rparr>)) = Rejected \<and>
   card ({rel 1, rel 2, rel 3} - {rel 2, rel 3}) < 2"
proof -
  let ?v = "one_vote\<lparr>votes_against := [rel 2, rel 3]\<rparr>"
  have st: "try_to_complete 2 (of_nat (card {rel 1, rel 2, rel 3})) ?v = (Rejected, ?v\<lparr>pv_status := Rejected\<rparr>)"
    by (simp add: try_to_complete_def one_vote_def)
  have "ballot_inv ?v" by (simp add: ballot_inv_def one_vote_def)
  from tally_sound_complete [OF this _ _ _ st]
  have "card ({rel 1, rel 2, rel 3} - {rel 2, rel 3}) < unat (2 :: u32)" by (simp add: one_vote_def)
  with st show ?thesis by simp
qed

text \<open>
  C35: The deposits towards one chain carry the nonces 1, 2, 3 and so on, in the order of their
  events, and the stored nonce of the chain is that of the last one; up to the width of the nonce,
  no two deposits share one.\<close>
theorem deposit_nonces_consecutive:
  assumes "brg_reachable E (run_proposal E) s" "length (deposit_nonces c (events s)) < 2 ^ 64"
  shows "distinct (deposit_nonces c (events s)) \<and>
    (\<forall>i < length (deposit_nonces c (events s)). unat (deposit_nonces c (events s) ! i) = Suc i) \<and>
    (deposit_nonces c (events s) \<noteq> [] \<longrightarrow> ChainNonces s c = Some (last (deposit_nonces c (events s))))"
proof -
  from hdl.runner_reachable [OF assms(1)] obtain k where k: "deposit_nonces c (events s) = nonce_log k"
    and n: "case ChainNonces s c of None \<Rightarrow> k = 0 | Some n \<Rightarrow> n = of_nat k" unfolding bridge_inv_def by blast
  have len: "length (nonce_log k) = k" by (simp add: nonce_log_def del: upt_Suc)
  then have bnd: "k < 2 ^ 64" using assms(2) k by simp
  have nth: "unat (nonce_log k ! i) = Suc i" if "i < k" for i
    using that bnd by (simp add: nonce_log_def unsigned_of_nat take_bit_nat_eq_self del: upt_Suc of_nat_Suc)
  have "distinct (nonce_log k)" unfolding distinct_conv_nth len by (metis nth nat.inject)
  moreover have "ChainNonces s c = Some (last (nonce_log k))" if "nonce_log k \<noteq> []"
    using that n len by (cases k) (auto simp: nonce_log_def split: option.splits)
  ultimately show ?thesis using nth by (simp add: k len)
qed

theorem deposit_nonces_consecutive_witness:
  "\<exists>s :: sample_bridge. brg_reachable hdl_env (run_proposal hdl_env) s \<and> deposit_nonces 1 (events s) = [1] \<and>
     ChainNonces s 1 = Some (last (deposit_nonces 1 (events s)))"
proof -
  obtain s where s: "transfer_generic 1 tao_rid [] b1 = Inr s" "deposit_nonces 1 (events s) = [1]"
    by (simp add: transfer_generic_def chain_whitelisted_def bump_nonce_def b1_def b_defs deposit_event_def
        deposit_nonces_def)
  have "brg_step hdl_env (run_proposal hdl_env) b1 s" by (rule bstep_generic [OF s(1)])
  then have r: "brg_reachable hdl_env (run_proposal hdl_env) s"
    using b_reachable(1) unfolding brg_reachable_def by (meson rtranclp.rtrancl_into_rtrancl)
  from deposit_nonces_consecutive [OF r, of 1] r s(2) show ?thesis by (intro exI [of _ s]) simp
qed

end
