(* ===== verification/Fuso_Handler_Props.thy ===== *)
theory Fuso_Handler_Props
  imports Fuso_Bridge_Props Fuso_Token_Laws
begin

text \<open>
  Properties of the bridge handler: the fee is the exact quotient, locking and burning debit the
  sender and announce what arrives elsewhere, a deposit arrives whatever becomes of its
  authorisation, and a malformed resource identifier panics.
\<close>

section \<open>Transfers of either kind of token\<close>

lemma transfer_token_moves:
  assumes "balances_spec E" "transfer_token E a t v b s = Inr s'" "a \<noteq> b"
  shows "unat (free_balance E s t a) = unat (free_balance E s' t a) + unat v"
    and "unat (free_balance E s' t b) = unat (free_balance E s t b) + unat v"
    and "u \<noteq> t \<or> c \<noteq> a \<and> c \<noteq> b \<Longrightarrow> free_balance E s' u c = free_balance E s u c"
proof -
  have "unat (free_balance E s t a) = unat (free_balance E s' t a) + unat v \<and>
    unat (free_balance E s' t b) = unat (free_balance E s t b) + unat v \<and>
    (u \<noteq> t \<or> c \<noteq> a \<and> c \<noteq> b \<longrightarrow> free_balance E s' u c = free_balance E s u c)"
  proof (cases "t = native_token_id E")
    case True
    show ?thesis
    proof (cases "v = 0")
      case True
      with assms(2) show ?thesis by (simp add: transfer_token_def)
    next
      case False
      with True assms(2) obtain n where n: "bal_transfer E a b v (native s) = Inr n" "s' = s\<lparr>native := n\<rparr>"
        by (auto simp: transfer_token_def res_simps)
      note balances_transferD [OF assms(1) n(1)]
      with True assms(3) show ?thesis by (auto simp: free_balance_def n(2) get_token_balance_def)
    qed
  next
    case False
    have "native s' = native s"
      using assms(2) False by (auto simp: transfer_token_def res_simps Let_def store_account_def deposit_event_def split: if_splits)
    then show ?thesis using transfer_token_other [OF assms(2) False assms(3)] transfer_token_frame [OF assms(2), of "(u, c)"] False
      by (auto simp: free_balance_def)
  qed
  then show "unat (free_balance E s t a) = unat (free_balance E s' t a) + unat v"
    "unat (free_balance E s' t b) = unat (free_balance E s t b) + unat v"
    "u \<noteq> t \<or> c \<noteq> a \<and> c \<noteq> b \<Longrightarrow> free_balance E s' u c = free_balance E s u c" by blast+
qed

lemma transfer_fungible_elim:
  assumes "transfer_fungible dest rid rcpt v s = Inr s'"
  obtains n where "ChainNonces s dest = Some n" "ChainNonces s' = (ChainNonces s)(dest \<mapsto> n + 1)"
    "events s' = events s @ [BridgeEv (FungibleTransfer dest (n + 1) rid v rcpt)]"
    "native s' = native s" "Balances s' = Balances s" "Tokens s' = Tokens s"
  using assms
  by (auto simp: transfer_fungible_def chain_whitelisted_def bump_nonce_def deposit_event_def res_simps Let_def)

section \<open>The bridging fee\<close>

lemma bridging_fee_nat:
  assumes "arith_spec E" "bridging_fee s \<le> DefaultBridgingFee"
  shows "unat (calculate_bridging_fee E s t) =
    (if get_price E s t = 0 then 0 else unat (bridging_fee s) * 10 ^ 18 div unat (get_price E s t))"
proof (cases "get_price E s t = 0")
  case False
  have "unat (bridging_fee s) \<le> 2 * 10 ^ 18"
    using assms(2) by (simp add: word_le_nat_alt DefaultBridgingFee_def QUINTILL_def)
  then have "unat (bridging_fee s) * 10 ^ 18 div unat (get_price E s t) \<le> 2 * 10 ^ 36"
    by (intro order.trans [OF div_le_dividend]) simp
  also have "\<dots> < (2::nat) ^ 128" by simp
  finally show ?thesis using quint_quotient [OF assms(1) False, of "bridging_fee s"] False
    by (simp add: calculate_bridging_fee_def Let_def unsigned_of_nat take_bit_nat_eq_self)
qed (simp add: calculate_bridging_fee_def)

lemma bridging_fee_small:
  assumes "arith_spec E" "bridging_fee s \<le> DefaultBridgingFee"
  shows "unat (calculate_bridging_fee E s t) \<le> 2 * 10 ^ 36"
proof -
  have "unat (bridging_fee s) \<le> 2 * 10 ^ 18"
    using assms(2) by (simp add: word_le_nat_alt DefaultBridgingFee_def QUINTILL_def)
  then show ?thesis
    unfolding bridging_fee_nat [OF assms] by (auto intro: order.trans [OF div_le_dividend])
qed

lemma fee_guard:
  assumes "arith_spec E" "bridging_fee s \<le> DefaultBridgingFee" "fee = calculate_bridging_fee E s t" "fee + fee < amount"
  shows "2 * unat fee < unat amount" "unat (amount - fee) + unat fee = unat amount"
proof -
  have "unat fee + unat fee < 2 ^ LENGTH(128)" using bridging_fee_small [OF assms(1,2), of t] assms(3) by simp
  from unat_add_no_wrap [OF this] assms(4) show *: "2 * unat fee < unat amount"
    unfolding word_less_nat_alt by linarith
  then have "fee \<le> amount" by (simp add: word_le_nat_alt)
  with * show "unat (amount - fee) + unat fee = unat amount" by (simp add: unat_sub_no_wrap)
qed

text \<open>
  The bridging fee of a token is the configured fee in dollars divided by the price of the token,
  in units of \<open>10 ^ 18\<close> and rounded down, and it is zero while the token has no price. For a
  configured fee up to the default of two dollars no intermediate value wraps around.\<close>
theorem bridging_fee_exact:
  assumes "arith_spec E" "bridging_fee s \<le> DefaultBridgingFee"
  shows "unat (calculate_bridging_fee E s t) =
    (if get_price E s t = 0 then 0 else unat (bridging_fee s) * 10 ^ 18 div unat (get_price E s t))"
  by (rule bridging_fee_nat [OF assms])

definition priced :: "u128 \<Rightarrow> sample_bridge" where
  "priced p = b1\<lparr>OnChainPrices := (\<lambda>_. \<lparr>price = p, recent_matched_amount = 0, recent_matched_vol = 0, updated_at = 0\<rparr>)\<rparr>"

lemma priced_simps [simp]: "get_price hdl_env (priced p) t = p" "bridging_fee (priced p) = DefaultBridgingFee"
  by (simp_all add: priced_def get_price_def is_stable_def b1_def b_defs bridging_fee_def)

theorem bridging_fee_exact_witness:
  "unat (calculate_bridging_fee hdl_env (priced (3 * 10 ^ 17)) 0) = 6666666666666666666"
  using bridging_fee_exact [OF spec_hdl_env(2), of "priced (3 * 10 ^ 17)" 0]
  by (simp add: DefaultBridgingFee_def QUINTILL_def)

section \<open>Out of the chain\<close>

lemma get_balance_tokens [simp]: "get_token_balance (s\<lparr>Tokens := m\<rparr>) k = get_token_balance s k"
  by (simp add: get_token_balance_def)

lemma free_balance_same:
  "native s' = native s \<Longrightarrow> Balances s' = Balances s \<Longrightarrow> free_balance E s' t w = free_balance E s t w"
  by (simp add: free_balance_def get_token_balance_def)

text \<open>
  C19: A transfer of the native coin out of the chain that succeeds costs the sender exactly the
  amount: the fee goes to the treasury, less than half of the amount, and the rest is locked on the
  account of the bridge; no other account changes. The deposit nonce of the destination goes up by
  one and the last event announces exactly what has been locked.\<close>
theorem native_lock_effect:
  assumes "balances_spec E" "arith_spec E" "bridging_fee s \<le> DefaultBridgingFee"
    and "is_native_resource E rid = Inr True" "distinct [w, TreasuryAccount E, bridge_account E]"
    and "t = native_token_id E" "fee = calculate_bridging_fee E s t"
    and out: "transfer_out E (Signed w) amount rid rcpt dest s = Inr s'"
  shows "2 * unat fee < unat amount \<and>
    unat (free_balance E s' t w) + unat amount = unat (free_balance E s t w) \<and>
    unat (free_balance E s' t (TreasuryAccount E)) = unat (free_balance E s t (TreasuryAccount E)) + unat fee \<and>
    unat (free_balance E s' t (bridge_account E)) + unat fee = unat (free_balance E s t (bridge_account E)) + unat amount \<and>
    (\<forall>u c. u \<noteq> t \<or> c \<notin> {w, TreasuryAccount E, bridge_account E} \<longrightarrow> free_balance E s' u c = free_balance E s u c) \<and>
    (\<exists>n. ChainNonces s dest = Some n \<and> ChainNonces s' dest = Some (n + 1) \<and>
       last (events s') = BridgeEv (FungibleTransfer dest (n + 1) rid (ucast (amount - fee)) rcpt))"
proof -
  from out assms(4) obtain s1 s2 where g: "fee + fee < amount"
    and s1: "transfer_token E w t fee (TreasuryAccount E) s = Inr s1"
    and s2: "transfer_token E w t (amount - fee) (bridge_account E) s1 = Inr s2"
    and s': "transfer_fungible dest rid rcpt (ucast (amount - fee)) s2 = Inr s'"
    by (auto simp: transfer_out_def do_lock_def Let_def res_simps assms(6,7))
  note fee = fee_guard [OF assms(2,3,7) g]
  have d: "w \<noteq> TreasuryAccount E" "w \<noteq> bridge_account E" "TreasuryAccount E \<noteq> bridge_account E" using assms(5) by auto
  note m1 = transfer_token_moves [OF assms(1) s1 d(1)] and m2 = transfer_token_moves [OF assms(1) s2 d(2)]
  obtain n where n: "ChainNonces s2 dest = Some n" "ChainNonces s' = (ChainNonces s2)(dest \<mapsto> n + 1)"
    "events s' = events s2 @ [BridgeEv (FungibleTransfer dest (n + 1) rid (ucast (amount - fee)) rcpt)]"
    "native s' = native s2" "Balances s' = Balances s2" by (rule transfer_fungible_elim [OF s'])
  have fr: "free_balance E s' u c = free_balance E s2 u c" for u c by (rule free_balance_same [OF n(4,5)])
  have "ChainNonces s2 = ChainNonces s" using brgD(1) [OF brg_transfer_token [OF s1]] brgD(1) [OF brg_transfer_token [OF s2]] by simp
  then have nonce: "\<exists>n. ChainNonces s dest = Some n \<and> ChainNonces s' dest = Some (n + 1) \<and>
       last (events s') = BridgeEv (FungibleTransfer dest (n + 1) rid (ucast (amount - fee)) rcpt)"
    using n(1-3) by simp
  have frame: "free_balance E s' u c = free_balance E s u c" if "u \<noteq> t \<or> c \<notin> {w, TreasuryAccount E, bridge_account E}" for u c
    using that m1(3) [of u c] m2(3) [of u c] by (auto simp: fr)
  have "unat (free_balance E s' t w) + unat amount = unat (free_balance E s t w)"
    using m1(1) m2(1) fee(2) by (simp add: fr)
  moreover have "unat (free_balance E s' t (TreasuryAccount E)) = unat (free_balance E s t (TreasuryAccount E)) + unat fee"
    using m1(2) m2(3) [of t "TreasuryAccount E"] d by (simp add: fr)
  moreover have "unat (free_balance E s' t (bridge_account E)) + unat fee = unat (free_balance E s t (bridge_account E)) + unat amount"
    using m2(2) m1(3) [of t "bridge_account E"] d fee(2) by (simp add: fr)
  ultimately show ?thesis using fee(1) nonce frame by blast
qed

text \<open>The price is one tenth of a dollar in units of \<open>10 ^ 36\<close>, so that the fee is twenty units.\<close>

definition lock_chain :: sample_bridge where "lock_chain = priced (10 ^ 35)"

lemma lock_fee: "calculate_bridging_fee hdl_env lock_chain 0 = 20"
proof -
  have "unat (calculate_bridging_fee hdl_env lock_chain 0) = 20"
    using bridging_fee_nat [OF spec_hdl_env(2), of "priced (10 ^ 35)" 0]
    by (simp add: lock_chain_def DefaultBridgingFee_def QUINTILL_def)
  then show ?thesis by (simp add: word_unat_eq_iff)
qed

lemma tao_rid_decodes: "decode_resource_id tao_rid = Inr (42, 0, [84, 65, 79])"
  by code_simp

lemma tao_native: "is_native_resource hdl_env tao_rid = Inr True"
  by (simp add: is_native_resource_def tao_rid_decodes)

lemma lock_free: "free_balance hdl_env lock_chain 0 w = 1000"
  by (simp add: lock_chain_def priced_def b1_def b_defs free_balance_def sb_free_def sb_reserved_def)

theorem native_lock_effect_witness:
  "\<exists>s' :: sample_bridge. transfer_out hdl_env (Signed alice) 100 tao_rid [1, 2] 1 lock_chain = Inr s' \<and>
     unat (free_balance hdl_env s' 0 alice) = 900 \<and> unat (free_balance hdl_env s' 0 treasury) = 1020 \<and>
     unat (free_balance hdl_env s' 0 bridge_acc) = 1080"
proof -
  have "\<exists>s' :: sample_bridge. transfer_out hdl_env (Signed alice) 100 tao_rid [1, 2] 1 lock_chain = Inr s'"
    by (simp add: transfer_out_def tao_native do_lock_def Let_def lock_fee)
      (simp add: over_native_limit_def transfer_token_def sb_transfer_def transfer_fungible_def bump_nonce_def chain_whitelisted_def lock_chain_def priced_def b1_def b_defs
        sb_free_def sb_reserved_def sb_put_def checked_add_def)
  then obtain s' :: sample_bridge where s': "transfer_out hdl_env (Signed alice) 100 tao_rid [1, 2] 1 lock_chain = Inr s'" ..
  have "2 * unat (20 :: u128) < unat (100 :: u128) \<and>
    unat (free_balance hdl_env s' 0 alice) + unat (100 :: u128) = unat (free_balance hdl_env lock_chain 0 alice) \<and>
    unat (free_balance hdl_env s' 0 treasury) = unat (free_balance hdl_env lock_chain 0 treasury) + unat (20 :: u128) \<and>
    unat (free_balance hdl_env s' 0 bridge_acc) + unat (20 :: u128)
      = unat (free_balance hdl_env lock_chain 0 bridge_acc) + unat (100 :: u128)"
    using native_lock_effect [OF spec_hdl_env, of lock_chain tao_rid alice 0 20 100 "[1, 2]" 1 s'] s'
    by (simp add: tao_native lock_fee, simp add: lock_chain_def)
  with s' show ?thesis by (intro exI [of _ s']) (simp add: lock_free)
qed

text \<open>What is burnt is the amount after the fee, in the unified decimals of the token.\<close>

lemma burn_unifies:
  assumes "adjust_total f v info = Inr (u, info')" "\<And>n k. info \<noteq> FND10 n k"
  shows "u = unify_for v info"
  using assms by (cases info) (auto simp: Let_def res_simps)

text \<open>
  C36: A transfer of an issued token out of the chain that succeeds moves the fee to the treasury and
  burns the rest of the amount in the unified decimals of the token: the supply of the token shrinks
  by exactly that. The fee is not unified: for a token of other than eighteen decimals the sender
  does not pay the unified amount, and the amount, which counts in the decimals of the foreign
  token, must exceed twice a fee that counts in units of \<open>10 ^ 18\<close>.\<close>
theorem burn_out_effect:
  assumes "balances_spec E" "arith_spec E" "bridging_fee s \<le> DefaultBridgingFee" "fin_balances s"
    and "is_native_resource E rid = Inr False" "decode_resource_id rid = Inr (ch, dex, contr)"
    and "TokenByContract s (ch, contr) = Some t" "t \<noteq> native_token_id E" "w \<noteq> TreasuryAccount E"
    and "Tokens s t = Some info" "\<forall>n k. info \<noteq> FND10 n k" "fee = calculate_bridging_fee E s t"
    and out: "transfer_out E (Signed w) amount rid rcpt dest s = Inr s'"
  shows "2 * unat fee < unat amount \<and>
    unat (free_balance E s' t w) + unat fee + unat (unify_for (amount - fee) info) = unat (free_balance E s t w) \<and>
    unat (free_balance E s' t (TreasuryAccount E)) = unat (free_balance E s t (TreasuryAccount E)) + unat fee \<and>
    tok_supply s' t + unat (unify_for (amount - fee) info) = tok_supply s t"
proof -
  from out assms(5-7) obtain s1 s2 v where g: "fee + fee < amount"
    and s1: "transfer_token E w t fee (TreasuryAccount E) s = Inr s1"
    and s2: "do_burn t w (amount - fee) s1 = Inr (v, s2)"
    and s': "transfer_fungible dest rid rcpt (ucast (amount - fee)) s2 = Inr s'"
    by (auto simp: transfer_out_def do_burn_assets_def burn_from_def try_get_asset_id_def Let_def res_simps assms(12))
  note m1 = transfer_token_moves [OF assms(1) s1 assms(9)]
  obtain info' u info2 acc f where i: "Tokens s1 t = Some info'" "adjust_total checked_sub (amount - fee) info' = Inr (u, info2)"
    and acc: "Balances s1 (t, w) = Some acc" "unat (free acc) = unat u + unat f"
    and b: "s2 = deposit_event (TokenEv (TokenBurned t w u))
      ((store_account (t, w) (alive (acc\<lparr>free := f\<rparr>)) s1)\<lparr>Tokens := (Tokens s1)(t := Some info2)\<rparr>)"
    by (rule do_burn_elim [OF s2])
  have "info' = info" using i(1) assms(10) transfer_token_storage(1) [OF s1] by simp
  then have u: "u = unify_for (amount - fee) info" using burn_unifies [OF i(2)] assms(11) by simp
  have fin1: "fin_balances s1" and sup1: "tok_supply s1 t = tok_supply s t"
    using fin_transfer [OF s1 assms(4)] supply_transfer [OF s1 assms(4,9)] by simp_all
  have sup2: "tok_supply s2 t + unat u = tok_supply s1 t" using supply_burn [OF b acc fin1, of t] by simp
  obtain n where "native s' = native s2" and bal: "Balances s' = Balances s2" by (rule transfer_fungible_elim [OF s'])
  then have fr: "free_balance E s' t c = free_balance E s2 t c" for c by (rule free_balance_same)
  have w2: "unat (free_balance E s2 t w) + unat u = unat (free_balance E s1 t w)"
    using acc assms(8) by (simp add: b free_balance_def)
  have t2: "free_balance E s2 t (TreasuryAccount E) = free_balance E s1 t (TreasuryAccount E)"
    using assms(8,9) by (simp add: b free_balance_def)
  show ?thesis
    using fee_guard(1) [OF assms(2,3,12) g] m1(1,2) w2 t2 sup1 sup2 supply_same [OF bal, of t] by (simp add: fr u)
qed

text \<open>A token of six decimals on chain 1 at the same price; Alice holds \<open>10 ^ 14\<close> unified units.\<close>

definition usd_contract :: bytes where "usd_contract = replicate 20 6"
definition usd_rid :: resource_id where "usd_rid = 20 # replicate 8 0 @ usd_contract @ [0, 1, 0]"
definition usd_info :: xtoken where "usd_info = ERC20 [85] usd_contract (10 ^ 14) False 6"

definition burn_chain :: sample_bridge where
  "burn_chain = lock_chain\<lparr>Tokens := [1 \<mapsto> usd_info], TokenByContract := [(1, usd_contract) \<mapsto> 1],
     Balances := [(1, alice) \<mapsto> \<lparr>free = 10 ^ 14, reserved = 0\<rparr>]\<rparr>"

lemma usd_rid_decodes: "decode_resource_id usd_rid = Inr (1, 0, usd_contract)"
  by code_simp

lemma usd_not_native: "is_native_resource hdl_env usd_rid = Inr False"
  by (simp add: is_native_resource_def usd_rid_decodes tao_rid_decodes)

lemma burn_fee: "calculate_bridging_fee hdl_env burn_chain 1 = 20"
proof -
  have "get_price hdl_env burn_chain 1 = 10 ^ 35" "bridging_fee burn_chain = DefaultBridgingFee"
    by (simp_all add: burn_chain_def lock_chain_def priced_def get_price_def is_stable_def usd_info_def bridging_fee_def
        b1_def b_defs)
  then have "unat (calculate_bridging_fee hdl_env burn_chain 1) = 20"
    using bridging_fee_nat [OF spec_hdl_env(2), of burn_chain 1]
    by (simp add: DefaultBridgingFee_def QUINTILL_def)
  then show ?thesis by (simp add: word_unat_eq_iff)
qed

lemma usd_unify: "unify_decimals 80 6 = 80000000000000" "unify_for 80 usd_info = 80000000000000"
  by (code_simp, code_simp)

lemma burn_free: "free_balance hdl_env burn_chain 1 alice = 10 ^ 14" "free_balance hdl_env burn_chain 1 treasury = 0"
  by (simp_all add: burn_chain_def free_balance_def get_token_balance_def default_account_def)

theorem burn_out_effect_witness:
  "\<exists>s' :: sample_bridge. transfer_out hdl_env (Signed alice) 100 usd_rid [1, 2] 1 burn_chain = Inr s' \<and>
     unat (free_balance hdl_env s' 1 alice) + 20 + 80 * 10 ^ 12 = 10 ^ 14 \<and>
     unat (free_balance hdl_env s' 1 treasury) = 20"
proof -
  have k: "TokenByContract burn_chain (1, usd_contract) = Some 1" "Tokens burn_chain 1 = Some usd_info"
    "bridging_fee burn_chain \<le> DefaultBridgingFee" "\<forall>n k. usd_info \<noteq> FND10 n k"
    by (simp_all add: burn_chain_def usd_info_def lock_chain_def priced_def b1_def b_defs bridging_fee_def)
  have "\<exists>s' :: sample_bridge. transfer_out hdl_env (Signed alice) 100 usd_rid [1, 2] 1 burn_chain = Inr s'"
    by (simp add: transfer_out_def usd_not_native do_burn_assets_def usd_rid_decodes try_get_asset_id_def Let_def k burn_fee)
      (simp add: transfer_token_def chain_whitelisted_def burn_chain_def lock_chain_def priced_def b1_def b_defs checked_add_def
        checked_sub_def get_token_balance_def default_account_def store_account_def alive_def deposit_event_def burn_from_def
        do_burn_def usd_info_def usd_unify(1) transfer_fungible_def bump_nonce_def)
  then obtain s' :: sample_bridge where s': "transfer_out hdl_env (Signed alice) 100 usd_rid [1, 2] 1 burn_chain = Inr s'" ..
  have "dom (slice burn_chain t) \<subseteq> {alice}" for t by (auto simp: burn_chain_def slice_def split: if_splits)
  then have fin: "fin_balances burn_chain" unfolding fin_balances_def by (meson finite.emptyI finite.insertI finite_subset)
  have "unat (free_balance hdl_env s' 1 alice) + unat (20 :: u128) + unat (unify_for (100 - 20) usd_info)
      = unat (free_balance hdl_env burn_chain 1 alice) \<and>
    unat (free_balance hdl_env s' 1 treasury) = unat (free_balance hdl_env burn_chain 1 treasury) + unat (20 :: u128)"
    using burn_out_effect [OF spec_hdl_env k(3) fin usd_not_native usd_rid_decodes k(1) _ _ k(2,4) _ s'] by (simp add: burn_fee)
  with s' show ?thesis by (intro exI [of _ s']) (simp add: burn_free usd_unify)
qed

section \<open>Into the chain\<close>

text \<open>The functions of the balances pallet report errors and do not panic.\<close>

definition calm :: "('b, 'x) env_scheme \<Rightarrow> bool" where
  "calm E \<longleftrightarrow> (\<forall>a b v n. bal_transfer E a b v n \<noteq> Inl Panicked) \<and> (\<forall>a v n. bal_reserve E a v n \<noteq> Inl Panicked)"

lemma calm_transfer: "calm E \<Longrightarrow> transfer_token E a t v b s \<noteq> Inl Panicked"
  by (auto simp: transfer_token_def calm_def rbind_eq_Inl ok_or_eq_Inl Let_def)

lemma calm_authorize: "calm E \<Longrightarrow> authorize_to E w d t v s \<noteq> Inl Panicked"
  by (auto simp: authorize_to_def reserve_def token_reserve_def calm_def rbind_eq_Inl ensure_eq_Inl ok_or_eq_Inl Let_def)

lemma caught_calm: "r \<noteq> Inl Panicked \<Longrightarrow> \<exists>s'. caught r s = Inr s' \<and> (s' = s \<or> r = Inr s')"
  by (cases r) (auto simp: caught_def split: error.splits)

definition owned :: "('b, 'x) token_env_scheme \<Rightarrow> ('b, 'z) token_chain_scheme \<Rightarrow> token_id \<Rightarrow> account \<Rightarrow> nat" where
  "owned E s t w = unat (free_balance E s t w) + unat (reserved_balance E s t w)"

lemma owned_same:
  "native s' = native s \<Longrightarrow> Balances s' = Balances s \<Longrightarrow> owned E s' t w = owned E s t w"
  by (simp add: owned_def free_balance_def reserved_balance_def get_token_balance_def)

lemma owned_authorize:
  assumes "balances_spec E" "authorize_to E w d t v s = Inr s'"
  shows "owned E s' t w = owned E s t w"
proof -
  from assms(2) obtain s1 r where s1: "reserve E RESERVE_FOR_AUTHORIZING_STASH w t v d s = Inr s1"
    and s': "s' = deposit_event (VerifierEv (TokenHosted w d t v)) (put_receipt (d, w) r s1)"
    by (auto simp: authorize_to_def res_simps)
  have "owned E s1 t w = owned E s t w"
  proof (cases "v = 0")
    case True
    with s1 show ?thesis by (simp add: reserve_def)
  next
    case False
    with s1 obtain s2 k x where s2: "token_reserve E t w v s = Inr s2" "s1 = put_reserve k x s2"
      by (auto simp: reserve_def res_simps Let_def)
    then have "owned E s1 t w = owned E s2 t w" by (intro owned_same) (simp_all add: put_reserve_def)
    also have "\<dots> = owned E s t w" using tok.reserve_total [OF assms(1) s2(1)] by (simp add: owned_def)
    finally show ?thesis .
  qed
  moreover have "owned E s' t w = owned E s1 t w"
    by (rule owned_same) (simp_all add: s' put_receipt_def deposit_event_def)
  ultimately show ?thesis by simp
qed

lemma donate_ok:
  assumes "calm E" "t \<noteq> native_token_id E"
  shows "\<exists>s'. donate E w s = Inr s' \<and> owned E s' t w = owned E s t w"
proof (cases "account_nonce s w = 0")
  case True
  let ?r = "transfer_token E (DonorAccount E) (native_token_id E) (DonationForAgent E) w s"
  obtain s' where s': "caught ?r s = Inr s'" "s' = s \<or> ?r = Inr s'" using caught_calm [OF calm_transfer [OF assms(1)]] by blast
  then have "Balances s' = Balances s" by (auto simp: transfer_token_def res_simps split: if_splits)
  then have "owned E s' t w = owned E s t w"
    using assms(2) by (simp add: owned_def free_balance_def reserved_balance_def get_token_balance_def)
  with s'(1) True show ?thesis by (simp add: donate_def)
qed (simp add: donate_def)

lemma authorize_asset_ok:
  assumes "calm E" "balances_spec E" "decode_resource_id rid = Inr (ch, dex, contr)"
    and "TokenByContract s (ch, contr) = Some t" "Tokens s t = Some info"
  shows "\<exists>s'. authorize_asset E w v rid s = Inr s' \<and> owned E s' t w = owned E s t w"
proof (cases "AssociatedDominator s dex")
  case None
  then show ?thesis by (simp add: authorize_asset_def assms(3))
next
  case (Some d)
  obtain b where b: "to_asset_balance E s v t = Inr b" by (cases "t = native_token_id E") (auto simp: to_asset_balance_def assms(5))
  let ?r = "authorize_to E w d t b s"
  obtain s' where "caught ?r s = Inr s'" "s' = s \<or> ?r = Inr s'" using caught_calm [OF calm_authorize [OF assms(1)]] by blast
  with Some b owned_authorize [OF assms(2)] show ?thesis
    by (auto simp: authorize_asset_def assms(3,4) try_get_asset_id_def)
qed

text \<open>
  C20: Only the account of the bridge brings tokens into the chain. When the token of the resource can
  be minted, the whole deposit succeeds and the receiver owns, free or reserved, exactly the unified
  amount more: neither the authorisation to an associated dominator nor the donation to a new account can
  undo it or take from it.\<close>
theorem deposit_arrives:
  assumes "calm E" "balances_spec E" "is_native_resource E rid = Inr False"
    and "decode_resource_id rid = Inr (ch, dex, contr)" "TokenByContract s (ch, contr) = Some t"
    and "t \<noteq> native_token_id E" "amount \<noteq> 0" "Tokens s t = Some info" "\<forall>n k. info \<noteq> FND10 n k"
    and mint: "do_mint_assets w amount rid s = Inr s1"
  shows "(\<exists>s'. transfer_in E (Signed (bridge_account E)) w amount rid s = Inr s' \<and>
      owned E s' t w = owned E s t w + unat (unify_for amount info)) \<and>
    (\<forall>orig. orig \<noteq> Signed (bridge_account E) \<longrightarrow> transfer_in E orig w amount rid s = Inl BadOrigin)"
proof -
  have m: "do_mint t w amount s = Inr s1"
    using mint by (simp add: do_mint_assets_def assms(4,5) try_get_asset_id_def mint_into_def)
  obtain info' u info2 f where i: "Tokens s t = Some info'" "adjust_total checked_add amount info' = Inr (u, info2)"
    and f: "unat f = unat (free (get_token_balance s (t, w))) + unat u"
    and s1: "s1 = deposit_event (TokenEv (TokenMinted t w u))
      ((store_account (t, w) (Some (get_token_balance s (t, w)\<lparr>free := f\<rparr>)) s)\<lparr>Tokens := (Tokens s)(t := Some info2)\<rparr>)"
    by (rule do_mint_elim [OF m assms(7)])
  have "info' = info" using i(1) assms(8) by simp
  then have u: "u = unify_for amount info" using burn_unifies [OF i(2)] assms(9) by simp
  have o1: "owned E s1 t w = owned E s t w + unat (unify_for amount info)"
    using f assms(6) by (simp add: owned_def s1 free_balance_def reserved_balance_def u)
  have k1: "TokenByContract s1 (ch, contr) = Some t" "Tokens s1 t = Some info2"
    using assms(5) by (simp_all add: s1 store_account_def)
  obtain s2 where s2: "authorize_asset E w amount rid s1 = Inr s2" "owned E s2 t w = owned E s1 t w"
    using authorize_asset_ok [OF assms(1,2,4) k1] by blast
  obtain s' where s': "donate E w s2 = Inr s'" "owned E s' t w = owned E s2 t w" using donate_ok [OF assms(1,6)] by blast
  have "transfer_in E (Signed (bridge_account E)) w amount rid s = Inr s'"
    using s'(1) by (simp add: transfer_in_def assms(3) mint s2(1))
  moreover have "transfer_in E orig w amount rid s = Inl BadOrigin" if "orig \<noteq> Signed (bridge_account E)" for orig
    using that by (cases "(E, orig)" rule: ensure_bridge.cases) (auto simp: transfer_in_def)
  ultimately show ?thesis using s'(2) s2(2) o1 by auto
qed

lemma calm_hdl: "calm hdl_env"
  by (auto simp: calm_def sb_transfer_def split: option.splits)
    (simp add: hdl_env_def vrf_env_def rwd_env_def tok_env_def bridge_env.defs handler_env.defs verifier_env.defs
      token_env.defs reward_env.defs env.defs sample_env_def sb_reserve_def split: if_splits)

theorem deposit_arrives_witness:
  "\<exists>s' :: sample_bridge. transfer_in hdl_env (Signed bridge_acc) bob 80 usd_rid burn_chain = Inr s' \<and>
     owned hdl_env s' 1 bob = 80 * 10 ^ 12"
proof -
  have k: "TokenByContract burn_chain (1, usd_contract) = Some 1" "Tokens burn_chain 1 = Some usd_info"
    "\<forall>n k. usd_info \<noteq> FND10 n k" "(1 :: token_id) \<noteq> native_token_id hdl_env" "(80 :: u128) \<noteq> 0"
    by (simp_all add: burn_chain_def usd_info_def)
  have "\<exists>s1. do_mint_assets bob 80 usd_rid burn_chain = Inr s1"
    by (simp add: do_mint_assets_def usd_rid_decodes try_get_asset_id_def k(1) mint_into_def do_mint_def k(2))
      (simp add: usd_info_def usd_unify(1) burn_chain_def checked_add_def get_token_balance_def default_account_def)
  then obtain s1 where s1: "do_mint_assets bob 80 usd_rid burn_chain = Inr s1" ..
  have "owned hdl_env burn_chain 1 bob = 0"
    by (simp add: owned_def burn_chain_def free_balance_def reserved_balance_def get_token_balance_def default_account_def)
  then show ?thesis
    using deposit_arrives [OF calm_hdl spec_hdl_env(1) usd_not_native usd_rid_decodes k(1,4,5,2,3) s1]
    by (simp add: usd_unify(2))
qed

section \<open>Resource identifiers\<close>

lemma decode_panics: "decode_resource_id rid = Inl Panicked \<longleftrightarrow> 29 < unat (rid ! 0)"
  by (simp add: decode_resource_id_def Let_def)

lemma calm_burn: "burn_from t w v s \<noteq> Inl Panicked"
proof -
  have "adjust_total g v i \<noteq> Inl Panicked" for g i by (cases i) (auto simp: rbind_eq_Inl ok_or_eq_Inl Let_def)
  then show ?thesis by (auto simp: burn_from_def do_burn_def rbind_eq_Inl ensure_eq_Inl ok_or_eq_Inl Let_def)
qed

lemma calm_fungible: "transfer_fungible c rid rcpt v s \<noteq> Inl Panicked"
  by (auto simp: transfer_fungible_def ensure_def Let_def split: prod.splits)

text \<open>
  C37: A transfer out of the chain panics exactly when the first byte of the resource identifier, which
  any signed account chooses freely, is larger than 29, on a whitelisted destination; every other failure
  is an error.\<close>
theorem transfer_out_panics_iff:
  assumes "calm E" "unat (NativeResourceId E ! 0) \<le> 29"
  shows "transfer_out E (Signed w) amount rid rcpt dest s = Inl Panicked \<longleftrightarrow>
    chain_whitelisted s dest \<and> 29 < unat (rid ! 0)"
proof -
  have nat_ok: "decode_resource_id (NativeResourceId E) \<noteq> Inl e" for e
    using assms(2) by (simp add: decode_resource_id_def Let_def)
  have dec: "decode_resource_id rid = Inl e \<longleftrightarrow> e = Panicked \<and> 29 < unat (rid ! 0)" for e
    by (auto simp: decode_resource_id_def Let_def)
  have nr: "is_native_resource E rid = Inl e \<longleftrightarrow> e = Panicked \<and> 29 < unat (rid ! 0)" for e
    using nat_ok dec by (auto simp: is_native_resource_def rbind_eq_Inl)
  have ok: "29 < unat (rid ! 0) \<Longrightarrow> is_native_resource E rid \<noteq> Inr b" for b
    using nr [of Panicked] by simp
  have lock: "do_lock E w amount rid rcpt dest s \<noteq> Inl Panicked"
    by (auto simp: do_lock_def rbind_eq_Inl ensure_eq_Inl Let_def calm_transfer [OF assms(1)] calm_fungible)
  have burn: "do_burn_assets E w amount rid rcpt dest s \<noteq> Inl Panicked" if "is_native_resource E rid = Inr b" for b
    using dec [of Panicked] ok that
    by (auto simp: do_burn_assets_def rbind_eq_Inl ensure_eq_Inl ok_or_eq_Inl Let_def calm_transfer [OF assms(1)]
        calm_fungible calm_burn)
  show ?thesis using nr [of Panicked] ok lock burn
    by (auto simp: transfer_out_def rbind_eq_Inl ensure_eq_Inl split: if_splits)
qed

theorem transfer_out_panics_iff_witness:
  "transfer_out hdl_env (Signed alice) 100 (replicate 32 255) [] 1 b1 = Inl Panicked"
  using transfer_out_panics_iff [OF calm_hdl, of alice 100 "replicate 32 255" "[]" 1 b1]
  by (simp add: tao_rid_def chain_whitelisted_def b1_def)

text \<open>
  C38: A resource identifier that is derived from a chain, an index and a name of at most 28 bytes has
  32 bytes and decodes to exactly these three; a longer name is refused. Hence no two different
  resources share an identifier.\<close>
theorem resource_id_roundtrip:
  shows "(length name \<le> 28 \<longrightarrow> (\<exists>rid. derive_resource_id c dex name = Inr rid \<and> length rid = 32 \<and>
      decode_resource_id rid = Inr (c, dex, name))) \<and>
    (28 < length name \<longrightarrow> derive_resource_id c dex name = Inl ''id is too long'')"
proof (intro conjI impI)
  assume len: "length name \<le> 28"
  define rid where "rid = of_nat (length name) # replicate (28 - length name) (0 :: u8) @ name @ dex # to_le_bytes 2 c"
  have r1: "copy_from_slice (replicate 32 0) 30 (to_le_bytes 2 c) = replicate 30 0 @ to_le_bytes 2 c"
    by (simp add: copy_from_slice_def)
  have r2: "(replicate 30 0 @ to_le_bytes 2 c)[29 := dex] = replicate 29 0 @ dex # to_le_bytes 2 c"
    by (simp add: list_update_append numeral_eq_Suc)
  have r3: "copy_from_slice (replicate 29 0 @ dex # to_le_bytes 2 c) (29 - length name) name
      = replicate (29 - length name) 0 @ name @ dex # to_le_bytes 2 c"
    using len by (simp add: copy_from_slice_def)
  have r4: "(replicate (29 - length name) 0 @ name @ dex # to_le_bytes 2 c)[0 := of_nat (length name)] = rid"
    using len by (simp add: rid_def Suc_diff_le numeral_eq_Suc)
  have d: "derive_resource_id c dex name = Inr rid"
    using len r4 by (simp add: derive_resource_id_def Let_def r1 r2 r3)
  have l: "length rid = 32" using len by (simp add: rid_def)
  have n: "unat (of_nat (length name) :: u8) = length name" using len by (simp add: unsigned_of_nat take_bit_nat_eq_self)
  have e: "29 - length name = Suc (28 - length name)" "\<not> 28 < 28 - length name" using len by simp_all
  have "drop 30 rid = to_le_bytes 2 c" "rid ! 29 = dex" "drop (29 - length name) (take 29 rid) = name" "rid ! 0 = of_nat (length name)"
    using len by (simp_all add: rid_def nth_append e)
  then have "decode_resource_id rid = Inr (c, dex, name)"
    using len n by (simp add: decode_resource_id_def from_to_le_bytes)
  with d l show "\<exists>rid. derive_resource_id c dex name = Inr rid \<and> length rid = 32 \<and>
      decode_resource_id rid = Inr (c, dex, name)" by blast
qed (simp add: derive_resource_id_def)

theorem resource_id_roundtrip_witness:
  "\<exists>rid. derive_resource_id 42 0 [84, 65, 79] = Inr rid \<and> length rid = 32 \<and>
     decode_resource_id rid = Inr (42, 0, [84, 65, 79])"
  using resource_id_roundtrip [of "[84, 65, 79]" 42 0] by simp

end
