(* ===== verification/Fuso_Foundation.thy ===== *)
theory Fuso_Foundation
  imports Fuso_Balances
begin

text \<open>
  The foundation pallet (\<^verbatim>\<open>pallet-fuso-foundation/src/lib.rs\<close>): funds that are reserved at genesis
  and unlocked in instalments by the block hook. The storage map is an association list in the order
  of its iteration; the weights that the hook reports are not modelled.
\<close>

section \<open>Storage and configuration\<close>

record foundation_data =
  delay_durations :: u32
  interval_durations :: u32
  times :: u32
  fund_amount :: u128
  first_amount :: u128

record 'b foundation_chain = "'b system" +
  Foundation :: "(account \<times> foundation_data) list"

text \<open>\<open>bal_deposit_creating\<close> is the function of \<^verbatim>\<open>pallet_balances\<close> of that name.\<close>

record 'b foundation_env = "'b env" +
  Duration :: u32
  bal_deposit_creating :: "account \<Rightarrow> u128 \<Rightarrow> 'b \<Rightarrow> 'b"

section \<open>Genesis\<close>

definition genesis_fund ::
  "('b, 'x) foundation_env_scheme \<Rightarrow> account \<times> foundation_data
    \<Rightarrow> ('b, 'z) foundation_chain_scheme \<Rightarrow> ('b, 'z) foundation_chain_scheme result" where
  "genesis_fund E data s =
     (let (who, fund) = data;
          locked = fund_amount fund * ucast (times fund) + first_amount fund;
          b1 = bal_deposit_creating E who locked (native s)
      in (case bal_reserve E who locked b1 of
            Inl _ \<Rightarrow> Inl Panicked
          | Inr b2 \<Rightarrow> Inr (s\<lparr>native := b2, Foundation := AList.update who fund (Foundation s)\<rparr>)))"

definition genesis_build ::
  "('b, 'x) foundation_env_scheme \<Rightarrow> (account \<times> foundation_data) list
    \<Rightarrow> ('b, 'z) foundation_chain_scheme \<Rightarrow> ('b, 'z) foundation_chain_scheme result" where
  "genesis_build E funds s = rfold (genesis_fund E) funds s"

section \<open>The block hook\<close>

text \<open>An instalment, and the first amount. The counter of instalments wraps around below zero.\<close>

definition unlock_instalment ::
  "('b, 'x) foundation_env_scheme \<Rightarrow> account \<Rightarrow> foundation_data
    \<Rightarrow> ('b, 'z) foundation_chain_scheme \<Rightarrow> ('b, 'z) foundation_chain_scheme" where
  "unlock_instalment E who fund s =
     (let s1 = deposit_event (FoundationEv (PreLockedFundUnlocked who (fund_amount fund)))
                 (s\<lparr>native := bal_unreserve E who (fund_amount fund) (native s)\<rparr>);
          left = times fund - 1
      in if left = 0 then s1\<lparr>Foundation := AList.delete who (Foundation s1)\<rparr>
         else s1\<lparr>Foundation := AList.update who (fund\<lparr>times := left\<rparr>) (Foundation s1)\<rparr>)"

definition unlock_first ::
  "('b, 'x) foundation_env_scheme \<Rightarrow> account \<Rightarrow> foundation_data
    \<Rightarrow> ('b, 'z) foundation_chain_scheme \<Rightarrow> ('b, 'z) foundation_chain_scheme" where
  "unlock_first E who fund s =
     deposit_event (FoundationEv (PreLockedFundUnlocked who (first_amount fund)))
       (s\<lparr>native := bal_unreserve E who (first_amount fund) (native s)\<rparr>)"

definition unlock_item ::
  "('b, 'x) foundation_env_scheme \<Rightarrow> u32 \<Rightarrow> account \<times> foundation_data
    \<Rightarrow> ('b, 'z) foundation_chain_scheme \<Rightarrow> ('b, 'z) foundation_chain_scheme result" where
  "unlock_item E now item s =
     (let (who, fund) = item
      in if delay_durations fund < now
         then rbind (rem_u32 (saturating_sub now (delay_durations fund)) (interval_durations fund)) (\<lambda>r.
                Inr (if r = 0 then unlock_instalment E who fund s else s))
         else if now = delay_durations fund
         then rbind (rem_u32 (saturating_sub now (delay_durations fund)) (interval_durations fund)) (\<lambda>r.
                Inr (if r = 0 then unlock_first E who fund s else s))
         else Inr s)"

definition unlock_fund ::
  "('b, 'x) foundation_env_scheme \<Rightarrow> u32
    \<Rightarrow> ('b, 'z) foundation_chain_scheme \<Rightarrow> ('b, 'z) foundation_chain_scheme result" where
  "unlock_fund E now s = rfold (unlock_item E now) (Foundation s) s"

definition initialize ::
  "('b, 'x) foundation_env_scheme \<Rightarrow> u32
    \<Rightarrow> ('b, 'z) foundation_chain_scheme \<Rightarrow> ('b, 'z) foundation_chain_scheme result" where
  "initialize E now s =
     rbind (rem_u32 now (Duration E)) (\<lambda>r.
       if r \<noteq> 0 then Inr s
       else rbind (div_u32 now (Duration E)) (\<lambda>n. unlock_fund E n s))"

end
