(* ===== verification/Fuso_Foundation_Props.thy ===== *)
theory Fuso_Foundation_Props
  imports Fuso_Foundation Fuso_Samples
begin

text \<open>
  The vesting schedule of the foundation pallet in closed form: what is unlocked after a number of
  durations, for every fund at once.
\<close>

section \<open>One duration\<close>

definition instalment :: "u32 \<Rightarrow> foundation_data \<Rightarrow> bool" where
  "instalment now b \<longleftrightarrow> delay_durations b < now \<and> (now - delay_durations b) mod interval_durations b = 0"

definition due :: "u32 \<Rightarrow> foundation_data \<Rightarrow> u128" where
  "due now b = (if instalment now b then fund_amount b else if now = delay_durations b then first_amount b else 0)"

definition next_entry :: "u32 \<Rightarrow> foundation_data \<Rightarrow> foundation_data option" where
  "next_entry now b =
     (if instalment now b then if times b = 1 then None else Some (b\<lparr>times := times b - 1\<rparr>) else Some b)"

definition fund_keys :: "('b, 'z) foundation_chain_scheme \<Rightarrow> bool" where
  "fund_keys s \<longleftrightarrow> distinct (map fst (Foundation s))"

definition fund_of :: "('b, 'z) foundation_chain_scheme \<Rightarrow> account \<Rightarrow> foundation_data option" where
  "fund_of s = map_of (Foundation s)"

definition pays :: "('b, 'x) env_scheme \<Rightarrow> 'b \<Rightarrow> 'b \<Rightarrow> account \<Rightarrow> nat \<Rightarrow> bool" where
  "pays E b b' a v \<longleftrightarrow> unat (bal_free E b' a) = unat (bal_free E b a) + v \<and>
     unat (bal_reserved E b a) = unat (bal_reserved E b' a) + v"

lemma pays_0 [simp]: "pays E b b a 0" by (simp add: pays_def)

lemma pays_same: "same_account E b b' a \<longleftrightarrow> pays E b b' a 0"
  by (auto simp: same_account_def pays_def word_unat_eq_iff)

lemma pays_trans: "pays E b b1 a v \<Longrightarrow> pays E b1 b2 a w \<Longrightarrow> pays E b b2 a (v + w)"
  by (simp add: pays_def)

lemma pays_unreserve:
  assumes "balances_spec E" "v \<le> bal_reserved E b a"
  shows "pays E b (bal_unreserve E a v b) c (if c = a then unat v else 0)"
  using balances_unreserveD [OF assms] by (auto simp: pays_def same_account_def)

lemma unlock_item_effect:
  assumes "balances_spec E" "interval_durations b \<noteq> 0" "due now b \<le> bal_reserved E (native s) a"
    and "fund_of s a = Some b" "fund_keys s"
  obtains s' where "unlock_item E now (a, b) s = Inr s'" "fund_of s' = (fund_of s)(a := next_entry now b)"
    "\<And>c. pays E (native s) (native s') c (if c = a then unat (due now b) else 0)" "fund_keys s'"
proof -
  have sat: "delay_durations b < now \<Longrightarrow> saturating_sub now (delay_durations b) = now - delay_durations b"
    by (simp add: saturating_sub_def order.strict_implies_order)
  consider "instalment now b" | "\<not> instalment now b" "now = delay_durations b" | "\<not> instalment now b" "now \<noteq> delay_durations b"
    by blast
  then show thesis
  proof cases
    case 1
    then have "unlock_item E now (a, b) s = Inr (unlock_instalment E a b s)"
      using assms(2) sat by (simp add: unlock_item_def instalment_def rem_u32_def)
    moreover have "fund_of (unlock_instalment E a b s) = (fund_of s)(a := next_entry now b)"
      using 1 by (simp add: unlock_instalment_def Let_def fund_of_def next_entry_def deposit_event_def
          AList.delete_conv' AList.update_conv')
    moreover have "native (unlock_instalment E a b s) = bal_unreserve E a (due now b) (native s)"
      using 1 by (simp add: unlock_instalment_def Let_def due_def deposit_event_def)
    moreover have "fund_keys (unlock_instalment E a b s)"
      using assms(5) by (simp add: unlock_instalment_def Let_def fund_keys_def deposit_event_def AList.distinct_delete AList.distinct_update)
    ultimately show thesis using that pays_unreserve [OF assms(1,3)] by metis
  next
    case 2
    then have "unlock_item E now (a, b) s = Inr (unlock_first E a b s)"
      using assms(2) by (simp add: unlock_item_def rem_u32_def saturating_sub_def)
    moreover have "fund_of (unlock_first E a b s) = (fund_of s)(a := next_entry now b)"
      using 2 assms(4) by (simp add: unlock_first_def fund_of_def next_entry_def deposit_event_def fun_upd_idem)
    moreover have "native (unlock_first E a b s) = bal_unreserve E a (due now b) (native s)"
      using 2 by (simp add: unlock_first_def due_def deposit_event_def)
    moreover have "fund_keys (unlock_first E a b s)"
      using assms(5) by (simp add: unlock_first_def fund_keys_def deposit_event_def)
    ultimately show thesis using that pays_unreserve [OF assms(1,3)] by metis
  next
    case 3
    then have "unlock_item E now (a, b) s = Inr s"
      using assms(2) sat by (auto simp: unlock_item_def instalment_def rem_u32_def)
    moreover have "fund_of s = (fund_of s)(a := next_entry now b)" "due now b = 0"
      using 3 assms(4) by (simp_all add: next_entry_def fun_upd_idem due_def)
    ultimately show thesis using that [of s] assms(5) by simp
  qed
qed

lemma unlock_items_effect:
  assumes "balances_spec E" "distinct (map fst es)" "fund_keys s"
    and "\<And>a b. (a, b) \<in> set es \<Longrightarrow> fund_of s a = Some b \<and> interval_durations b \<noteq> 0 \<and> due now b \<le> bal_reserved E (native s) a"
  shows "\<exists>s'. rfold (unlock_item E now) es s = Inr s' \<and> fund_keys s' \<and>
    (\<forall>c. (case map_of es c of None \<Rightarrow> fund_of s' c = fund_of s c \<and> pays E (native s) (native s') c 0
       | Some b \<Rightarrow> fund_of s' c = next_entry now b \<and> pays E (native s) (native s') c (unat (due now b))))"
  using assms(2-4)
proof (induction es arbitrary: s)
  case Nil
  then show ?case by simp
next
  case (Cons x es)
  obtain a b where x: "x = (a, b)" by (cases x)
  from Cons.prems(3) [of a b] have p: "interval_durations b \<noteq> 0" "due now b \<le> bal_reserved E (native s) a" "fund_of s a = Some b"
    by (simp_all add: x)
  obtain s1 where s1: "unlock_item E now (a, b) s = Inr s1" "fund_of s1 = (fund_of s)(a := next_entry now b)"
    "\<And>c. pays E (native s) (native s1) c (if c = a then unat (due now b) else 0)" "fund_keys s1"
    using unlock_item_effect [OF assms(1) p Cons.prems(2)] by metis
  have "fund_of s1 c = Some d \<and> interval_durations d \<noteq> 0 \<and> due now d \<le> bal_reserved E (native s1) c" if "(c, d) \<in> set es" for c d
  proof -
    have "c \<noteq> a" using that Cons.prems(1) by (force simp: x)
    moreover from this have "bal_reserved E (native s1) c = bal_reserved E (native s) c"
      using s1(3) [of c] by (simp add: pays_def word_unat_eq_iff)
    ultimately show ?thesis using Cons.prems(3) [of c d] that s1(2) by simp
  qed
  then obtain s' where s': "rfold (unlock_item E now) es s1 = Inr s'" "fund_keys s'"
    "\<And>c. (case map_of es c of None \<Rightarrow> fund_of s' c = fund_of s1 c \<and> pays E (native s1) (native s') c 0
       | Some b \<Rightarrow> fund_of s' c = next_entry now b \<and> pays E (native s1) (native s') c (unat (due now b)))"
    using Cons.IH [of s1] Cons.prems(1) s1(4) x by auto
  have a: "map_of es a = None" using Cons.prems(1) by (simp add: x map_of_eq_None_iff)
  have "case map_of (x # es) c of None \<Rightarrow> fund_of s' c = fund_of s c \<and> pays E (native s) (native s') c 0
       | Some b \<Rightarrow> fund_of s' c = next_entry now b \<and> pays E (native s) (native s') c (unat (due now b))" for c
  proof (cases "c = a")
    case True
    with s'(3) [of a] a have "fund_of s' a = next_entry now b" "pays E (native s1) (native s') a 0" by (simp_all add: s1(2))
    with True pays_trans [OF s1(3) [of a]] show ?thesis by (fastforce simp: x)
  next
    case False
    with s'(3) [of c] s1(3) [of c] s1(2) show ?thesis by (auto simp: x dest: pays_trans split: option.splits)
  qed
  with s' s1(1) show ?case by (auto simp: x)
qed

lemma unlock_fund_effect:
  assumes "balances_spec E" "fund_keys s"
    and "\<And>a b. fund_of s a = Some b \<Longrightarrow> interval_durations b \<noteq> 0 \<and> due now b \<le> bal_reserved E (native s) a"
  shows "\<exists>s'. unlock_fund E now s = Inr s' \<and> fund_keys s' \<and>
    (\<forall>c. (case fund_of s c of None \<Rightarrow> fund_of s' c = fund_of s c \<and> pays E (native s) (native s') c 0
       | Some b \<Rightarrow> fund_of s' c = next_entry now b \<and> pays E (native s) (native s') c (unat (due now b))))"
proof -
  have k: "distinct (map fst (Foundation s))" using assms(2) by (simp add: fund_keys_def)
  have i: "fund_of s a = Some b \<and> interval_durations b \<noteq> 0 \<and> due now b \<le> bal_reserved E (native s) a"
    if "(a, b) \<in> set (Foundation s)" for a b
    using that k assms(3) [of a b] by (simp add: fund_of_def)
  show ?thesis
    using unlock_items_effect [OF assms(1) k assms(2) i] unfolding unlock_fund_def fund_of_def [of s] by blast
qed

section \<open>The schedule in closed form\<close>

text \<open>\<open>parts b n\<close> is the number of intervals that have passed since the delay at duration \<open>n\<close>.\<close>

definition parts :: "foundation_data \<Rightarrow> nat \<Rightarrow> nat" where
  "parts b n = (n - unat (delay_durations b)) div unat (interval_durations b)"

definition released :: "foundation_data \<Rightarrow> nat \<Rightarrow> nat" where
  "released b n =
     (if 1 \<le> unat (delay_durations b) \<and> unat (delay_durations b) \<le> n then unat (first_amount b) else 0)
     + unat (fund_amount b) * min (unat (times b)) (parts b n)"

definition locked :: "foundation_data \<Rightarrow> nat" where
  "locked b = unat (fund_amount b) * unat (times b) + unat (first_amount b)"

definition fund_after :: "foundation_data \<Rightarrow> nat \<Rightarrow> foundation_data option" where
  "fund_after b n = (if parts b n < unat (times b) then Some (b\<lparr>times := of_nat (unat (times b) - parts b n)\<rparr>) else None)"

definition vested ::
  "('b, 'x) env_scheme \<Rightarrow> ('b, 'z) foundation_chain_scheme \<Rightarrow> nat \<Rightarrow> ('b, 'z) foundation_chain_scheme \<Rightarrow> bool" where
  "vested E s0 n s \<longleftrightarrow> fund_keys s \<and>
     (\<forall>a. (case fund_of s0 a of
             None \<Rightarrow> fund_of s a = None \<and> pays E (native s0) (native s) a 0
           | Some b \<Rightarrow> fund_of s a = fund_after b n \<and> pays E (native s0) (native s) a (released b n)))"

definition well_funded :: "('b, 'x) env_scheme \<Rightarrow> ('b, 'z) foundation_chain_scheme \<Rightarrow> bool" where
  "well_funded E s \<longleftrightarrow> fund_keys s \<and>
     (\<forall>a b. fund_of s a = Some b \<longrightarrow> interval_durations b \<noteq> 0 \<and> times b \<noteq> 0 \<and>
        locked b \<le> unat (bal_reserved E (native s) a))"

lemma instalment_nat:
  assumes "unat m = Suc n"
  shows "instalment m b \<longleftrightarrow>
    unat (delay_durations b) \<le> n \<and> (Suc n - unat (delay_durations b)) mod unat (interval_durations b) = 0"
proof -
  have "unat ((m - delay_durations b) mod interval_durations b) =
      (Suc n - unat (delay_durations b)) mod unat (interval_durations b)" if "delay_durations b < m"
    using that assms by (simp add: unat_mod unat_sub_no_wrap order.strict_implies_order)
  then show ?thesis
    using assms by (auto simp: instalment_def word_less_nat_alt less_Suc_eq_le simp flip: unat_eq_0)
qed

lemma parts_Suc:
  assumes "unat m = Suc n"
  shows "parts b (Suc n) = parts b n + (if instalment m b then 1 else 0)"
proof (cases "unat (delay_durations b) \<le> n")
  case True
  then show ?thesis by (simp add: parts_def instalment_nat [OF assms(1)] Suc_diff_le div_Suc)
next
  case False
  then show ?thesis by (simp add: parts_def instalment_nat [OF assms(1)] not_le)
qed

lemma parts_early: "n \<le> unat (delay_durations b) \<Longrightarrow> parts b n = 0"
  by (simp add: parts_def)

lemma released_Suc:
  assumes "unat m = Suc n" "parts b n < unat (times b)"
  shows "released b (Suc n) = released b n + unat (due m b)"
proof -
  consider "instalment m b" | "m = delay_durations b" | "\<not> instalment m b" "m \<noteq> delay_durations b" by blast
  then show ?thesis
  proof cases
    case 1
    then show ?thesis using assms instalment_nat [OF assms(1)] parts_Suc [OF assms(1)]
      by (auto simp: released_def due_def)
  next
    case 2
    then have "\<not> instalment m b" "unat (delay_durations b) = Suc n" using assms(1) by (simp_all add: instalment_def)
    with 2 show ?thesis by (simp add: released_def due_def parts_early)
  next
    case 3
    then have "unat (delay_durations b) \<noteq> Suc n" using assms(1) by (metis word_unat_eq_iff)
    with 3 show ?thesis using parts_Suc [OF assms(1)] by (auto simp: released_def due_def le_Suc_eq)
  qed
qed

lemma released_done:
  fixes m :: u32
  assumes "unat m = Suc n" "\<not> parts b n < unat (times b)" "times b \<noteq> 0"
  shows "released b (Suc n) = released b n" "fund_after b (Suc n) = None"
proof -
  have t: "0 < unat (times b)" using assms(3) by (simp add: unat_gt_0)
  have le: "parts b n \<le> parts b (Suc n)" using parts_Suc [OF assms(1)] by simp
  have "unat (delay_durations b) \<le> n" using parts_early [of n b] t assms(2) by (cases "unat (delay_durations b) \<le> n") auto
  then show "released b (Suc n) = released b n" using assms(2) le by (auto simp: released_def)
  show "fund_after b (Suc n) = None" using assms(2) le by (simp add: fund_after_def)
qed

lemma instalment_times [simp]: "instalment m (b\<lparr>times := k\<rparr>) = instalment m b"
  by (simp add: instalment_def)

lemma fund_after_Suc:
  assumes "unat m = Suc n" "fund_after b n = Some b'"
  shows "fund_after b (Suc n) = next_entry m b'" "due m b' = due m b" "interval_durations b' = interval_durations b"
proof -
  let ?k = "unat (times b) - parts b n"
  have b': "b' = b\<lparr>times := of_nat ?k\<rparr>" and p: "parts b n < unat (times b)"
    using assms(2) by (auto simp: fund_after_def split: if_splits)
  show "due m b' = due m b" "interval_durations b' = interval_durations b" by (simp_all add: due_def b')
  have "?k < 2 ^ LENGTH(32)" by (rule le_less_trans [OF diff_le_self unsigned_less])
  then have k: "unat (of_nat ?k :: u32) = ?k" by (simp add: unsigned_of_nat take_bit_nat_eq_self)
  have "of_nat ?k = (1 :: u32) \<longleftrightarrow> ?k = 1" by (metis k unat_1 of_nat_1)
  moreover have "of_nat ?k - 1 = (of_nat (unat (times b) - Suc (parts b n)) :: u32)" using p by (simp add: of_nat_diff)
  ultimately show "fund_after b (Suc n) = next_entry m b'"
    using p parts_Suc [OF assms(1)] by (auto simp: fund_after_def next_entry_def b')
qed

lemma vestedD:
  assumes "vested E s0 n s"
  shows "fund_of s0 a = Some b \<Longrightarrow> fund_of s a = fund_after b n \<and> pays E (native s0) (native s) a (released b n)"
    and "fund_of s0 a = None \<Longrightarrow> fund_of s a = None \<and> pays E (native s0) (native s) a 0"
    and "fund_keys s"
proof -
  from assms have "case fund_of s0 a of None \<Rightarrow> fund_of s a = None \<and> pays E (native s0) (native s) a 0
    | Some b \<Rightarrow> fund_of s a = fund_after b n \<and> pays E (native s0) (native s) a (released b n)"
    unfolding vested_def by blast
  then show "fund_of s0 a = Some b \<Longrightarrow> fund_of s a = fund_after b n \<and> pays E (native s0) (native s) a (released b n)"
    "fund_of s0 a = None \<Longrightarrow> fund_of s a = None \<and> pays E (native s0) (native s) a 0" by simp_all
  show "fund_keys s" using assms by (simp add: vested_def)
qed

lemma well_fundedD:
  assumes "well_funded E s" "fund_of s a = Some b"
  shows "interval_durations b \<noteq> 0" "times b \<noteq> 0" "locked b \<le> unat (bal_reserved E (native s) a)"
  using assms unfolding well_funded_def by blast+

lemma vested_step:
  assumes "balances_spec E" "well_funded E s0" "vested E s0 n s" "unat m = Suc n"
  shows "\<exists>s'. unlock_fund E m s = Inr s' \<and> vested E s0 (Suc n) s'"
proof -
  have fk: "fund_keys s" by (rule vestedD(3) [OF assms(3)])
  have ini: "\<exists>b0. fund_of s0 a = Some b0 \<and> fund_after b0 n = Some b \<and> interval_durations b0 \<noteq> 0 \<and>
      pays E (native s0) (native s) a (released b0 n) \<and> locked b0 \<le> unat (bal_reserved E (native s0) a)" if "fund_of s a = Some b" for a b
  proof (cases "fund_of s0 a")
    case None
    with vestedD(2) [OF assms(3)] that show ?thesis by simp
  next
    case (Some b0)
    with vestedD(1) [OF assms(3) Some] well_fundedD [OF assms(2) Some] that show ?thesis by auto
  qed
  have items: "interval_durations b \<noteq> 0 \<and> due m b \<le> bal_reserved E (native s) a" if f: "fund_of s a = Some b" for a b
  proof -
    from f obtain b0 where b0: "fund_after b0 n = Some b" "interval_durations b0 \<noteq> 0"
      "pays E (native s0) (native s) a (released b0 n)" "locked b0 \<le> unat (bal_reserved E (native s0) a)" using ini by blast
    note fa = fund_after_Suc [OF assms(4) b0(1)]
    have "parts b0 n < unat (times b0)" using b0(1) by (simp add: fund_after_def split: if_splits)
    then have "released b0 n + unat (due m b0) = released b0 (Suc n)" using released_Suc [OF assms(4)] by simp
    also have "\<dots> \<le> locked b0"
      unfolding released_def locked_def by (subst add.commute) (intro add_mono mult_le_mono, simp_all)
    finally have "unat (due m b) \<le> unat (bal_reserved E (native s) a)" using b0(3,4) fa(2) by (simp add: pays_def)
    with fa(3) b0(2) show ?thesis by (simp add: word_le_nat_alt)
  qed
  obtain s' where s': "unlock_fund E m s = Inr s'" "fund_keys s'"
    "\<And>c. (case fund_of s c of None \<Rightarrow> fund_of s' c = fund_of s c \<and> pays E (native s) (native s') c 0
       | Some b \<Rightarrow> fund_of s' c = next_entry m b \<and> pays E (native s) (native s') c (unat (due m b)))"
    using unlock_fund_effect [OF assms(1) fk items] by blast
  have "case fund_of s0 a of None \<Rightarrow> fund_of s' a = None \<and> pays E (native s0) (native s') a 0
      | Some b \<Rightarrow> fund_of s' a = fund_after b (Suc n) \<and> pays E (native s0) (native s') a (released b (Suc n))" for a
  proof (cases "fund_of s0 a")
    case None
    with vestedD(2) [OF assms(3) None] s'(3) [of a] pays_trans [of E "native s0" "native s" a 0 "native s'" 0] show ?thesis by simp
  next
    case (Some b0)
    note v = vestedD(1) [OF assms(3) Some] and wf = well_fundedD [OF assms(2) Some]
    show ?thesis
    proof (cases "fund_after b0 n")
      case None
      then have "\<not> parts b0 n < unat (times b0)" by (simp add: fund_after_def split: if_splits)
      note released_done [OF assms(4) this wf(2)]
      with None Some v s'(3) [of a] show ?thesis using pays_trans [of E "native s0" "native s" a _ "native s'" 0] by simp
    next
      case (Some b)
      then have "parts b0 n < unat (times b0)" by (simp add: fund_after_def split: if_splits)
      note r = released_Suc [OF assms(4) this] and fa = fund_after_Suc [OF assms(4) Some]
      show ?thesis using v s'(3) [of a] Some \<open>fund_of s0 a = Some b0\<close> fa r pays_trans [of E "native s0" "native s" a _ "native s'"] by simp
    qed
  qed
  with s' show ?thesis by (auto simp: vested_def)
qed

definition run_durations ::
  "('b, 'x) foundation_env_scheme \<Rightarrow> nat \<Rightarrow> ('b, 'z) foundation_chain_scheme \<Rightarrow> ('b, 'z) foundation_chain_scheme result" where
  "run_durations E n s = rfold (\<lambda>i. unlock_fund E (of_nat i)) [1..<Suc n] s"

lemma run_durations_Suc: "run_durations E (Suc n) s = rbind (run_durations E n s) (unlock_fund E (of_nat (Suc n)))"
proof -
  have u: "[1..<Suc (Suc n)] = [1..<Suc n] @ [Suc n]" by simp
  show ?thesis unfolding run_durations_def u rfold_append
    by (cases "rfold (\<lambda>i. unlock_fund E (of_nat i)) [1..<Suc n] s") (simp_all del: upt_Suc of_nat_Suc, simp add: rbind_def split: sum.splits)
qed

lemma vested_start: "well_funded E s \<Longrightarrow> vested E s 0 s"
  unfolding vested_def well_funded_def
  by (auto simp: fund_after_def parts_def released_def unat_gt_0 split: option.splits)

lemma run_vested:
  assumes "balances_spec E" "well_funded E s" "n < 2 ^ 32"
  shows "\<exists>s'. run_durations E n s = Inr s' \<and> vested E s n s'"
  using assms(3)
proof (induction n)
  case 0
  then show ?case using vested_start [OF assms(2)] by (simp add: run_durations_def)
next
  case (Suc n)
  then obtain s1 where s1: "run_durations E n s = Inr s1" "vested E s n s1" by auto
  have "unat (of_nat (Suc n) :: u32) = Suc n" using Suc.prems by (simp add: unsigned_of_nat take_bit_nat_eq_self del: of_nat_Suc)
  from vested_step [OF assms(1,2) s1(2) this] s1(1) show ?case by (auto simp: run_durations_Suc simp del: of_nat_Suc)
qed

text \<open>The hook runs at every block; it acts at the multiples of the duration.\<close>

definition run_blocks ::
  "('b, 'x) foundation_env_scheme \<Rightarrow> nat \<Rightarrow> ('b, 'z) foundation_chain_scheme \<Rightarrow> ('b, 'z) foundation_chain_scheme result" where
  "run_blocks E k s = rfold (\<lambda>i. initialize E (of_nat i)) [1..<Suc k] s"

lemma run_blocks_Suc: "run_blocks E (Suc n) s = rbind (run_blocks E n s) (initialize E (of_nat (Suc n)))"
proof -
  have u: "[1..<Suc (Suc n)] = [1..<Suc n] @ [Suc n]" by simp
  show ?thesis unfolding run_blocks_def u rfold_append
    by (cases "rfold (\<lambda>i. initialize E (of_nat i)) [1..<Suc n] s") (simp_all del: upt_Suc of_nat_Suc, simp add: rbind_def split: sum.splits)
qed

lemma initialize_nat:
  assumes "Duration E \<noteq> 0" "unat m = Suc n"
  shows "initialize E m s = (if Suc n mod unat (Duration E) = 0 then unlock_fund E (of_nat (Suc (n div unat (Duration E)))) s else Inr s)"
proof -
  have r: "m mod Duration E = 0 \<longleftrightarrow> Suc n mod unat (Duration E) = 0"
    by (metis assms(2) unat_eq_0 unat_mod)
  have d: "m div Duration E = of_nat (Suc n div unat (Duration E))"
    by (metis assms(2) of_nat_unat ucast_id unat_div)
  show ?thesis using assms(1) by (simp add: initialize_def rem_u32_def div_u32_def r d div_Suc)
qed

lemma run_blocks_durations:
  fixes s :: "('b, 'z) foundation_chain_scheme"
  assumes "Duration E \<noteq> 0" "k < 2 ^ 32"
  shows "run_blocks E k s = run_durations E (k div unat (Duration E)) s"
  using assms(2)
proof (induction k)
  case 0
  then show ?case by (simp add: run_blocks_def run_durations_def)
next
  case (Suc k)
  have "unat (of_nat (Suc k) :: u32) = Suc k" using Suc.prems by (simp add: unsigned_of_nat take_bit_nat_eq_self del: of_nat_Suc)
  from initialize_nat [OF assms(1) this]
  have i: "initialize E (of_nat (Suc k)) = (if Suc k mod unat (Duration E) = 0
      then unlock_fund E (of_nat (Suc (k div unat (Duration E)))) else (Inr :: ('b, 'z) foundation_chain_scheme \<Rightarrow> _))"
    by (auto simp: fun_eq_iff)
  have "rbind r Inr = r" for r :: "('b, 'z) foundation_chain_scheme result" by (cases r) simp_all
  with Suc i show ?case by (simp add: run_blocks_Suc run_durations_Suc div_Suc del: of_nat_Suc)
qed

text \<open>
  C21: The vesting schedule in closed form. From a state in which every fund has its amount reserved, the
  block hook never fails, and after \<open>k\<close> blocks, which are \<open>n\<close> full durations, every fund has
  moved from the reserved to the free balance of its account exactly the first amount (once the
  delay has passed, and only for a delay of at least one) and the amount of one instalment for each full
  interval since, up to the number of instalments; after the last one the fund is gone from the storage.
  Other accounts are left alone.\<close>
theorem vesting_schedule:
  assumes "balances_spec E" "well_funded E s" "Duration E \<noteq> 0" "k < 2 ^ 32" "n = k div unat (Duration E)"
  shows "\<exists>s'. run_blocks E k s = Inr s' \<and>
    (\<forall>a b. fund_of s a = Some b \<longrightarrow>
       unat (bal_free E (native s') a) = unat (bal_free E (native s) a) + released b n \<and>
       unat (bal_reserved E (native s) a) = unat (bal_reserved E (native s') a) + released b n \<and>
       (fund_of s' a = None \<longleftrightarrow> unat (times b) \<le> parts b n)) \<and>
    (\<forall>a. fund_of s a = None \<longrightarrow> same_account E (native s) (native s') a)"
proof -
  have "n < 2 ^ 32" using assms(4,5) by (simp add: le_less_trans [OF div_le_dividend])
  then obtain s' where s': "run_durations E n s = Inr s'" "vested E s n s'" using run_vested [OF assms(1,2)] by blast
  then show ?thesis using vestedD(1,2) [OF s'(2)] run_blocks_durations [OF assms(3,4), of s] assms(5)
    by (intro exI [of _ s']) (auto simp: pays_same pays_def fund_after_def)
qed

text \<open>Bob's fund: after one duration of ten blocks 3 units are free, then twice 5 every second duration.\<close>

definition fnd_env :: "sample_bal foundation_env" where
  "fnd_env = env.extend (sample_env ()) (foundation_env.fields 10 (\<lambda>a v b. sb_put a (fst (fst b a) + v, snd (fst b a)) b))"

definition bob_fund :: foundation_data where
  "bob_fund = \<lparr>delay_durations = 1, interval_durations = 2, times = 2, fund_amount = 5, first_amount = 3\<rparr>"

definition f0 :: "sample_bal foundation_chain" where
  "f0 = \<lparr>block_number = 0, account_nonce = (\<lambda>_. 0), events = [], native = sb_put bob (100, 13) ((\<lambda>_. (50, 0)), 200),
     Foundation = [(bob, bob_fund)]\<rparr>"

lemma fnd_env_simps [simp]: "Duration fnd_env = 10" "bal_free fnd_env = sb_free" "bal_reserved fnd_env = sb_reserved"
  by (simp_all add: fnd_env_def env.defs foundation_env.defs sample_env_def)

lemma spec_fnd_env: "balances_spec fnd_env"
  using sample_balances_spec [of "env.more fnd_env"]
  by (simp add: fnd_env_def env.defs foundation_env.defs sample_env_def)

lemma f0_funded: "well_funded fnd_env f0"
  by (simp add: well_funded_def fund_keys_def fund_of_def f0_def bob_fund_def locked_def sb_put_def sb_reserved_def)

theorem vesting_schedule_witness:
  "\<exists>s'. run_blocks fnd_env 57 f0 = Inr s' \<and> unat (sb_free (native s') bob) = unat (sb_free (native f0) bob) + 13 \<and>
     unat (sb_reserved (native s') bob) = 0 \<and> fund_of s' bob = None"
proof -
  have b: "fund_of f0 bob = Some bob_fund" by (simp add: fund_of_def f0_def)
  have r: "released bob_fund 5 = 13" "parts bob_fund 5 = 2" "unat (times bob_fund) = 2"
    by (simp_all add: released_def parts_def bob_fund_def)
  have "unat (sb_reserved (native f0) bob) = 13" by (simp add: f0_def sb_put_def sb_reserved_def)
  then show ?thesis
    using vesting_schedule [OF spec_fnd_env f0_funded, of 57 5] b r by fastforce
qed

end
