(* ===== verification/Fuso_Agent.thy ===== *)
theory Fuso_Agent
  imports Fuso_Balances
begin

text \<open>
  The agent pallet (\<^verbatim>\<open>pallet-fuso-agent/src/lib.rs\<close>): transactions that are signed with an Ethereum
  key and submitted without an origin. \<open>'w\<close> is the type of the calls of the runtime, \<open>'k\<close> that of
  its weights. The codec, the hash functions, the recovery of the public key, the weight functions and
  the fee of a weight are outside the repository and are parameters of \<open>agent_env\<close>.
  Nonces, of type \<^verbatim>\<open>T::Index\<close> in the code, are words of 64 bits, a choice of the model.
\<close>

section \<open>Data and configuration\<close>

datatype 'w external_verifiable =
    Ed25519 bytes 'w u64 bytes
  | Ecdsa 'w u64 bytes

datatype dispatch_class = Normal | Operational | Mandatory

record 'k dispatch_info =
  info_weight :: 'k
  info_class :: dispatch_class

record ('b, 'w, 'k) agent_env = "'b env" +
  encode_payload :: "u64 \<times> 'w \<Rightarrow> bytes"
  encode_identity :: "bytes \<times> u16 \<times> bytes \<Rightarrow> bytes"
  hex_encode :: "bytes \<Rightarrow> bytes"
  keccak_256 :: "bytes \<Rightarrow> bytes"
  ecdsa_recover :: "bytes \<Rightarrow> bytes \<Rightarrow> bytes option"
  hash_blake2_256 :: "bytes \<Rightarrow> bytes"
  decode_account :: "bytes \<Rightarrow> account option"
  get_dispatch_info :: "'w \<Rightarrow> 'k dispatch_info"
  encoded_size :: "'w external_verifiable \<Rightarrow> nat"
  weight_min :: "'k \<Rightarrow> 'k \<Rightarrow> 'k"
  weight_any_lt :: "'k \<Rightarrow> 'k \<Rightarrow> bool"
  weight_div :: "'k \<Rightarrow> nat \<Rightarrow> 'k"
  ref_time :: "'k \<Rightarrow> u64"
  WeightToFee :: "'k \<Rightarrow> u128"
  TransactionByteFee :: u128
  MainOrTestnet :: u16
  max_block :: 'k
  base_extrinsic :: "dispatch_class \<Rightarrow> 'k"
  max_normal_length :: u32
  bal_withdraw :: "account \<Rightarrow> u128 \<Rightarrow> 'b \<Rightarrow> 'b result"

section \<open>The signed payload\<close>

text \<open>The decimal digits of a number, as the \<open>format!\<close> macro writes them.\<close>

fun digits :: "nat \<Rightarrow> bytes" where
  "digits n = (if n < 10 then [of_nat (48 + n)] else digits (n div 10) @ [of_nat (48 + n mod 10)])"

declare digits.simps [simp del]

text \<open>\<open>"Ethereum Signed Message:"\<close> and a line feed.\<close>

definition eth_prefix :: bytes where
  "eth_prefix = [69, 116, 104, 101, 114, 101, 117, 109, 32, 83, 105, 103, 110, 101, 100, 32,
     77, 101, 115, 115, 97, 103, 101, 58, 10]"

definition extend_payload :: "('b, 'w, 'k, 'x) agent_env_scheme \<Rightarrow> u64 \<Rightarrow> 'w \<Rightarrow> bytes" where
  "extend_payload E nonce tx =
     (let encoded_payload = encode_payload E (nonce, tx)
      in [0x19] @ eth_prefix @ digits (length encoded_payload * 2) @ hex_encode E encoded_payload)"

text \<open>The bytes of \<open>"-*-#fusotao#-*-"\<close>.\<close>

definition agent_salt :: bytes where
  "agent_salt = [45, 42, 45, 35, 102, 117, 115, 111, 116, 97, 111, 35, 45, 42, 45]"

fun extract_account :: "('b, 'w, 'k, 'x) agent_env_scheme \<Rightarrow> 'w external_verifiable \<Rightarrow> account result" where
  "extract_account E (Ed25519 _ _ _ _) = Inl (AgentE InvalidSignature)"
| "extract_account E (Ecdsa tx nonce signature) =
     (let msg = extend_payload E nonce tx;
          digest = keccak_256 E msg
      in rbind (ok_or (ecdsa_recover E signature digest) (AgentE InvalidSignature)) (\<lambda>pubkey.
         let address = drop 12 (keccak_256 E pubkey);
             h = hash_blake2_256 E (encode_identity E (agent_salt, MainOrTestnet E, address))
         in ok_or (decode_account E h) (AgentE InvalidSignature)))"

section \<open>Submission\<close>

text \<open>\<open>disp\<close> dispatches a call with a signed origin; a failing call is rolled back, and its error is
  only recorded in the event.\<close>

definition submit_external_tx ::
  "('b, 'w, 'k, 'x) agent_env_scheme \<Rightarrow> ('w \<Rightarrow> account \<Rightarrow> ('b, 'z) system_scheme \<Rightarrow> ('b, 'z) system_scheme result)
    \<Rightarrow> origin \<Rightarrow> 'w external_verifiable \<Rightarrow> ('b, 'z) system_scheme \<Rightarrow> ('b, 'z) system_scheme result" where
  "submit_external_tx E disp orig v s =
     rbind (ensure_none orig) (\<lambda>_.
     rbind (extract_account E v) (\<lambda>account.
       (case v of
          Ed25519 _ _ _ _ \<Rightarrow> Inl (AgentE InvalidSignature)
        | Ecdsa tx _ _ \<Rightarrow>
            (let r = disp tx account s
             in rbind (caught r s) (\<lambda>s1.
                  Inr (deposit_event (AgentEv (ExternalTransactionExecuted account
                         (case r of Inl e \<Rightarrow> Inl e | Inr _ \<Rightarrow> Inr ()))) s1))))))"

section \<open>Fees\<close>

definition weight_to_fee :: "('b, 'w, 'k, 'x) agent_env_scheme \<Rightarrow> 'k \<Rightarrow> u128" where
  "weight_to_fee E weight = (let capped_weight = weight_min E weight (max_block E) in WeightToFee E capped_weight)"

definition compute_fee :: "('b, 'w, 'k, 'x) agent_env_scheme \<Rightarrow> u32 \<Rightarrow> 'k \<Rightarrow> dispatch_class \<Rightarrow> u128" where
  "compute_fee E len weight class =
     (let len_fee = saturating_mul (TransactionByteFee E) (ucast len);
          weight_fee = weight_to_fee E weight;
          base_fee = weight_to_fee E (base_extrinsic E class)
      in saturating_add (saturating_add base_fee len_fee) weight_fee)"

datatype validity_error = BadProof | ExhaustsResources | Payment | InvalidCall

definition withdraw_fee ::
  "('b, 'w, 'k, 'x) agent_env_scheme \<Rightarrow> account \<Rightarrow> u128 \<Rightarrow> ('b, 'z) system_scheme
    \<Rightarrow> validity_error + ('b, 'z) system_scheme" where
  "withdraw_fee E who fee s =
     (if fee = 0 then Inr s
      else (case bal_withdraw E who fee (native s) of
              Inr b \<Rightarrow> Inr (s\<lparr>native := b\<rparr>)
            | Inl e \<Rightarrow> Inl Payment))"

fun dispatch_info_of :: "('b, 'w, 'k, 'x) agent_env_scheme \<Rightarrow> 'w external_verifiable \<Rightarrow> 'k dispatch_info" where
  "dispatch_info_of E (Ed25519 _ tx _ _) = get_dispatch_info E tx"
| "dispatch_info_of E (Ecdsa tx _ _) = get_dispatch_info E tx"

section \<open>Validation\<close>

text \<open>\<open>Submit\<close> is the pallet's only call; \<open>Foreign\<close> is any other call of the runtime.\<close>

datatype 'w agent_call = Submit "'w external_verifiable" | Foreign

record valid_transaction =
  priority :: u64
  provides :: account
  longevity :: u64
  propagate :: bool

fun nonce_and_call :: "'w external_verifiable \<Rightarrow> u64 \<times> 'w" where
  "nonce_and_call (Ed25519 _ tx nonce _) = (nonce, tx)"
| "nonce_and_call (Ecdsa tx nonce _) = (nonce, tx)"

definition validate_unsigned ::
  "('b, 'w, 'k, 'x) agent_env_scheme \<Rightarrow> 'w agent_call \<Rightarrow> ('b, 'z) system_scheme
    \<Rightarrow> validity_error + (valid_transaction \<times> ('b, 'z) system_scheme)" where
  "validate_unsigned E call s =
     (case call of
        Submit tx \<Rightarrow>
          rbind (case extract_account E tx of Inl _ \<Rightarrow> Inl BadProof | Inr a \<Rightarrow> Inr a) (\<lambda>account.
          let index = account_nonce s account;
              (nonce, call) = nonce_and_call tx
          in ensure (index = nonce) BadProof (
             let s1 = inc_account_nonce account s;
                 info = get_dispatch_info E call
             in ensure (encoded_size E tx < 2 ^ 32) ExhaustsResources (
                let len = of_nat (encoded_size E tx)
                in ensure (len < max_normal_length E) ExhaustsResources (
                   ensure (weight_any_lt E (info_weight info) (weight_div E (max_block E) 5)) ExhaustsResources (
                   let fee = compute_fee E len (info_weight info) (info_class info)
                   in rbind (withdraw_fee E account fee s1) (\<lambda>s2.
                        Inr (\<lparr>priority = ref_time E (info_weight info), provides = account, longevity = 5,
                               propagate = True\<rparr>, s2)))))))
      | Foreign \<Rightarrow> Inl InvalidCall)"

text \<open>The execution of a submitted transaction: the validation runs before the dispatch, as the
  default \<open>pre_dispatch\<close> of the trait does, and keeps its writes.\<close>

definition apply_external ::
  "('b, 'w, 'k, 'x) agent_env_scheme \<Rightarrow> ('w \<Rightarrow> account \<Rightarrow> ('b, 'z) system_scheme \<Rightarrow> ('b, 'z) system_scheme result)
    \<Rightarrow> 'w external_verifiable \<Rightarrow> ('b, 'z) system_scheme \<Rightarrow> (validity_error + error) + ('b, 'z) system_scheme" where
  "apply_external E disp v s =
     (case validate_unsigned E (Submit v) s of
        Inl e \<Rightarrow> Inl (Inl e)
      | Inr (_, s1) \<Rightarrow>
          (case submit_external_tx E disp NoOrigin v s1 of Inl e \<Rightarrow> Inl (Inr e) | Inr s2 \<Rightarrow> Inr s2))"

end
