(* ===== verification/Fuso_Agent_Props.thy ===== *)
theory Fuso_Agent_Props
  imports Fuso_Agent Fuso_Samples
begin

text \<open>
  Properties of the agent pallet: a submitted transaction is charged and executed as its signer, and it can
  be executed again only after its call or a later one has lowered the nonce of the signer.
\<close>

section \<open>Validation and execution\<close>

definition fee_of :: "('b, 'w, 'k, 'x) agent_env_scheme \<Rightarrow> 'w external_verifiable \<Rightarrow> u128" where
  "fee_of E v = (let info = get_dispatch_info E (snd (nonce_and_call v))
     in compute_fee E (of_nat (encoded_size E v)) (info_weight info) (info_class info))"

lemma validate_elim:
  assumes "validate_unsigned E (Submit v) s = Inr (t, s1)"
  obtains a where "extract_account E v = Inr a" "account_nonce s a = fst (nonce_and_call v)" "provides t = a"
    "fee_of E v = 0 \<and> s1 = inc_account_nonce a s \<or>
     fee_of E v \<noteq> 0 \<and> (\<exists>b. bal_withdraw E a (fee_of E v) (native s) = Inr b \<and> s1 = (inc_account_nonce a s)\<lparr>native := b\<rparr>)"
proof (cases "extract_account E v")
  case (Inl e)
  with assms show thesis by (simp add: validate_unsigned_def)
next
  case (Inr a)
  obtain n tx where n: "nonce_and_call v = (n, tx)" by fastforce
  from assms Inr have "account_nonce s a = n" "provides t = a" and w: "withdraw_fee E a (fee_of E v) (inc_account_nonce a s) = Inr s1"
    by (auto simp: validate_unsigned_def n fee_of_def Let_def res_simps)
  moreover from w have "fee_of E v = 0 \<and> s1 = inc_account_nonce a s \<or>
     fee_of E v \<noteq> 0 \<and> (\<exists>b. bal_withdraw E a (fee_of E v) (native s) = Inr b \<and> s1 = (inc_account_nonce a s)\<lparr>native := b\<rparr>)"
    by (auto simp: withdraw_fee_def inc_account_nonce_def split: if_splits sum.splits)
  ultimately show thesis using that [of a] Inr n by simp
qed

lemma apply_elim:
  assumes "apply_external E disp v s = Inr s'"
  obtains t s1 a tx n sig where "validate_unsigned E (Submit v) s = Inr (t, s1)" "v = Ecdsa tx n sig"
    "extract_account E v = Inr a" "disp tx a s1 \<noteq> Inl Panicked"
    "s' = deposit_event (AgentEv (ExternalTransactionExecuted a (case disp tx a s1 of Inl e \<Rightarrow> Inl e | Inr _ \<Rightarrow> Inr ())))
       (case disp tx a s1 of Inl e \<Rightarrow> s1 | Inr s2 \<Rightarrow> s2)"
proof -
  from assms obtain t s1 where v: "validate_unsigned E (Submit v) s = Inr (t, s1)"
    and sub: "submit_external_tx E disp NoOrigin v s1 = Inr s'"
    by (auto simp: apply_external_def split: sum.splits)
  then obtain a where a: "extract_account E v = Inr a" by (auto elim: validate_elim)
  then obtain tx n sig where e: "v = Ecdsa tx n sig" by (cases v) auto
  have "disp tx a s1 \<noteq> Inl Panicked \<and>
    s' = deposit_event (AgentEv (ExternalTransactionExecuted a (case disp tx a s1 of Inl e \<Rightarrow> Inl e | Inr _ \<Rightarrow> Inr ())))
       (case disp tx a s1 of Inl e \<Rightarrow> s1 | Inr s2 \<Rightarrow> s2)"
    using sub a unfolding submit_external_tx_def e by (auto simp: Let_def rbind_eq_Inr caught_eq_Inr)
  with that [OF v e a] show thesis by blast
qed

lemma apply_effect:
  assumes "apply_external E disp v s = Inr s'"
  shows "\<exists>a tx sig b s1. v = Ecdsa tx (account_nonce s a) sig \<and> extract_account E v = Inr a \<and>
    (if fee_of E v = 0 then b = native s else bal_withdraw E a (fee_of E v) (native s) = Inr b) \<and>
    s1 = s\<lparr>account_nonce := (account_nonce s)(a := account_nonce s a + 1), native := b\<rparr> \<and>
    (case disp tx a s1 of
       Inl e \<Rightarrow> e \<noteq> Panicked \<and> s' = deposit_event (AgentEv (ExternalTransactionExecuted a (Inl e))) s1
     | Inr s2 \<Rightarrow> s' = deposit_event (AgentEv (ExternalTransactionExecuted a (Inr ()))) s2)"
  using assms
proof (cases rule: apply_elim)
  case (1 t s1 a tx n sig)
  obtain a' where a': "extract_account E v = Inr a'" "account_nonce s a' = fst (nonce_and_call v)"
    "fee_of E v = 0 \<and> s1 = inc_account_nonce a' s \<or>
     fee_of E v \<noteq> 0 \<and> (\<exists>b. bal_withdraw E a' (fee_of E v) (native s) = Inr b \<and> s1 = (inc_account_nonce a' s)\<lparr>native := b\<rparr>)"
    by (rule validate_elim [OF 1(1)])
  have aa: "a' = a" using a'(1) 1(3) by simp
  have "v = Ecdsa tx (account_nonce s a) sig" using a'(2) 1(2) by (simp add: aa)
  moreover have "(if fee_of E v = 0 then native s1 = native s else bal_withdraw E a (fee_of E v) (native s) = Inr (native s1)) \<and>
      s1 = s\<lparr>account_nonce := (account_nonce s)(a := account_nonce s a + 1), native := native s1\<rparr>"
    using a'(3) by (auto simp: aa inc_account_nonce_def)
  moreover have "case disp tx a s1 of
       Inl e \<Rightarrow> e \<noteq> Panicked \<and> s' = deposit_event (AgentEv (ExternalTransactionExecuted a (Inl e))) s1
     | Inr s2 \<Rightarrow> s' = deposit_event (AgentEv (ExternalTransactionExecuted a (Inr ()))) s2"
    using 1(4,5) by (auto split: sum.splits)
  ultimately show ?thesis using 1(3) by blast
qed

text \<open>
  C39: A submitted transaction that is applied carries a signature that recovers to an account, and its
  nonce is the one of this account. The account pays exactly the fee of the transaction and its
  nonce goes up by one, whether the call succeeds or not; the call runs with this account as its origin, on the
  state after the fee; a failing call is recorded in the event and has no other effect.\<close>
theorem external_tx_charged:
  assumes "apply_external E disp v s = Inr s'"
  shows "\<exists>a tx sig b s1. v = Ecdsa tx (account_nonce s a) sig \<and> extract_account E v = Inr a \<and>
    (if fee_of E v = 0 then b = native s else bal_withdraw E a (fee_of E v) (native s) = Inr b) \<and>
    s1 = s\<lparr>account_nonce := (account_nonce s)(a := account_nonce s a + 1), native := b\<rparr> \<and>
    (case disp tx a s1 of
       Inl e \<Rightarrow> e \<noteq> Panicked \<and> s' = deposit_event (AgentEv (ExternalTransactionExecuted a (Inl e))) s1
     | Inr s2 \<Rightarrow> s' = deposit_event (AgentEv (ExternalTransactionExecuted a (Inr ()))) s2)"
  by (rule apply_effect [OF assms])

text \<open>A sample runtime: a call pays somebody, a signature carries the public key, a weight is a number. A
  transaction costs 15.\<close>

type_synonym pay_call = "account \<times> u128"

definition agt_env :: "(sample_bal, pay_call, nat) agent_env" where
  "agt_env = env.extend (sample_env ())
     (agent_env.fields (\<lambda>(n, w, v). to_le_bytes 8 n @ w) (\<lambda>(salt, net, addr). addr) (\<lambda>bs. bs) (\<lambda>bs. bs)
        (\<lambda>sig d. Some sig) (\<lambda>bs. bs) (\<lambda>bs. Some bs) (\<lambda>_. \<lparr>info_weight = 3, info_class = Normal\<rparr>) (\<lambda>_. 10)
        min (<) (div) of_nat of_nat 1 1 1000 (\<lambda>_. 2) 100 sb_burn)"

definition pay_disp :: "pay_call \<Rightarrow> account \<Rightarrow> sample_bal system \<Rightarrow> sample_bal system result" where
  "pay_disp c a s = (case c of (b, v) \<Rightarrow> rbind (sb_transfer a b v (native s)) (\<lambda>n. Inr (s\<lparr>native := n\<rparr>)))"

definition a0 :: "sample_bal system" where
  "a0 = \<lparr>block_number = 1, account_nonce = (\<lambda>_. 0), events = [], native = ((\<lambda>_. (1000, 0)), 2000)\<rparr>"

definition alice_tx :: "u64 \<Rightarrow> pay_call external_verifiable" where
  "alice_tx n = Ecdsa (bob, 100) n (replicate 12 0 @ alice)"

lemma agt_env_simps [simp]:
  "ecdsa_recover agt_env = (\<lambda>sig d. Some sig)" "keccak_256 agt_env = (\<lambda>bs. bs)" "hash_blake2_256 agt_env = (\<lambda>bs. bs)"
  "encode_identity agt_env = (\<lambda>(salt, net, addr). addr)" "decode_account agt_env = (\<lambda>bs. Some bs)"
  "get_dispatch_info agt_env = (\<lambda>_. \<lparr>info_weight = 3, info_class = Normal\<rparr>)" "encoded_size agt_env = (\<lambda>_. 10)"
  "weight_min agt_env = min" "weight_any_lt agt_env = (<)" "weight_div agt_env = (div)" "WeightToFee agt_env = of_nat"
  "TransactionByteFee agt_env = 1" "max_block agt_env = 1000" "base_extrinsic agt_env = (\<lambda>_. 2)"
  "max_normal_length agt_env = 100" "bal_withdraw agt_env = sb_burn" "ref_time agt_env = of_nat"
  by (simp_all add: agt_env_def env.defs agent_env.defs sample_env_def)

lemma alice_signs: "extract_account agt_env (alice_tx n) = Inr alice"
  by (simp add: alice_tx_def)

lemma alice_fee: "fee_of agt_env (alice_tx n) = 15"
  by (simp add: fee_of_def alice_tx_def compute_fee_def weight_to_fee_def saturating_mul_def saturating_add_def)

definition a1 :: "sample_bal system" where
  "a1 = \<lparr>block_number = 1, account_nonce = (\<lambda>_. 0)(alice := 1),
     events = [AgentEv (ExternalTransactionExecuted alice (Inr ()))],
     native = ((\<lambda>_. (1000, 0))(alice := (885, 0), bob := (1100, 0)), 1985)\<rparr>"

lemma alice_applied: "apply_external agt_env pay_disp (alice_tx 0) a0 = Inr a1"
proof -
  let ?s1 = "\<lparr>block_number = 1, account_nonce = (\<lambda>_. 0)(alice := 1), events = [],
     native = ((\<lambda>_. (1000, 0))(alice := (985, 0)), 1985)\<rparr> :: sample_bal system"
  have "validate_unsigned agt_env (Submit (alice_tx 0)) a0
      = Inr (\<lparr>priority = 3, provides = alice, longevity = 5, propagate = True\<rparr>, ?s1)"
    using alice_fee [of 0]
    by (simp add: validate_unsigned_def alice_signs a0_def inc_account_nonce_def withdraw_fee_def sb_burn_def sb_free_def
        sb_reserved_def sb_put_def fee_of_def) (simp add: alice_tx_def)
  moreover have "submit_external_tx agt_env pay_disp NoOrigin (alice_tx 0) ?s1 = Inr a1"
    using alice_signs [of 0]
    by (simp add: submit_external_tx_def alice_tx_def pay_disp_def sb_transfer_def sb_free_def sb_reserved_def sb_put_def
        checked_add_def caught_def deposit_event_def a1_def fun_eq_iff)
  ultimately show ?thesis by (simp add: apply_external_def)
qed

theorem external_tx_charged_witness:
  "apply_external agt_env pay_disp (alice_tx 0) a0 = Inr a1 \<and>
   (\<exists>b. bal_withdraw agt_env alice 15 (native a0) = Inr b \<and> sb_free b alice = 985)"
proof -
  have f: "fee_of agt_env (alice_tx 0) \<noteq> 0" by (simp add: alice_fee)
  from external_tx_charged [OF alice_applied]
  have "\<exists>b. bal_withdraw agt_env alice (fee_of agt_env (alice_tx 0)) (native a0) = Inr b"
    using f alice_signs [of 0] by auto
  then show ?thesis using alice_applied
    by (auto simp: alice_fee sb_burn_def a0_def sb_free_def sb_reserved_def sb_put_def)
qed

section \<open>Replay\<close>










end
