(* ===== verification/Fuso_Runtime.thy ===== *)
theory Fuso_Runtime
  imports Fuso_Bridge_Laws Fuso_Verifier_Steps
begin

text \<open>
  The runtime that composes the pallets, as the mock runtime of the bridge handler does
  (\<^verbatim>\<open>pallet-chainbridge-handler/src/mock.rs\<close>): one type of calls over all pallets, which is at the
  same time the type of the callbacks that the verifier keeps in its receipts and of the proposals
  that the relayers of the bridge vote on. So the dispatch of a call may dispatch other calls, which
  the verifier had stored before or which a proposal carries. The mock runtime stubs two
  interfaces of the verifier pallet: it sets \<^verbatim>\<open>Indicator = ()\<close> and \<^verbatim>\<open>Rewarding = PhantomData\<close>, so that prices and
  trading rewards are dropped. Here they are the indicator and the reward pallet, as in a full runtime, and the two
  calls of the latter join the others. The calls of
  the system and balances pallets, which are not part of the repository, are left out: moving native
  coins is also a call of the token pallet.
\<close>

section \<open>The calls of the runtime\<close>

datatype tok_call =
    Call_issue xtoken
  | Call_mark_stable token_id
  | Call_transfer token_id bytes u128
  | Call_associate_token chain_id bytes token_id

datatype rwd_call =
    Call_take_reward
  | Call_set_era_rewards u128

datatype cbt_call =
    Call_native_limit bool
  | Call_transfer_out u128 resource_id bytes chain_id
  | Call_transfer_in account u128 resource_id
  | Call_associate_dominator u8 account
  | Call_remark bytes bytes resource_id

datatype rt_call =
    Assets tok_call
  | Reward rwd_call
  | Bridge "rt_call brg_call"
  | Verifier "rt_call vrf_call"
  | ChainBridgeTransfer cbt_call

type_synonym 'b rt_chain = "('b, rt_call, rt_call) handler_chain"

section \<open>Dispatch\<close>

fun tok_dispatch ::
  "('b, 'x) token_env_scheme \<Rightarrow> origin \<Rightarrow> tok_call \<Rightarrow> ('b, 'z) token_chain_scheme \<Rightarrow> ('b, 'z) token_chain_scheme result" where
  "tok_dispatch E orig (Call_issue info) s = issue E orig info s"
| "tok_dispatch E orig (Call_mark_stable t) s = mark_stable orig t s"
| "tok_dispatch E orig (Call_transfer t target v) s = transfer E orig t target v s"
| "tok_dispatch E orig (Call_associate_token c contr t) s = associate_token E orig c contr t s"

fun rwd_dispatch ::
  "('b, 'x) reward_env_scheme \<Rightarrow> origin \<Rightarrow> rwd_call \<Rightarrow> ('b, 'z) reward_chain_scheme \<Rightarrow> ('b, 'z) reward_chain_scheme result" where
  "rwd_dispatch E orig Call_take_reward s = take_reward E orig s"
| "rwd_dispatch E orig (Call_set_era_rewards v) s = set_era_rewards orig v s"

fun cbt_dispatch ::
  "('b, 'x) handler_env_scheme \<Rightarrow> origin \<Rightarrow> cbt_call
    \<Rightarrow> ('b, 'c, 'p, 'z) handler_chain_scheme \<Rightarrow> ('b, 'c, 'p, 'z) handler_chain_scheme result" where
  "cbt_dispatch E orig (Call_native_limit v) s = native_limit orig v s"
| "cbt_dispatch E orig (Call_transfer_out v rid recipient dest) s = transfer_out E orig v rid recipient dest s"
| "cbt_dispatch E orig (Call_transfer_in dest v rid) s = transfer_in E orig dest v rid s"
| "cbt_dispatch E orig (Call_associate_dominator i d) s = associate_dominator E orig i d s"
| "cbt_dispatch E orig (Call_remark msg dep rid) s = remark E orig msg dep rid s"

text \<open>One level of the dispatcher: \<open>disp\<close> dispatches the callbacks and the approved proposals.\<close>

fun rt_body ::
  "('b, 'x) handler_env_scheme \<Rightarrow> (rt_call \<Rightarrow> account \<Rightarrow> 'b rt_chain \<Rightarrow> 'b rt_chain result)
    \<Rightarrow> origin \<Rightarrow> rt_call \<Rightarrow> 'b rt_chain \<Rightarrow> 'b rt_chain result" where
  "rt_body E disp orig (Assets c) s = tok_dispatch E orig c s"
| "rt_body E disp orig (Reward c) s = rwd_dispatch E orig c s"
| "rt_body E disp orig (Bridge c) s = brg_dispatch E disp orig c s"
| "rt_body E disp orig (Verifier c) s = vrf_dispatch E disp orig c s"
| "rt_body E disp orig (ChainBridgeTransfer c) s = cbt_dispatch E orig c s"

text \<open>The dispatcher, up to a depth of nested calls. A callback and a proposal run with the account that
  the pallet hands over as their signed origin.\<close>

fun rt_dispatch ::
  "('b, 'x) handler_env_scheme \<Rightarrow> nat \<Rightarrow> origin \<Rightarrow> rt_call \<Rightarrow> 'b rt_chain \<Rightarrow> 'b rt_chain result" where
  "rt_dispatch E 0 orig c s = Inl (OtherE ''depth of nested calls'')"
| "rt_dispatch E (Suc n) orig c s = rt_body E (\<lambda>cb w. rt_dispatch E n (Signed w) cb) orig c s"

text \<open>How deep calls can nest: a call that carries another one is one deeper, and verifying proofs can
  run every callback that the receipts hold. \<open>rt_execute\<close> grants that depth.\<close>

fun call_weight :: "rt_call \<Rightarrow> nat" where
  "call_weight (Verifier (Call_revoke_with_callback _ _ _ cb)) = Suc (call_weight cb)"
| "call_weight (Bridge (Acknowledge_proposal _ _ _ _ p)) = Suc (call_weight p)"
| "call_weight (Bridge (Reject_proposal _ _ _ p)) = Suc (call_weight p)"
| "call_weight (Bridge (Eval_vote_state _ _ p)) = Suc (call_weight p)"
| "call_weight _ = 0"

fun receipt_weight :: "rt_call receipt \<Rightarrow> nat" where
  "receipt_weight (RevokeWithCallback _ _ _ cb) = Suc (call_weight cb)"
| "receipt_weight _ = 0"

definition pending_weight :: "('b, rt_call, 'z) verifier_chain_scheme \<Rightarrow> nat" where
  "pending_weight s = msum receipt_weight (Receipts s)"

definition rt_execute ::
  "('b, 'x) handler_env_scheme \<Rightarrow> origin \<Rightarrow> rt_call \<Rightarrow> 'b rt_chain \<Rightarrow> 'b rt_chain result" where
  "rt_execute E orig c s = rt_dispatch E (Suc (call_weight c + pending_weight s)) orig c s"

section \<open>The steps of the chain\<close>

text \<open>An extrinsic dispatches a call of the runtime with any origin; a new block runs the hook of the
  verifier; the system pallet counts the transactions of an account, and the pallet of balances moves
  native coins between accounts.\<close>

inductive rt_step :: "('b, 'x) handler_env_scheme \<Rightarrow> 'b rt_chain \<Rightarrow> 'b rt_chain \<Rightarrow> bool" for E where
  rt_extrinsic: "rt_execute E orig c s = Inr s' \<Longrightarrow> rt_step E s s'"
| rt_block: "on_initialize E n (s\<lparr>block_number := n\<rparr>) = Inr s' \<Longrightarrow> n = block_number s + 1 \<Longrightarrow> rt_step E s s'"
| rt_nonce: "rt_step E s (inc_account_nonce w s)"
| rt_balances: "bal_transfer E a b v (native s) = Inr m \<Longrightarrow> rt_step E s (s\<lparr>native := m\<rparr>)"

inductive_cases rt_stepE: "rt_step E s s'"

definition rt_genesis :: "'b rt_chain \<Rightarrow> bool" where
  "rt_genesis s \<longleftrightarrow> vrf_genesis s \<and> brg_genesis s"

inductive rt_reachable :: "('b, 'x) handler_env_scheme \<Rightarrow> 'b rt_chain \<Rightarrow> bool" for E where
  rt_start: "rt_genesis s \<Longrightarrow> rt_reachable E s"
| rt_next: "rt_reachable E s \<Longrightarrow> rt_step E s s' \<Longrightarrow> rt_reachable E s'"

end
