(* ===== verification/Fuso_Runtime_Laws.thy ===== *)
theory Fuso_Runtime_Laws
  imports Fuso_Runtime
begin

text \<open>
  Laws of the composed runtime. \<open>outer s\<close> is the storage of the bridge with the receipts of the
  verifier; most operations leave it alone. The verification of proofs removes receipts and runs
  callbacks: \<open>walk_verify_batch\<close> is the induction over it. From it follow the three laws of the
  dispatcher: it keeps the invariants of the verifier and of the bridge, it pays for what it dispatches
  later out of the weight of the call, and it only asks for callbacks below that weight.
\<close>

named_theorems outer_frame \<open>operations that leave the bridge and the receipts alone\<close>

section \<open>The storage of the bridge and the receipts\<close>

definition outer :: "('b, 'c, 'p, 'z) bridge_chain_scheme \<Rightarrow> _" where
  "outer s = (brg s, Receipts s)"

lemma outerD:
  assumes "outer s' = outer s"
  shows "brg s' = brg s" "Receipts s' = Receipts s"
  using assms by (simp_all add: outer_def)

lemma outer_deposit [simp]:
  "(\<And>c. deposit_nonce_of c e = []) \<Longrightarrow> approval_of e = [] \<Longrightarrow> outer (deposit_event e s) = outer s"
  by (simp add: outer_def)

lemma outer_updates [simp]:
  "outer (s\<lparr>native := b\<rparr>) = outer s" "outer (store_account k a s) = outer s"
  "outer (s\<lparr>Tokens := ts\<rparr>) = outer s" "outer (s\<lparr>NextTokenId := n\<rparr>) = outer s"
  "outer (s\<lparr>TokenByName := tn\<rparr>) = outer s" "outer (s\<lparr>TokenByContract := tc\<rparr>) = outer s"
  "outer (s\<lparr>Rewards := rw\<rparr>) = outer s" "outer (s\<lparr>EraRewards := er\<rparr>) = outer s" "outer (s\<lparr>Volumes := vl\<rparr>) = outer s"
  "outer (s\<lparr>OnChainPrices := pr\<rparr>) = outer s" "outer (s\<lparr>block_number := bn\<rparr>) = outer s"
  by (simp_all add: outer_def brg_def store_account_def)

lemma outer_updates2 [simp]:
  "outer (s\<lparr>Dominators := d\<rparr>) = outer s" "outer (s\<lparr>DominatorSettings := ds\<rparr>) = outer s"
  "outer (s\<lparr>Brokers := br\<rparr>) = outer s" "outer (s\<lparr>Reserves := rs\<rparr>) = outer s" "outer (s\<lparr>Bonuses := bo\<rparr>) = outer s"
  "outer (s\<lparr>Stakings := sk\<rparr>) = outer s" "outer (s\<lparr>PendingUnstakings := pu\<rparr>) = outer s"
  "outer (s\<lparr>account_nonce := an\<rparr>) = outer s"
  by (simp_all add: outer_def brg_def)

lemma outer_puts [simp]:
  "outer (put_dominator a d s) = outer s" "outer (put_reserve k v s) = outer s" "outer (put_staking q t s) = outer s"
  "outer (put_setting a st s) = outer s" "outer (store_reward w r s) = outer s" "outer (inc_account_nonce w s) = outer s"
  "outer (put_profit a n tk b s) = outer s" "outer (set_price E tk x y at s) = outer s"
  by (simp_all add: put_dominator_def put_reserve_def put_staking_def put_setting_def store_reward_def inc_account_nonce_def
      put_profit_def set_price_def Let_def)

lemma brg_put_receipt [simp]: "brg (put_receipt k r s) = brg s"
  by (simp add: brg_def put_receipt_def)

lemma outer_transfer_token [outer_frame]: "transfer_token E a t v b s = Inr s' \<Longrightarrow> outer s' = outer s"
  by (auto simp: transfer_token_def Let_def res_simps split: if_splits)

lemma outer_mutate [outer_frame]:
  assumes "try_mutate_account E t w f s = Inr s'" and "\<And>b p s1. f b s = Inr (p, s1) \<Longrightarrow> outer s1 = outer s"
  shows "outer s' = outer s"
proof -
  from assms(1) have "\<exists>b p s1. f b s = Inr (p, s1) \<and> outer s' = outer s1"
    by (cases "t = native_token_id E") (force simp: try_mutate_account_def Let_def res_simps)+
  with assms(2) show ?thesis by metis
qed

lemma outer_reserve [outer_frame]: "reserve E i w t v d s = Inr s' \<Longrightarrow> outer s' = outer s"
  by (auto simp: reserve_def token_reserve_def Let_def res_simps split: if_splits)

lemma outer_unreserve [outer_frame]: "unreserve E i w t v d s = Inr s' \<Longrightarrow> outer s' = outer s"
  by (auto simp: unreserve_def token_unreserve_def Let_def res_simps split: if_splits)

lemma outer_rotate [outer_frame]: "rotate_reward E at vol w s = Inr (c, s') \<Longrightarrow> outer s' = outer s"
  by (auto simp: rotate_reward_def Let_def res_simps split: if_splits)

lemma outer_save_trading [outer_frame]: "save_trading E w vol at s = Inr s' \<Longrightarrow> outer s' = outer s"
  by (auto simp: save_trading_def res_simps dest!: outer_rotate split: if_splits)

lemma outer_clear [outer_frame]: "clear E w d t b s = Inr s' \<Longrightarrow> outer s' = outer s"
  by (auto simp: clear_def Let_def res_simps dest!: outer_mutate split: option.splits)

lemma outer_clear_user [outer_frame]: "clear_user E d b q m s = Inr s' \<Longrightarrow> outer s' = outer s"
  by (auto simp: clear_user_def res_simps dest!: outer_frame)

lemma outer_clear_users: "rfold (clear_user E d b q) ms s = Inr s' \<Longrightarrow> outer s' = outer s"
  by (induction ms arbitrary: s) (auto simp: res_simps dest!: outer_clear_user)

lemma outer_pay_shares: "rfold (pay_share E w) ps s = Inr s' \<Longrightarrow> outer s' = outer s"
  by (induction ps arbitrary: s) (auto simp: res_simps pay_share_def dest!: outer_mutate)

lemma outer_take_shares [outer_frame]: "take_shares E w d ds s = Inr (n, s') \<Longrightarrow> outer s' = outer s"
  by (auto simp: take_shares_def res_simps dest!: outer_pay_shares split: if_splits)

lemma outer_settle [outer_frame]: "settle E d n b q cr tr s = Inr (tr', s') \<Longrightarrow> outer s' = outer s"
  by (auto simp: settle_def Let_def res_simps dest!: outer_clear_users outer_mutate split: if_splits)

lemma outer_step_forward [outer_frame]: "step_forward d p (t, s) = Inr (t', s') \<Longrightarrow> outer s' = outer s"
  by (auto simp: step_forward_def res_simps)

lemma outer_set_prices [simp]: "outer (set_prices E incr s) = outer s"
proof -
  have "outer (fold (\<lambda>(t, b, q) u. set_price E t b q at u) incr s) = outer s" for at
    by (induction incr arbitrary: s) auto
  then show ?thesis by (simp add: set_prices_def)
qed

section \<open>The verification of proofs\<close>

text \<open>What happens between two callbacks: receipts disappear, the bridge stays.\<close>

definition shrinks :: "('b, 'c, 'p, 'z) bridge_chain_scheme \<Rightarrow> ('b, 'c, 'p, 'z) bridge_chain_scheme \<Rightarrow> bool" where
  "shrinks s s' \<longleftrightarrow> brg s' = brg s \<and> Receipts s' \<subseteq>\<^sub>m Receipts s"

text \<open>A state \<open>s1\<close> in which the callback \<open>cb\<close> runs: its receipt is gone.\<close>

definition calls_back ::
  "('b, 'c, 'p, 'z) bridge_chain_scheme \<Rightarrow> 'c \<Rightarrow> ('b, 'c, 'p, 'z) bridge_chain_scheme \<Rightarrow> bool" where
  "calls_back s cb s1 \<longleftrightarrow> (\<exists>k t a n. Receipts s k = Some (RevokeWithCallback t a n cb) \<and>
     brg s1 = brg s \<and> Receipts s1 = (Receipts s)(k := None))"

lemma shrinks_outer: "outer s' = outer s \<Longrightarrow> shrinks s s'"
  by (simp add: outer_def shrinks_def)

lemma shrinks_refl [simp]: "shrinks s s" by (simp add: shrinks_def)

lemma shrinks_trans: "shrinks s s1 \<Longrightarrow> shrinks s1 s2 \<Longrightarrow> shrinks s s2"
  unfolding shrinks_def using map_le_trans by metis

lemma shrinks_put_None: "shrinks s (put_receipt k None s)"
  by (auto simp: shrinks_def map_le_def)

lemma shrinks_transfer_in: "handle_transfer_in d c v p s = Inr s' \<Longrightarrow> shrinks s s'"
  by (auto simp: handle_transfer_in_def Let_def res_simps shrinks_def map_le_def brg_def put_receipt_def put_reserve_def
      split: if_splits)

lemma shrinks_reject_out: "handle_reject_transfer_out d c v p s = Inr s' \<Longrightarrow> shrinks s s'"
  using shrinks_put_None by (auto simp: handle_reject_transfer_out_def res_simps)

lemma shrinks_reject_in: "handle_reject_transfer_in d p s = Inr s' \<Longrightarrow> shrinks s s'"
  using shrinks_put_None by (auto simp: handle_reject_transfer_in_def res_simps split: option.splits receipt.splits)

lemma calls_back_out:
  assumes "Receipts s k = Some (RevokeWithCallback t a n cb)" "unreserve E i w c v d s = Inr s1"
  shows "calls_back s cb (put_receipt k None s1)"
  using assms(1) outerD [OF outer_unreserve [OF assms(2)]]
  unfolding calls_back_def by (intro exI [of _ k] exI [of _ t] exI [of _ a] exI [of _ n]) simp

lemma shrinks_update:
  assumes "verify_and_update E disp d root at p s = Inr (tr, s')" "\<And>c v. cmd p \<noteq> TransferOut c v"
  shows "shrinks s s'"
proof -
  note defs = verify_and_update_def Let_def res_simps
  have settled: "shrinks s s'" if "settle E d n b q cr t0 s = Inr ts" "step_forward d p ts = Inr (tr, s')" for n b q cr t0 ts
  proof (cases ts)
    case (Pair t1 s1)
    with that have "outer s1 = outer s" "outer s' = outer s1" by (auto dest: outer_settle outer_step_forward)
    then show ?thesis by (simp add: shrinks_outer)
  qed
  have forward: "shrinks s s'" if "shrinks s s1" "step_forward d p (t0, s1) = Inr (tr, s')" for s1 t0
    using that shrinks_trans [OF that(1) shrinks_outer [OF outer_step_forward]] by blast
  show ?thesis
  proof (cases "cmd p")
    case (TransferOut c v)
    with assms(2) show ?thesis by blast
  next
    case (TransferIn c v)
    with assms(1) show ?thesis using forward [OF shrinks_transfer_in] by (auto simp: defs)
  next
    case (RejectTransferOut c v)
    with assms(1) show ?thesis using shrinks_reject_out by (auto simp: defs)
  next
    case RejectTransferIn
    with assms(1) show ?thesis using shrinks_reject_in by (auto simp: defs)
  qed (use assms(1) settled forward [OF shrinks_refl] in \<open>auto simp: defs\<close>)
qed

text \<open>A property that survives the disappearance of receipts and the callbacks survives a whole batch.
  A second dispatcher that agrees on the callbacks that run makes the same batch.\<close>

locale callback_walk =
  fixes E :: "('b, 'x) verifier_env_scheme"
    and disp :: "'c \<Rightarrow> account \<Rightarrow> ('b, 'c, 'p, 'z) bridge_chain_scheme \<Rightarrow> ('b, 'c, 'p, 'z) bridge_chain_scheme result"
    and P :: "('b, 'c, 'p, 'z) bridge_chain_scheme \<Rightarrow> bool"
  assumes walk_shrinks: "shrinks s s' \<Longrightarrow> P s \<Longrightarrow> P s'"
    and walk_run: "P s \<Longrightarrow> calls_back s cb s1 \<Longrightarrow> disp cb w s1 = Inr s' \<Longrightarrow> P s'"
begin

lemma walk_transfer_out:
  assumes "P s" "handle_transfer_out E disp d c v p s = Inr s'"
  shows "P s'"
  using assms(2)
proof (cases rule: transfer_out_elim)
  case (1 r s1)
  from 1(5) show ?thesis
  proof (elim disjE exE conjE)
    assume "s' = put_receipt (d, user_id p) None s1"
    then show ?thesis
      using walk_shrinks [OF shrinks_trans [OF shrinks_outer [OF outer_unreserve [OF 1(4)]] shrinks_put_None] assms(1)] by simp
  next
    fix t a n cb
    assume r: "r = RevokeWithCallback t a n cb" and run: "disp cb (user_id p) (put_receipt (d, user_id p) None s1) = Inr s'"
    show ?thesis by (rule walk_run [OF assms(1) calls_back_out [OF 1(1) [unfolded r] 1(4)] run])
  qed
qed

lemma walk_update:
  assumes "P s" "verify_and_update E disp d root at p s = Inr (tr, s')"
  shows "P s'"
proof (cases "\<exists>c v. cmd p = TransferOut c v")
  case True
  then obtain c v where "cmd p = TransferOut c v" by blast
  with assms(2) obtain s1 t0 where "handle_transfer_out E disp d c v p s = Inr s1" "step_forward d p (t0, s1) = Inr (tr, s')"
    by (auto simp: verify_and_update_def Let_def res_simps)
  then show ?thesis using walk_shrinks [OF shrinks_outer [OF outer_step_forward] walk_transfer_out [OF assms(1)]] by blast
next
  case False
  then show ?thesis using walk_shrinks [OF shrinks_update [OF assms(2)] assms(1)] by blast
qed

lemma walk_verify_batch:
  assumes "P s" "verify_batch E disp d D ps s = Inr s'"
  shows "P s'"
proof -
  from assms(2) obtain root incr s1 where
    run: "rfold (verify_one E disp d (d_start_from D)) ps (d_merkle_root D, [], s) = Inr (root, incr, s1)"
    and s': "s' = set_prices E incr s1" by (auto simp: verify_batch_def res_simps)
  have "P (snd (snd (root, incr, s1)))"
    by (rule rfold_invariant [OF run, where P = "\<lambda>a. P (snd (snd a))"])
      (use assms(1) walk_update in \<open>auto simp: verify_one_def res_simps split: prod.splits\<close>)
  then show ?thesis using walk_shrinks [OF shrinks_outer [OF outer_set_prices]] by (simp add: s')
qed

lemma walk_cong:
  assumes agree: "\<And>s cb w s1. P s \<Longrightarrow> calls_back s cb s1 \<Longrightarrow> disp' cb w s1 = disp cb w s1" and "P s"
  shows "verify_batch E disp' d D ps s = verify_batch E disp d D ps s"
proof -
  have out: "handle_transfer_out E disp' d c v p u = handle_transfer_out E disp d c v p u" if "P u" for c v p u
  proof -
    have "disp' cb (user_id p) (put_receipt (d, user_id p) None s1) = disp cb (user_id p) (put_receipt (d, user_id p) None s1)"
      if "Receipts u (d, user_id p) = Some (RevokeWithCallback t a n cb)" "unreserve E i w c v d u = Inr s1" for t a n cb s1 i w
      by (rule agree [OF \<open>P u\<close> calls_back_out [OF that]])
    then show ?thesis unfolding handle_transfer_out_def Let_def ensure_def
      by (intro rbind_cong refl if_cong) (auto simp: ok_or_eq_Inr split: receipt.splits)
  qed
  have upd: "verify_and_update E disp' d root at p u = verify_and_update E disp d root at p u" if "P u" for root at p u
    unfolding verify_and_update_def out [OF that] ..
  have "rfold (verify_one E disp' d at) ps (root, incr, u) = rfold (verify_one E disp d at) ps (root, incr, u)"
    if "P u" for at root incr u
    using that
  proof (induction ps arbitrary: root incr u)
    case (Cons p ps)
    show ?case
    proof (cases "verify_and_update E disp d root at p u")
      case (Inr x)
      obtain tr u1 where x: "x = (tr, u1)" by (cases x)
      have "P u1" using walk_update [OF Cons.prems] Inr by (simp add: x)
      with Cons.IH show ?thesis by (simp add: verify_one_def upd [OF Cons.prems] Inr x)
    qed (simp add: verify_one_def upd [OF Cons.prems])
  qed simp
  from this [OF assms(2)] show ?thesis by (simp add: verify_batch_def)
qed

end

end
