(* ===== verification/Fuso_Runtime_Inv.thy ===== *)
theory Fuso_Runtime_Inv
  imports Fuso_Runtime_Laws
begin

text \<open>
  The dispatcher of the composed runtime keeps the invariants of its pallets: \<open>vrf_inv\<close> of the verifier
  and \<open>bridge_inv\<close> of the bridge, with ballots that only evolve. Each is proved for one level of the
  dispatcher, with what the nested dispatch keeps as the premise, and then for every depth.
\<close>

section \<open>What the bridge and the handler do to the verifier\<close>

text \<open>All of the state that the verifier's invariant depends on.\<close>

definition inner :: "('b, 'c, 'z) verifier_chain_scheme \<Rightarrow> _" where
  "inner s = (own s, native s, Balances s)"

lemma innerD:
  assumes "inner s' = inner s"
  shows "own s' = own s" "native s' = native s" "Balances s' = Balances s" "Receipts s' = Receipts s"
    "reserved_balance E s' = reserved_balance E s"
  using assms ownD(1) [of s' s] balance_of_same(2) [of s' s] by (simp_all add: inner_def)

lemma inner_deposit [simp]: "inner (deposit_event e s) = inner s"
  by (simp add: inner_def)

lemma inner_bridge [simp]:
  "inner (s\<lparr>ChainNonces := a\<rparr>) = inner s" "inner (s\<lparr>RelayerThreshold := b\<rparr>) = inner s"
  "inner (s\<lparr>Relayers := c\<rparr>) = inner s" "inner (s\<lparr>RelayerCount := d\<rparr>) = inner s"
  "inner (s\<lparr>Votes := e\<rparr>) = inner s" "inner (s\<lparr>Resources := f\<rparr>) = inner s"
  by (simp_all add: inner_def own_def)

lemma inner_handler [simp]:
  "inner (s\<lparr>NativeCheck := g\<rparr>) = inner s" "inner (s\<lparr>AssociatedDominator := h\<rparr>) = inner s"
  by (simp_all add: inner_def own_def)

lemma brg_handler [simp]:
  "brg (s\<lparr>NativeCheck := g\<rparr>) = brg s" "brg (s\<lparr>AssociatedDominator := h\<rparr>) = brg s"
  by (simp_all add: brg_def)

lemma inner_transfer_fungible: "transfer_fungible c rid to' amt s = Inr s' \<Longrightarrow> inner s' = inner s"
  by (auto simp: transfer_fungible_def bump_nonce_def Let_def res_simps)

lemma inner_admin:
  "set_relayer_threshold t s = Inr s' \<Longrightarrow> inner s' = inner s"
  "register_resource rid m s = Inr s' \<Longrightarrow> inner s' = inner s"
  "unregister_resource rid s = Inr s' \<Longrightarrow> inner s' = inner s"
  "whitelist E c s = Inr s' \<Longrightarrow> inner s' = inner s"
  "register_relayer w s = Inr s' \<Longrightarrow> inner s' = inner s"
  "unregister_relayer w s = Inr s' \<Longrightarrow> inner s' = inner s"
  by (auto simp: set_relayer_threshold_def register_resource_def unregister_resource_def whitelist_def
      register_relayer_def unregister_relayer_def res_simps)

lemma inner_commit_vote: "commit_vote E w nonce src p fav s = Inr s' \<Longrightarrow> inner s' = inner s"
  by (erule commit_vote_elim) simp

text \<open>The proposal that a call of the bridge carries.\<close>

fun carried :: "'p brg_call \<Rightarrow> 'p option" where
  "carried (Acknowledge_proposal _ _ _ _ p) = Some p"
| "carried (Reject_proposal _ _ _ p) = Some p"
| "carried (Eval_vote_state _ _ p) = Some p"
| "carried _ = None"

lemma carried_weight: "carried c = Some p \<Longrightarrow> call_weight p < call_weight (Bridge c)"
  by (cases c) auto

text \<open>A call of the bridge leaves the verifier alone, up to one dispatch of the proposal it carries.\<close>

lemma resolve_inner:
  assumes "try_resolve_proposal E pd nonce src p s = Inr s'"
  shows "inner s' = inner s \<or>
    (\<exists>s1 s2. inner s1 = inner s \<and> pd p (bridge_account E) s1 = Inr s2 \<and> inner s' = inner s2)"
  using assms
proof (cases rule: try_resolve_elim)
  case (1 v st v' s1)
  have s1: "inner s1 = inner s" by (simp add: 1(5))
  show ?thesis
  proof (cases st)
    case Approved
    from 1(6) [OF this] s1 show ?thesis by (metis inner_deposit)
  next
    case Rejected
    from 1(7) [OF this] s1 show ?thesis by simp
  next
    case Initiated
    from 1(8) [OF this] s1 show ?thesis by simp
  qed
qed

lemma brg_call_inner:
  assumes "brg_dispatch E pd orig c s = Inr s'"
  shows "inner s' = inner s \<or>
    (\<exists>p s1 s2. carried c = Some p \<and> inner s1 = inner s \<and> pd p (bridge_account E) s1 = Inr s2 \<and> inner s' = inner s2)"
proof -
  have vote: "inner s' = inner s \<or>
      (\<exists>s1 s2. inner s1 = inner s \<and> pd p (bridge_account E) s1 = Inr s2 \<and> inner s' = inner s2)"
    if "rbind (commit_vote E w nonce src p fav u) (try_resolve_proposal E pd nonce src p) = Inr s'" "inner u = inner s"
    for w nonce src p fav u
  proof -
    from that obtain u1 where "commit_vote E w nonce src p fav u = Inr u1" "try_resolve_proposal E pd nonce src p u1 = Inr s'"
      by (auto simp: res_simps)
    with resolve_inner [OF this(2)] inner_commit_vote [OF this(1)] that(2) show ?thesis by simp
  qed
  show ?thesis
  proof (cases c)
    case (Acknowledge_proposal n src rid h p)
    with assms obtain w where "rbind (commit_vote E w n src p True (deposit_event (BridgeEv (ProposalVote src h n)) s))
      (try_resolve_proposal E pd n src p) = Inr s'" by (auto simp: acknowledge_proposal_def vote_for_def res_simps)
    from vote [OF this] Acknowledge_proposal show ?thesis by simp
  next
    case (Reject_proposal n src rid p)
    with assms obtain w where "rbind (commit_vote E w n src p False s) (try_resolve_proposal E pd n src p) = Inr s'"
      by (auto simp: reject_proposal_def vote_against_def res_simps)
    from vote [OF this] Reject_proposal show ?thesis by simp
  next
    case (Eval_vote_state n src p)
    with assms have "try_resolve_proposal E pd n src p s = Inr s'" by (auto simp: eval_vote_state_def res_simps)
    from resolve_inner [OF this] Eval_vote_state show ?thesis by simp
  qed (use assms in \<open>auto simp: set_threshold_def set_resource_def remove_resource_def whitelist_chain_def
        add_relayer_def remove_relayer_def res_simps dest: inner_admin split: if_splits\<close>)
qed

text \<open>Minting and burning touch free balances only.\<close>

lemma mint_reserved:
  assumes "do_mint t w v s = Inr s'"
  shows "own s' = own s" "reserved_balance E s' = reserved_balance E s"
proof -
  have "own s' = own s \<and> reserved_balance E s' = reserved_balance E s"
  proof (cases "v = 0")
    case False
    obtain info u info' f where "s' = deposit_event (TokenEv (TokenMinted t w u))
      ((store_account (t, w) (Some (get_token_balance s (t, w)\<lparr>free := f\<rparr>)) s)\<lparr>Tokens := (Tokens s)(t := Some info')\<rparr>)"
      by (rule do_mint_elim [OF assms False])
    then show ?thesis
      by (simp add: own_def reserved_balance_def get_token_balance_def store_account_def deposit_event_def fun_eq_iff)
  qed (use assms in \<open>simp add: do_mint_def\<close>)
  then show "own s' = own s" "reserved_balance E s' = reserved_balance E s" by simp_all
qed

lemma burn_reserved:
  assumes "do_burn t w v s = Inr (n, s')"
  shows "own s' = own s" "reserved_balance E s' = reserved_balance E s" "brg s' = brg s"
proof -
  obtain info u info' acc f where acc: "Balances s (t, w) = Some acc" and s': "s' = deposit_event (TokenEv (TokenBurned t w u))
      ((store_account (t, w) (alive (acc\<lparr>free := f\<rparr>)) s)\<lparr>Tokens := (Tokens s)(t := Some info')\<rparr>)"
    by (rule do_burn_elim [OF assms])
  show "own s' = own s" "brg s' = brg s" by (simp_all add: s' own_def brg_def store_account_def deposit_event_def)
  have "reserved (get_token_balance s' k) = reserved (get_token_balance s k)" for k
    using acc by (simp add: s' get_token_balance_def store_account_def deposit_event_def alive_def default_account_def)
  moreover have "native s' = native s" by (simp add: s')
  ultimately show "reserved_balance E s' = reserved_balance E s" by (simp add: reserved_balance_def fun_eq_iff)
qed

section \<open>The verifier's invariant\<close>

lemma inv_inner:
  fixes s s' :: "('b, 'c, 'z) verifier_chain_scheme"
  assumes "vrf_inv E s" "inner s' = inner s"
  shows "vrf_inv E s'"
  by (rule inv_own [OF assms(1) innerD(1,5) [OF assms(2)]])

lemma inner_tokens [simp]:
  "inner (s\<lparr>Tokens := ts\<rparr>) = inner s" "inner (s\<lparr>NextTokenId := n\<rparr>) = inner s"
  "inner (s\<lparr>TokenByName := tn\<rparr>) = inner s" "inner (s\<lparr>TokenByContract := tc\<rparr>) = inner s"
  "inner (s\<lparr>EraRewards := er\<rparr>) = inner s" "inner (inc_account_nonce w s) = inner s"
  by (simp_all add: inner_def own_def inc_account_nonce_def)

lemma inner_create:
  assumes "create info s = Inr (tid, s')"
  shows "inner s' = inner s"
proof -
  from assms obtain info' m where "insert_token info' (s\<lparr>TokenByName := m\<rparr>) = Inr (tid, s')" by (rule create_insert)
  then have "s' = s\<lparr>TokenByName := m, NextTokenId := NextTokenId s + 1, Tokens := (Tokens s)(NextTokenId s := Some info')\<rparr>"
    by (auto simp: insert_token_def Let_def)
  then show ?thesis by (simp add: inner_def own_def)
qed

lemma outer_create [outer_frame]:
  assumes "create info s = Inr (tid, s')"
  shows "outer s' = outer s"
proof -
  from assms obtain info' m where "insert_token info' (s\<lparr>TokenByName := m\<rparr>) = Inr (tid, s')" by (rule create_insert)
  then have "s' = s\<lparr>TokenByName := m, NextTokenId := NextTokenId s + 1, Tokens := (Tokens s)(NextTokenId s := Some info')\<rparr>"
    by (auto simp: insert_token_def Let_def)
  then show ?thesis by (simp add: outer_def brg_def)
qed

lemma inv_native:
  assumes "vrf_inv E s" "\<And>w. bal_reserved E b w = bal_reserved E (native s) w"
  shows "vrf_inv E (s\<lparr>native := b\<rparr>)"
  by (rule inv_own [OF assms(1)]) (simp_all add: assms(2) reserved_balance_def get_token_balance_def fun_eq_iff)

lemma inv_tok_dispatch:
  assumes "balances_spec E" "burn_spec E" "vrf_inv E s" "tok_dispatch E orig c s = Inr s'"
  shows "vrf_inv E s'"
proof (cases c)
  case (Call_issue info)
  with assms(4) obtain w b tid s1 e where b: "bal_burn_from E w (BurnTAOwhenIssue E) (native s) = Inr b"
    and s1: "create info (s\<lparr>native := b\<rparr>) = Inr (tid, s1)" and s': "s' = deposit_event e s1"
    by (auto simp: issue_def res_simps)
  have "vrf_inv E (s\<lparr>native := b\<rparr>)"
    by (rule inv_native [OF assms(3)]) (use assms(2) b in \<open>simp add: burn_spec_def\<close>)
  then show ?thesis by (rule inv_inner) (simp add: s' inner_create [OF s1])
next
  case (Call_mark_stable t)
  with assms(3,4) show ?thesis by (auto simp: mark_stable_def res_simps intro: inv_inner)
next
  case (Call_transfer t target v)
  with assms(4) show ?thesis using inv_transfer [OF assms(1,3)] by (auto simp: transfer_def res_simps)
next
  case (Call_associate_token ch contr t)
  with assms(3,4) show ?thesis by (auto simp: associate_token_def res_simps intro: inv_inner)
qed

lemma inv_rwd_dispatch:
  assumes "balances_spec E" "vrf_inv E s" "rwd_dispatch E orig c s = Inr s'"
  shows "vrf_inv E s'"
  using assms(2,3) inv_take_reward [OF assms(1,2)]
  by (cases c) (auto simp: set_era_rewards_def res_simps intro: inv_inner)

lemma inv_transfer_out:
  assumes "balances_spec E" "vrf_inv E s" "transfer_out E orig v rid rcpt dest s = Inr s'"
  shows "vrf_inv E s'"
proof -
  from assms(3) obtain w where
    "do_lock E w v rid rcpt dest s = Inr s' \<or> do_burn_assets E w v rid rcpt dest s = Inr s'"
    by (auto simp: transfer_out_def res_simps split: if_splits)
  then show ?thesis
  proof
    assume "do_lock E w v rid rcpt dest s = Inr s'"
    then obtain t a a' b b' x s1 s2 where s1: "transfer_token E w t a b s = Inr s1" "transfer_token E w t a' b' s1 = Inr s2"
      and s': "transfer_fungible dest rid rcpt x s2 = Inr s'" by (auto simp: do_lock_def Let_def res_simps)
    have "vrf_inv E s2" by (rule inv_transfer [OF assms(1) inv_transfer [OF assms(1,2) s1(1)] s1(2)])
    then show ?thesis by (rule inv_inner [OF _ inner_transfer_fungible [OF s']])
  next
    assume "do_burn_assets E w v rid rcpt dest s = Inr s'"
    then obtain t a b x s1 s2 n where s1: "transfer_token E w t a b s = Inr s1"
      and s2: "do_burn t w x s1 = Inr (n, s2)" and s': "inner s' = inner s2"
      by (auto simp: do_burn_assets_def burn_from_def Let_def res_simps dest!: inner_transfer_fungible)
    have "vrf_inv E s2"
      by (rule inv_own [OF inv_transfer [OF assms(1,2) s1] burn_reserved(1,2) [OF s2]])
    then show ?thesis by (rule inv_inner [OF _ s'])
  qed
qed

lemma inv_authorize_in:
  assumes "balances_spec E" "vrf_inv E s"
  shows "authorize_native E w v rid s = Inr s' \<Longrightarrow> vrf_inv E s'"
    and "authorize_asset E w v rid s = Inr s' \<Longrightarrow> vrf_inv E s'"
  using assms(2) safe_inv [OF safe_authorize_to [OF assms(1)] assms(2)]
  by (auto simp: authorize_native_def authorize_asset_def res_simps split: option.splits)

lemma inv_donate:
  assumes "balances_spec E" "vrf_inv E s" "donate E w s = Inr s'"
  shows "vrf_inv E s'"
  using assms(2,3) inv_transfer [OF assms(1,2)] by (auto simp: donate_def res_simps split: if_splits)

lemma inv_transfer_in:
  assumes "balances_spec E" "vrf_inv E s" "transfer_in E orig w v rid s = Inr s'"
  shows "vrf_inv E s'"
  using assms(3)
proof (cases rule: transfer_in_elim)
  case (1 s1)
  then obtain u where "transfer_token E (bridge_account E) (native_token_id E) v w s = Inr u" "authorize_native E w v rid u = Inr s1"
    by (auto simp: do_unlock_def res_simps)
  with 1(4) show ?thesis
    using inv_donate [OF assms(1) inv_authorize_in(1) [OF assms(1) inv_transfer [OF assms(1,2)]]] by blast
next
  case (2 s1)
  then obtain t u where u: "do_mint t w v s = Inr u" "authorize_asset E w v rid u = Inr s1"
    by (auto simp: do_mint_assets_def mint_into_def res_simps)
  have "vrf_inv E u" by (rule inv_own [OF assms(2) mint_reserved [OF u(1)]])
  with u(2) 2(4) show ?thesis using inv_donate [OF assms(1) inv_authorize_in(2) [OF assms(1)]] by blast
qed

lemma inv_cbt_dispatch:
  assumes "balances_spec E" "vrf_inv E s" "cbt_dispatch E orig c s = Inr s'"
  shows "vrf_inv E s'"
  using assms(2,3) inv_transfer_out [OF assms(1,2)] inv_transfer_in [OF assms(1,2)]
  by (cases c) (auto simp: native_limit_def associate_dominator_def remark_def res_simps intro: inv_inner)

lemma inv_brg_dispatch:
  assumes "keeps disp (vrf_inv E)" "vrf_inv E s" "brg_dispatch E' disp orig c s = Inr s'"
  shows "vrf_inv E s'"
  using brg_call_inner [OF assms(3)]
proof (elim disjE exE conjE)
  assume "inner s' = inner s"
  then show ?thesis by (rule inv_inner [OF assms(2)])
next
  fix p s1 s2
  assume "inner s1 = inner s" "disp p (bridge_account E') s1 = Inr s2" "inner s' = inner s2"
  with assms(1,2) show ?thesis unfolding keeps_def using inv_inner by blast
qed

text \<open>One level of the dispatcher, and every level.\<close>

lemma rt_body_vrf_inv:
  assumes "balances_spec E" "burn_spec E" "keeps disp (vrf_inv E)" "vrf_inv E s" "rt_body E disp orig c s = Inr s'"
  shows "vrf_inv E s'"
  using assms(5) inv_tok_dispatch [OF assms(1,2,4)] inv_rwd_dispatch [OF assms(1,4)] inv_brg_dispatch [OF assms(3,4)]
    inv_call [OF assms(1,3,4)] inv_cbt_dispatch [OF assms(1,4)]
  by (cases c) auto

lemma rt_dispatch_vrf_inv:
  assumes "balances_spec E" "burn_spec E" "vrf_inv E s" "rt_dispatch E n orig c s = Inr s'"
  shows "vrf_inv E s'"
  using assms(3,4)
proof (induction n arbitrary: orig c s s')
  case (Suc n)
  have "keeps (\<lambda>cb w. rt_dispatch E n (Signed w) cb) (vrf_inv E)"
    unfolding keeps_def using Suc.IH by blast
  from rt_body_vrf_inv [OF assms(1,2) this] Suc.prems show ?case by simp
qed simp

section \<open>The calls of the verifier that dispatch nothing\<close>

lemma outer_stake_on [outer_frame]: "stake_on E w d v s = Inr s' \<Longrightarrow> outer s' = outer s"
  by (auto simp: stake_on_def stake_entry_def Let_def res_simps dest!: outer_reserve outer_take_shares split: if_splits)

lemma outer_add_pending [outer_frame]: "add_pending n w v s = Inr s' \<Longrightarrow> outer s' = outer s"
  by (auto simp: add_pending_def Let_def res_simps)

lemma outer_unstake_entry: "unstake_entry E w d v D s = Inr s' \<Longrightarrow> outer s' = outer s"
  by (auto simp: unstake_entry_def Let_def res_simps
      dest!: outer_reserve outer_unreserve outer_take_shares outer_add_pending)

lemma outer_unstake_from [outer_frame]: "unstake_from E w d v s = Inr s' \<Longrightarrow> outer s' = outer s"
  by (auto simp: unstake_from_def Let_def res_simps dest!: outer_unstake_entry)

lemma outer_claim_shares [outer_frame]: "claim_shares E orig target s = Inr s' \<Longrightarrow> outer s' = outer s"
  by (auto simp: claim_shares_def res_simps dest!: outer_take_shares)

lemma outer_merge_stash [outer_frame]: "merge_stash w t d s = Inr s' \<Longrightarrow> outer s' = outer s"
  by (auto simp: merge_stash_def Let_def res_simps split: if_splits)

lemma outer_register_broker [outer_frame]: "register_broker E orig e w s = Inr s' \<Longrightarrow> outer s' = outer s"
  by (auto simp: register_broker_def Let_def res_simps dest!: outer_transfer_token)

lemma outer_settings:
  "dominator_set_pubkey orig key s = Inr s' \<Longrightarrow> outer s' = outer s"
  "dominator_set_rpc_endpoint orig ep s = Inr s' \<Longrightarrow> outer s' = outer s"
  "broker_set_rpc_endpoint orig ep s = Inr s' \<Longrightarrow> outer s' = outer s"
  "register E orig name s = Inr s' \<Longrightarrow> outer s' = outer s"
  "evict E orig target s = Inr s' \<Longrightarrow> outer s' = outer s"
  "launch E orig target s = Inr s' \<Longrightarrow> outer s' = outer s"
  by (auto simp: dominator_set_pubkey_def dominator_set_rpc_endpoint_def
      broker_set_rpc_endpoint_def register_def evict_def launch_def Let_def res_simps)

lemma outer_beneficiary [outer_frame]: "dominator_set_beneficiary E orig w sig s = Inr s' \<Longrightarrow> outer s' = outer s"
  by (erule set_beneficiary_elim) auto

lemma authorize_to_receipts:
  assumes "authorize_to E w d t v s = Inr s'"
  shows "brg s' = brg s \<and> (\<exists>a n. Receipts s' = (Receipts s)((d, w) \<mapsto> Authorize t a n))"
proof -
  from assms obtain s1 n where "reserve E RESERVE_FOR_AUTHORIZING_STASH w t v d s = Inr s1"
    "s' = deposit_event (VerifierEv (TokenHosted w d t v)) (put_receipt (d, w) (Some (Authorize t v n)) s1)"
    by (auto simp: authorize_to_def res_simps)
  with outerD [OF outer_reserve [OF this(1)]] show ?thesis by auto
qed

lemma revoke_from_receipts:
  assumes "revoke_from E w d t v cb s = Inr s'"
  shows "brg s' = brg s \<and> (\<exists>r. Receipts s' = (Receipts s)((d, w) := r) \<and>
    (r = None \<or> (\<exists>n. r = Some (case cb of Some c \<Rightarrow> RevokeWithCallback t v n c | None \<Rightarrow> Revoke t v n))))"
proof -
  from assms obtain s3 where s': "s' = deposit_event (VerifierEv (TokenRevoked w d t v)) s3" and
    "(\<exists>s1 s2. merge_stash w t d s = Inr s1 \<and> unreserve E RESERVE_FOR_AUTHORIZING w t v d s1 = Inr s2 \<and>
        s3 = put_receipt (d, w) None s2) \<or>
     (\<exists>n. s3 = put_receipt (d, w) (Some (case cb of Some c \<Rightarrow> RevokeWithCallback t v n c | None \<Rightarrow> Revoke t v n)) s)"
    by (auto simp: revoke_from_def Let_def res_simps split: if_splits)
  then show ?thesis
  proof (elim disjE exE conjE)
    fix s1 s2
    assume "merge_stash w t d s = Inr s1" "unreserve E RESERVE_FOR_AUTHORIZING w t v d s1 = Inr s2"
      and s3: "s3 = put_receipt (d, w) None s2"
    then have "outer s2 = outer s" using outer_merge_stash outer_unreserve by metis
    from outerD [OF this] show ?thesis by (auto simp: s' s3)
  qed (auto simp: s')
qed

lemma vrf_call_quiet:
  assumes "vrf_dispatch E disp orig c s = Inr s'" "\<And>ps. c \<noteq> Call_verify ps" "\<And>bs. c \<noteq> Call_verify_compress bs"
  shows "brg s' = brg s \<and> (Receipts s' = Receipts s \<or>
    (\<exists>k r. Receipts s' = (Receipts s)(k := r) \<and> owt receipt_weight r \<le> call_weight (Verifier c)))"
proof (cases "outer s' = outer s")
  case True
  from outerD [OF this] show ?thesis by simp
next
  case False
  show ?thesis
  proof (cases c)
    case (Call_authorize target t v)
    with assms(1) obtain w d where "authorize_to E w d t v s = Inr s'" by (auto simp: authorize_def res_simps)
    from authorize_to_receipts [OF this] obtain a n where "brg s' = brg s" "Receipts s' = (Receipts s)((d, w) \<mapsto> Authorize t a n)"
      by blast
    then show ?thesis by (intro conjI disjI2 exI [of _ "(d, w)"] exI [of _ "Some (Authorize t a n)"]) simp_all
  next
    case (Call_revoke target t v)
    with assms(1) obtain w d where "revoke_from E w d t v None s = Inr s'" by (auto simp: revoke_def res_simps)
    from revoke_from_receipts [OF this] obtain r where "brg s' = brg s" "Receipts s' = (Receipts s)((d, w) := r)"
      "r = None \<or> (\<exists>n. r = Some (Revoke t v n))" by auto
    then show ?thesis by (intro conjI disjI2 exI [of _ "(d, w)"] exI [of _ r]) auto
  next
    case (Call_revoke_with_callback target t v cb)
    with assms(1) obtain w d where "revoke_from E w d t v (Some cb) s = Inr s'"
      by (auto simp: revoke_with_callback_def res_simps)
    from revoke_from_receipts [OF this] obtain r where "brg s' = brg s" "Receipts s' = (Receipts s)((d, w) := r)"
      "r = None \<or> (\<exists>n. r = Some (RevokeWithCallback t v n cb))" by auto
    then show ?thesis
      by (intro conjI disjI2 exI [of _ "(d, w)"] exI [of _ r]) (auto simp: Call_revoke_with_callback)
  next
    case (Call_verify ps)
    with assms(2) show ?thesis by blast
  next
    case (Call_verify_compress bs)
    with assms(3) show ?thesis by blast
  next
    case (Call_stake target v)
    with assms(1) have "outer s' = outer s" by (auto simp: stake_def res_simps dest: outer_stake_on)
    with False show ?thesis by contradiction
  next
    case (Call_unstake target v)
    with assms(1) have "outer s' = outer s" by (auto simp: unstake_def res_simps dest: outer_unstake_from)
    with False show ?thesis by contradiction
  next
    case Call_listing
    with assms(1) False show ?thesis by (simp add: listing_def)
  qed (use False assms(1) in \<open>auto dest: outer_claim_shares outer_register_broker outer_settings outer_beneficiary\<close>)
qed

section \<open>The invariant of the bridge\<close>

lemma outer_pay_reward [outer_frame]:
  assumes "pay_reward E w v s = Inr s'"
  shows "outer s' = outer s"
proof -
  from assms obtain n b where "s' = s\<lparr>native := b\<rparr>"
    by (auto simp: pay_reward_def try_mutate_account_def try_mutate_issuance_def res_simps)
  then show ?thesis by simp
qed

lemma outer_claim_reward [outer_frame]:
  assumes "claim_reward E w at s = Inr (n, s')"
  shows "outer s' = outer s"
  using assms
proof (cases rule: claim_reward_elim)
  case (none era u)
  then show ?thesis using outer_rotate by metis
next
  case (some era u r u2)
  then show ?thesis using outer_rotate [OF some(2)] outer_pay_reward [OF some(6)] by simp
qed

lemma brg_rwd_dispatch: "rwd_dispatch E orig c s = Inr s' \<Longrightarrow> outer s' = outer s"
  by (cases c) (auto simp: take_reward_def set_era_rewards_def res_simps dest!: outer_claim_reward)

lemma brg_tok_dispatch: "tok_dispatch E orig c s = Inr s' \<Longrightarrow> outer s' = outer s"
  by (cases c) (auto simp: issue_def mark_stable_def transfer_def associate_token_def res_simps
      dest!: outer_create outer_transfer_token)

lemma evolve_brg:
  assumes "bridge_inv E s" "brg s' = brg s"
  shows "bridge_inv E s' \<and> ballots_evolve s s'"
  using bridge_inv_brg [OF assms] evolve_votes [OF brgD(5) [OF assms(2)]] by blast

lemma bridge_transfer_out:
  assumes "bridge_inv E s" "transfer_out E' orig v rid rcpt dest s = Inr s'"
  shows "bridge_inv E s' \<and> Votes s' = Votes s"
proof -
  from assms(2) obtain s1 x where "brg s1 = brg s" and t: "transfer_fungible dest rid rcpt x s1 = Inr s'"
    by (auto simp: transfer_out_def do_lock_def do_burn_assets_def burn_from_def Let_def res_simps
        dest!: brg_transfer_token burn_reserved(3) split: if_splits)
  with inv_transfers(1) [OF bridge_inv_brg [OF assms(1) this(1)] t] brgD(5) show ?thesis by metis
qed

lemma bridge_cbt_dispatch:
  assumes "bridge_inv E s" "cbt_dispatch E' orig c s = Inr s'"
  shows "bridge_inv E s' \<and> ballots_evolve s s'"
proof (cases c)
  case (Call_transfer_out v rid rcpt dest)
  with assms(2) have "transfer_out E' orig v rid rcpt dest s = Inr s'" by simp
  from bridge_transfer_out [OF assms(1) this] show ?thesis using evolve_votes by blast
next
  case (Call_transfer_in dest v rid)
  with assms(2) have "transfer_in E' orig dest v rid s = Inr s'" by simp
  then show ?thesis by (rule evolve_brg [OF assms(1) brg_transfer_in])
qed (use assms(2) evolve_brg [OF assms(1)] in \<open>auto simp: native_limit_def associate_dominator_def remark_def res_simps\<close>)

lemma vrf_call_split:
  assumes "vrf_dispatch E disp orig c s = Inr s'"
  obtains (batch) d D ps where "verify_batch E disp d D ps s = Inr s'"
  | (quiet) "\<And>ps. c \<noteq> Call_verify ps" "\<And>bs. c \<noteq> Call_verify_compress bs"
proof (cases c)
  case (Call_verify ps)
  with assms show ?thesis using batch by (auto simp: verify_def res_simps)
next
  case (Call_verify_compress bs)
  with assms show ?thesis using batch by (auto simp: verify_compress_def res_simps)
qed (rule quiet, simp_all)+

lemma bridge_vrf_dispatch:
  fixes c :: "rt_call vrf_call"
  assumes "proposal_runner E disp" "bridge_inv E s" "vrf_dispatch E disp orig c s = Inr s'"
  shows "bridge_inv E s' \<and> ballots_evolve s s'"
  using assms(3)
proof (cases rule: vrf_call_split)
  case (batch d D ps)
  let ?P = "\<lambda>u. bridge_inv E u \<and> ballots_evolve s u"
  have brg: "?P u'" if "?P u" "brg u' = brg u" for u u'
  proof -
    from that have "bridge_inv E u' \<and> ballots_evolve u u'" by (intro evolve_brg) simp_all
    with that show ?thesis using ballots_evolve_trans by metis
  qed
  have "callback_walk disp ?P"
  proof
    show "?P u'" if "shrinks u u'" "?P u" for u u'
      by (rule brg [OF that(2)]) (use that(1) in \<open>simp add: shrinks_def\<close>)
    show "?P u'" if P: "?P u" and cb1: "calls_back u cb u1" and run: "disp cb w u1 = Inr u'" for u cb u1 w u'
    proof -
      have u1: "?P u1" by (rule brg [OF P]) (use cb1 in \<open>auto simp: calls_back_def\<close>)
      then have "bridge_inv E u'" "ballots_evolve u1 u'"
        using proposal_runner.run_inv [OF assms(1) _ run] proposal_runner.run_evolve [OF assms(1) _ run] by simp_all
      with u1 ballots_evolve_trans show ?thesis by metis
    qed
  qed
  from callback_walk.walk_verify_batch [OF this _ batch] assms(2) show ?thesis by simp
next
  case quiet
  from vrf_call_quiet [OF assms(3) this] have "brg s' = brg s" by simp
  then show ?thesis by (rule evolve_brg [OF assms(2)])
qed

lemma rt_body_bridge:
  assumes "proposal_runner E disp" "bridge_inv E s" "rt_body E disp orig c s = Inr s'"
  shows "bridge_inv E s' \<and> ballots_evolve s s'"
proof (cases c)
  case (Assets x)
  with assms(3) show ?thesis using evolve_brg [OF assms(2) outerD(1) [OF brg_tok_dispatch]] by simp
next
  case (Reward x)
  with assms(3) show ?thesis using evolve_brg [OF assms(2) outerD(1) [OF brg_rwd_dispatch]] by simp
next
  case (Bridge x)
  with assms(3) show ?thesis using proposal_runner.runner_dispatch [OF assms(1,2)] by simp
next
  case (Verifier x)
  with assms(3) show ?thesis using bridge_vrf_dispatch [OF assms(1,2)] by simp
next
  case (ChainBridgeTransfer x)
  with assms(3) show ?thesis using bridge_cbt_dispatch [OF assms(2)] by simp
qed

lemma rt_dispatch_bridge:
  "bridge_inv E s \<Longrightarrow> rt_dispatch E n orig c s = Inr s' \<Longrightarrow> bridge_inv E s' \<and> ballots_evolve s s'"
proof (induction n arbitrary: orig c s s')
  case (Suc n)
  have "proposal_runner E (\<lambda>cb w. rt_dispatch E n (Signed w) cb)"
    by unfold_locales (use Suc.IH in blast)+
  from rt_body_bridge [OF this] Suc.prems show ?case by simp
qed simp

text \<open>So the calls of the runtime, at any depth, are proposals in the sense of the bridge.\<close>

interpretation runtime_calls: proposal_runner E "\<lambda>cb w. rt_dispatch E n (Signed w) cb"
  by unfold_locales (use rt_dispatch_bridge in blast)+

end
