(* ===== verification/Fuso_Runtime_Term.thy ===== *)
theory Fuso_Runtime_Term
  imports Fuso_Runtime_Inv
begin

text \<open>
  Termination of the dispatcher. A callback runs after its receipt is gone, and a proposal is smaller
  than the vote that carries it. So the weight of the call together with the weights of the callbacks
  that the receipts still hold goes down with every nested dispatch, and it bounds the depth: the
  recursion of the code has exactly one solution, which \<open>rt_execute\<close> computes.
\<close>

section \<open>The weight of the receipts\<close>

definition fin_receipts :: "('b, 'c, 'z) verifier_chain_scheme \<Rightarrow> bool" where
  "fin_receipts s \<longleftrightarrow> finite (dom (Receipts s))"

definition depth :: "rt_call \<Rightarrow> ('b, rt_call, 'z) verifier_chain_scheme \<Rightarrow> nat" where
  "depth c s = call_weight c + pending_weight s"

lemma msum_map_le:
  fixes w :: "'v \<Rightarrow> nat"
  assumes "m' \<subseteq>\<^sub>m m" "finite (dom m)"
  shows "msum w m' \<le> msum w m"
proof -
  have d: "dom m' \<subseteq> dom m" using assms(1) by (rule map_le_implies_dom_le)
  have "msum w m' = (\<Sum>k\<in>dom m'. w (the (m k)))"
    unfolding msum_def by (rule sum.cong) (use assms(1) in \<open>auto simp: map_le_def\<close>)
  also have "\<dots> \<le> msum w m" unfolding msum_def by (rule sum_mono2) (use assms(2) d in auto)
  finally show ?thesis .
qed

lemma weight_same:
  "Receipts s' = Receipts s \<Longrightarrow> fin_receipts s \<Longrightarrow> fin_receipts s' \<and> pending_weight s' \<le> pending_weight s + n"
  by (simp add: fin_receipts_def pending_weight_def)

lemma weight_put:
  assumes "Receipts s' = (Receipts s)(k := r)" "owt receipt_weight r \<le> n" "fin_receipts s"
  shows "fin_receipts s' \<and> pending_weight s' \<le> pending_weight s + n"
  using msum_update [of "Receipts s" receipt_weight k r] assms
  by (simp add: fin_receipts_def pending_weight_def)

lemma weight_shrinks:
  assumes "shrinks s s'" "fin_receipts s"
  shows "fin_receipts s' \<and> pending_weight s' \<le> pending_weight s"
proof -
  have m: "Receipts s' \<subseteq>\<^sub>m Receipts s" using assms(1) by (simp add: shrinks_def)
  with assms(2) show ?thesis unfolding fin_receipts_def pending_weight_def
    by (auto intro: finite_subset [OF map_le_implies_dom_le] msum_map_le)
qed

lemma weight_calls_back:
  assumes "calls_back s cb s1" "fin_receipts s"
  shows "fin_receipts s1 \<and> call_weight cb + pending_weight s1 < pending_weight s"
proof -
  from assms(1) obtain k t a n where k: "Receipts s k = Some (RevokeWithCallback t a n cb)"
    and s1: "Receipts s1 = (Receipts s)(k := None)" by (auto simp: calls_back_def)
  with assms(2) show ?thesis
    using msum_remove [of "Receipts s" receipt_weight k] by (simp add: fin_receipts_def pending_weight_def)
qed

section \<open>What a call stores it has paid for\<close>

definition frugal :: "(rt_call \<Rightarrow> account \<Rightarrow> 'b rt_chain \<Rightarrow> 'b rt_chain result) \<Rightarrow> bool" where
  "frugal disp \<longleftrightarrow> (\<forall>cb w s s'. fin_receipts s \<longrightarrow> disp cb w s = Inr s' \<longrightarrow>
     fin_receipts s' \<and> pending_weight s' \<le> pending_weight s + call_weight cb)"

lemma frugalD:
  "frugal disp \<Longrightarrow> fin_receipts s \<Longrightarrow> disp cb w s = Inr s' \<Longrightarrow>
   fin_receipts s' \<and> pending_weight s' \<le> pending_weight s + call_weight cb"
  unfolding frugal_def by blast

text \<open>A batch of proofs only takes from the receipts, callbacks included.\<close>

lemma frugal_walk:
  assumes "frugal disp"
  shows "callback_walk disp (\<lambda>u. fin_receipts u \<and> pending_weight u \<le> N)"
proof
  show "fin_receipts u' \<and> pending_weight u' \<le> N" if "shrinks u u'" "fin_receipts u \<and> pending_weight u \<le> N" for u u'
    using weight_shrinks [OF that(1)] that(2) by auto
  show "fin_receipts u' \<and> pending_weight u' \<le> N"
    if "fin_receipts u \<and> pending_weight u \<le> N" "calls_back u cb u1" "disp cb w u1 = Inr u'" for u cb u1 w u'
    using weight_calls_back [OF that(2)] frugalD [OF assms _ that(3)] that(1) by auto
qed

lemma frugal_vrf:
  assumes "frugal disp" "fin_receipts s" "vrf_dispatch E disp orig c s = Inr s'"
  shows "fin_receipts s' \<and> pending_weight s' \<le> pending_weight s + call_weight (Verifier c)"
  using assms(3)
proof (cases rule: vrf_call_split)
  case (batch d D ps)
  from callback_walk.walk_verify_batch [OF frugal_walk [OF assms(1), of "pending_weight s"] _ batch] assms(2)
  show ?thesis by simp
next
  case quiet
  from vrf_call_quiet [OF assms(3) this] show ?thesis
  proof (elim conjE disjE exE)
    assume "Receipts s' = Receipts s"
    then show ?thesis by (rule weight_same [OF _ assms(2)])
  next
    fix k r
    assume "Receipts s' = (Receipts s)(k := r)" "owt receipt_weight r \<le> call_weight (Verifier c)"
    then show ?thesis by (rule weight_put [OF _ _ assms(2)])
  qed
qed

lemma frugal_brg:
  assumes "frugal disp" "fin_receipts s" "brg_dispatch E disp orig c s = Inr s'"
  shows "fin_receipts s' \<and> pending_weight s' \<le> pending_weight s + call_weight (Bridge c)"
  using brg_call_inner [OF assms(3)]
proof (elim disjE exE conjE)
  assume "inner s' = inner s"
  from innerD(4) [OF this] show ?thesis by (rule weight_same [OF _ assms(2)])
next
  fix p s1 s2
  assume p: "carried c = Some p" "inner s1 = inner s" "disp p (bridge_account E) s1 = Inr s2" "inner s' = inner s2"
  have eq: "Receipts s1 = Receipts s" "Receipts s' = Receipts s2" using innerD(4) p(2,4) by metis+
  from frugalD [OF assms(1) _ p(3)] carried_weight [OF p(1)] assms(2) show ?thesis
    by (simp add: fin_receipts_def pending_weight_def eq)
qed

text \<open>A deposit may leave an authorisation in the receipts.\<close>

definition authorizes :: "('b, 'c, 'z) verifier_chain_scheme \<Rightarrow> ('b, 'c, 'z) verifier_chain_scheme \<Rightarrow> bool" where
  "authorizes s s' \<longleftrightarrow> Receipts s' = Receipts s \<or> (\<exists>k t a n. Receipts s' = (Receipts s)(k \<mapsto> Authorize t a n))"

lemma authorizes_frame:
  "authorizes s1 s2 \<Longrightarrow> Receipts s1 = Receipts s \<Longrightarrow> Receipts s' = Receipts s2 \<Longrightarrow> authorizes s s'"
  unfolding authorizes_def by metis

lemma authorizes_refl [simp]: "Receipts s' = Receipts s \<Longrightarrow> authorizes s s'"
  by (simp add: authorizes_def)

lemma authorize_to_authorizes:
  fixes s s' :: "('b, 'c, 'p, 'z) bridge_chain_scheme"
  assumes "authorize_to E w d t v s = Inr s'"
  shows "authorizes s s'"
  using authorize_to_receipts [OF assms] unfolding authorizes_def by blast

lemma authorize_in_receipts:
  "authorize_native E w v rid s = Inr s' \<Longrightarrow> authorizes s s'"
  "authorize_asset E w v rid s = Inr s' \<Longrightarrow> authorizes s s'"
  by (auto simp: authorize_native_def authorize_asset_def res_simps dest!: authorize_to_authorizes split: option.splits)

lemma transfer_in_receipts:
  assumes "transfer_in E orig w v rid s = Inr s'"
  shows "authorizes s s'"
proof -
  have donated: "Receipts s' = Receipts s1" if "donate E w s1 = Inr s'" for s1
    using that by (auto simp: donate_def res_simps dest!: ownD(1) [OF own_transfer] split: if_splits)
  from assms show ?thesis
  proof (cases rule: transfer_in_elim)
    case (1 s1)
    then obtain u where "transfer_token E (bridge_account E) (native_token_id E) v w s = Inr u"
      "authorize_native E w v rid u = Inr s1" by (auto simp: do_unlock_def res_simps)
    from authorizes_frame [OF authorize_in_receipts(1) [OF this(2)] ownD(1) [OF own_transfer [OF this(1)]] donated [OF 1(4)]]
    show ?thesis .
  next
    case (2 s1)
    then obtain t u where "do_mint t w v s = Inr u" "authorize_asset E w v rid u = Inr s1"
      by (auto simp: do_mint_assets_def mint_into_def res_simps)
    from authorizes_frame [OF authorize_in_receipts(2) [OF this(2)] ownD(1) [OF mint_reserved(1) [OF this(1)]] donated [OF 2(4)]]
    show ?thesis .
  qed
qed

lemma transfer_out_receipts:
  assumes "transfer_out E orig v rid rcpt dest s = Inr s'"
  shows "Receipts s' = Receipts s"
  using assms
  by (auto simp: transfer_out_def do_lock_def do_burn_assets_def burn_from_def Let_def res_simps
      dest!: own_transfer burn_reserved(1) inner_transfer_fungible ownD(1) innerD(4) split: if_splits)

lemma frugal_cbt:
  assumes "fin_receipts s" "cbt_dispatch E orig c s = Inr s'"
  shows "fin_receipts s' \<and> pending_weight s' \<le> pending_weight s + n"
proof -
  have "authorizes s s'"
  proof (cases c)
    case (Call_transfer_in w v rid)
    with assms(2) show ?thesis by (auto dest: transfer_in_receipts)
  next
    case (Call_transfer_out v rid rcpt dest)
    with assms(2) show ?thesis by (auto dest: transfer_out_receipts)
  qed (use assms(2) in \<open>auto simp: native_limit_def associate_dominator_def remark_def res_simps\<close>)
  then show ?thesis unfolding authorizes_def
  proof (elim disjE exE)
    fix k t a m
    assume "Receipts s' = (Receipts s)(k \<mapsto> Authorize t a m)"
    then show ?thesis by (rule weight_put [OF _ _ assms(1)]) simp
  qed (rule weight_same [OF _ assms(1)])
qed

lemma frugal_body:
  assumes "frugal disp" "fin_receipts s" "rt_body E disp orig c s = Inr s'"
  shows "fin_receipts s' \<and> pending_weight s' \<le> pending_weight s + call_weight c"
proof (cases c)
  case (Assets x)
  with assms(3) have "outer s' = outer s" using brg_tok_dispatch by simp
  then show ?thesis by (rule weight_same [OF outerD(2) assms(2)])
next
  case (Reward x)
  with assms(3) have "outer s' = outer s" using brg_rwd_dispatch by simp
  then show ?thesis by (rule weight_same [OF outerD(2) assms(2)])
next
  case (Bridge x)
  with assms(3) have "brg_dispatch E disp orig x s = Inr s'" by simp
  from frugal_brg [OF assms(1,2) this] Bridge show ?thesis by simp
next
  case (Verifier x)
  with assms(3) have "vrf_dispatch E disp orig x s = Inr s'" by simp
  from frugal_vrf [OF assms(1,2) this] Verifier show ?thesis by simp
next
  case (ChainBridgeTransfer x)
  with assms(3) have "cbt_dispatch E orig x s = Inr s'" by simp
  then show ?thesis by (rule frugal_cbt [OF assms(2)])
qed

lemma frugal_dispatch: "frugal (\<lambda>cb w. rt_dispatch E n (Signed w) cb)"
proof (induction n)
  case (Suc n)
  show ?case unfolding frugal_def rt_dispatch.simps using frugal_body [OF Suc.IH] by blast
qed (simp add: frugal_def)

text \<open>So the calls of the runtime, as the callbacks of a batch of proofs, keep what the walk needs.\<close>

interpretation runtime_walk:
  callback_walk E "\<lambda>cb w. rt_dispatch E n (Signed w) cb" "\<lambda>u. fin_receipts u \<and> pending_weight u \<le> N"
  by (rule frugal_walk [OF frugal_dispatch])

lemma runtime_batch_takes:
  assumes "fin_receipts s" "verify_batch E (\<lambda>cb w. rt_dispatch E n (Signed w) cb) d D ps s = Inr s'"
  shows "fin_receipts s' \<and> pending_weight s' \<le> pending_weight s"
  by (rule runtime_walk.walk_verify_batch [OF _ assms(2)]) (simp add: assms(1))

section \<open>Which nested calls a call depends on\<close>

text \<open>\<open>agree N\<close>: two dispatchers do the same below the depth \<open>N\<close>.\<close>

definition agree ::
  "nat \<Rightarrow> (rt_call \<Rightarrow> account \<Rightarrow> 'b rt_chain \<Rightarrow> 'b rt_chain result)
    \<Rightarrow> (rt_call \<Rightarrow> account \<Rightarrow> 'b rt_chain \<Rightarrow> 'b rt_chain result) \<Rightarrow> bool" where
  "agree N f g \<longleftrightarrow> (\<forall>cb w u. fin_receipts u \<longrightarrow> depth cb u < N \<longrightarrow> f cb w u = g cb w u)"

lemma agreeD: "agree N f g \<Longrightarrow> fin_receipts u \<Longrightarrow> depth cb u < N \<Longrightarrow> f cb w u = g cb w u"
  unfolding agree_def by blast

lemma verify_batch_agree:
  fixes s :: "'b rt_chain"
  assumes "frugal g" "agree (pending_weight s) f g" "fin_receipts s"
  shows "verify_batch E f d D ps s = verify_batch E g d D ps s"
proof (rule callback_walk.walk_cong [OF frugal_walk [OF assms(1), of "pending_weight s"]])
  fix u u1 :: "'b rt_chain" and cb w
  assume u: "fin_receipts u \<and> pending_weight u \<le> pending_weight s" and back': "calls_back u cb u1"
  from weight_calls_back [OF back'] u have "fin_receipts u1" "depth cb u1 < pending_weight s" by (auto simp: depth_def)
  then show "f cb w u1 = g cb w u1" by (rule agreeD [OF assms(2)])
qed (use assms(3) in simp)

lemma vrf_dispatch_agree:
  assumes "frugal g" "agree (pending_weight s) f g" "fin_receipts s"
  shows "vrf_dispatch E f orig c s = vrf_dispatch E g orig c s"
  by (cases c) (simp_all add: verify_def verify_compress_def verify_batch_agree [OF assms])

lemma resolve_agree:
  assumes "\<And>w u. Receipts u = Receipts s \<Longrightarrow> f p w u = g p w u"
  shows "try_resolve_proposal E f nonce src p s = try_resolve_proposal E g nonce src p s"
proof -
  have "finalize_execution E f src nonce p (s\<lparr>Votes := v\<rparr>) = finalize_execution E g src nonce p (s\<lparr>Votes := v\<rparr>)" for v
    using assms [of "deposit_event (BridgeEv (ProposalApproved src nonce)) (s\<lparr>Votes := v\<rparr>)"]
    by (simp add: finalize_execution_def)
  then show ?thesis
    by (auto simp: try_resolve_proposal_def Let_def ensure_def split: option.splits prod.splits proposal_status.splits)
qed

lemma brg_dispatch_agree:
  assumes "agree (depth (Bridge c) s) f g" "fin_receipts s"
  shows "brg_dispatch E f orig c s = brg_dispatch E g orig c s"
proof -
  have same: "f p w u = g p w u" if "carried c = Some p" "Receipts u = Receipts s" for p w u
  proof (rule agreeD [OF assms(1)])
    show "fin_receipts u" "depth p u < depth (Bridge c) s"
      using assms(2) that carried_weight [OF that(1)] by (auto simp: fin_receipts_def depth_def pending_weight_def)
  qed
  have vote: "rbind (commit_vote E w nonce src p fav u) (try_resolve_proposal E f nonce src p) =
      rbind (commit_vote E w nonce src p fav u) (try_resolve_proposal E g nonce src p)"
    if "carried c = Some p" "Receipts u = Receipts s" for w nonce src p fav u
  proof (rule rbind_cong [OF refl])
    fix u1
    assume "commit_vote E w nonce src p fav u = Inr u1"
    with that(2) have "Receipts u1 = Receipts s" using innerD(4) [OF inner_commit_vote] by metis
    then show "try_resolve_proposal E f nonce src p u1 = try_resolve_proposal E g nonce src p u1"
      using same [OF that(1)] by (intro resolve_agree) simp
  qed
  show ?thesis
  proof (cases c)
    case (Acknowledge_proposal n src rid h p)
    then show ?thesis
      using vote [of p "deposit_event (BridgeEv (ProposalVote src h n)) s"]
      by (simp add: acknowledge_proposal_def vote_for_def)
  next
    case (Reject_proposal n src rid p)
    then show ?thesis using vote [of p s] by (simp add: reject_proposal_def vote_against_def)
  next
    case (Eval_vote_state n src p)
    then have "try_resolve_proposal E f n src p s = try_resolve_proposal E g n src p s"
      using same by (intro resolve_agree) simp
    with Eval_vote_state show ?thesis by (simp add: eval_vote_state_def)
  qed simp_all
qed

lemma rt_body_agree:
  assumes "frugal g" "agree (depth c s) f g" "fin_receipts s"
  shows "rt_body E f orig c s = rt_body E g orig c s"
proof (cases c)
  case (Bridge x)
  with brg_dispatch_agree [OF _ assms(3)] assms(2) show ?thesis by simp
next
  case (Verifier x)
  from assms(2) have "agree (pending_weight s) f g" by (auto simp: agree_def depth_def)
  from vrf_dispatch_agree [OF assms(1) this assms(3)] Verifier show ?thesis by simp
qed simp_all

section \<open>Termination\<close>

lemma fuel_enough:
  fixes s :: "'b rt_chain"
  assumes "fin_receipts s" "depth c s < n" "depth c s < m"
  shows "rt_dispatch E n orig c s = rt_dispatch E m orig c s"
  using assms
proof (induction n arbitrary: m orig c s)
  case (Suc n)
  then obtain k where m: "m = Suc k" by (cases m) auto
  have "agree (depth c s) (\<lambda>cb w. rt_dispatch E n (Signed w) cb) (\<lambda>cb w. rt_dispatch E k (Signed w) cb)"
    unfolding agree_def
  proof (intro allI impI)
    fix cb w and u :: "'b rt_chain"
    assume "fin_receipts u" "depth cb u < depth c s"
    then show "rt_dispatch E n (Signed w) cb u = rt_dispatch E k (Signed w) cb u"
      using Suc.prems(2,3) by (intro Suc.IH) (simp_all add: m)
  qed
  from rt_body_agree [OF frugal_dispatch this Suc.prems(1)] show ?case by (simp add: m)
qed simp

lemma rt_execute_fuel: "fin_receipts s \<Longrightarrow> depth c s < n \<Longrightarrow> rt_dispatch E n orig c s = rt_execute E orig c s"
  unfolding rt_execute_def by (rule fuel_enough) (simp_all add: depth_def)

lemma agree_execute:
  "agree n (\<lambda>cb w. rt_execute E (Signed w) cb) (\<lambda>cb w. rt_dispatch E n (Signed w) cb)"
  unfolding agree_def using rt_execute_fuel by metis

text \<open>\<open>rt_execute\<close> solves the recursion equation of the code, and every solution is \<open>rt_execute\<close>.\<close>

lemma rt_execute_rec:
  assumes "fin_receipts s"
  shows "rt_execute E orig c s = rt_body E (\<lambda>cb w. rt_execute E (Signed w) cb) orig c s"
proof -
  have "rt_body E (\<lambda>cb w. rt_execute E (Signed w) cb) orig c s =
      rt_body E (\<lambda>cb w. rt_dispatch E (depth c s) (Signed w) cb) orig c s"
    by (rule rt_body_agree [OF frugal_dispatch agree_execute assms])
  then show ?thesis by (simp add: rt_execute_def [of E orig c s] depth_def)
qed

lemma solution_unique:
  fixes s :: "'b rt_chain"
  assumes "\<forall>orig c s. fin_receipts s \<longrightarrow> f orig c s = rt_body E (\<lambda>cb w. f (Signed w) cb) orig c s"
    and "fin_receipts s"
  shows "f orig c s = rt_execute E orig c s"
  using assms(2)
proof (induction "depth c s" arbitrary: orig c s rule: less_induct)
  case less
  have "agree (depth c s) (\<lambda>cb w. f (Signed w) cb) (\<lambda>cb w. rt_dispatch E (depth c s) (Signed w) cb)"
    unfolding agree_def
  proof (intro allI impI)
    fix cb w and u :: "'b rt_chain"
    assume u: "fin_receipts u" "depth cb u < depth c s"
    from less.hyps [OF u(2) u(1)] rt_execute_fuel [OF u, of E "Signed w"]
    show "f (Signed w) cb u = rt_dispatch E (depth c s) (Signed w) cb u" by simp
  qed
  from rt_body_agree [OF frugal_dispatch this less.prems] assms(1) less.prems
  show ?case by (simp add: rt_execute_def depth_def)
qed

end
