(* ===== verification/Fuso_Runtime_Sample.thy ===== *)
theory Fuso_Runtime_Sample
  imports Fuso_Runtime_Term Fuso_Bridge_Props Fuso_Verifier_Machine
begin

text \<open>
  A run of the composed runtime for the witnesses. Bob becomes a dominator with Alice's stake and
  authorises 30 units to himself; his revocation carries a callback that is itself a batch of proofs
  for the deposit of Alice. So the last batch runs another batch of the same dominator.
\<close>

lemma rt_env_simps [simp]:
  "DominatorOnlineThreshold hdl_env = 100" "SeasonDuration hdl_env = 100" "DominatorCheckGracePeriod hdl_env = 10"
  "MinimalStakingAmount hdl_env = 5" "system_account hdl_env = pallet_account" "lookup hdl_env = (\<lambda>a. Some a)"
  "blake2_256 hdl_env = (\<lambda>bs. bs)" "smt_verify hdl_env = (\<lambda>p root ls. Some True)"
  "bal_reserve hdl_env = sb_reserve" "bal_unreserve hdl_env = sb_unreserve"
  "bal_can_reserve hdl_env = (\<lambda>b a v. v \<le> sb_free b a)" "NativeTokenId hdl_env = 0"
  by (simp_all add: hdl_env_def vrf_env_def rwd_env_def tok_env_def bridge_env.defs handler_env.defs verifier_env.defs
      token_env.defs reward_env.defs env.defs sample_env_def native_token_id_def)

lemma burn_hdl_env: "burn_spec hdl_env"
  using sample_burn_spec [of "env.more hdl_env"]
  by (simp add: hdl_env_def vrf_env_def rwd_env_def tok_env_def bridge_env.defs handler_env.defs verifier_env.defs
      token_env.defs reward_env.defs env.defs sample_env_def)

section \<open>The proofs\<close>

definition proof_for :: "account \<Rightarrow> command \<Rightarrow> u128 \<times> u128 \<Rightarrow> u8 \<Rightarrow> proof_rec" where
  "proof_for w c vs r = \<lparr>event_id = 1, user_id = w, cmd = c,
     leaves = [mk_leaf (account_key 0 w) (fst vs, 0) (snd vs, 0)], maker_page_delta = 0, maker_account_delta = 0,
     merkle_proof = [], proof_root = replicate 32 r\<rparr>"

definition deposit_bob :: proof_rec where "deposit_bob = proof_for bob (TransferIn 0 30) (0, 30) 1"
definition deposit_alice :: proof_rec where "deposit_alice = proof_for alice (TransferIn 0 30) (0, 30) 2"
definition withdraw_bob :: proof_rec where "withdraw_bob = proof_for bob (TransferOut 0 30) (30, 0) 3"
definition nested_batch :: rt_call where "nested_batch = Verifier (Call_verify [deposit_alice])"

lemma sample_transfers:
  "verify_transfer_in 0 30 alice (leaves deposit_alice) = Inr ()"
  "verify_transfer_in 0 30 bob (leaves deposit_bob) = Inr ()"
  "verify_transfer_out 0 30 bob (leaves withdraw_bob) = Inr ()"
  by (code_simp, code_simp, code_simp)

lemma sample_proofs [simp]:
  "cmd deposit_alice = TransferIn 0 30" "user_id deposit_alice = alice" "proof_root deposit_alice = replicate 32 2"
  "cmd deposit_bob = TransferIn 0 30" "user_id deposit_bob = bob" "proof_root deposit_bob = replicate 32 1"
  "cmd withdraw_bob = TransferOut 0 30" "user_id withdraw_bob = bob" "proof_root withdraw_bob = replicate 32 3"
  "event_id deposit_alice = 1" "event_id deposit_bob = 1" "event_id withdraw_bob = 1"
  by (simp_all add: deposit_alice_def deposit_bob_def withdraw_bob_def proof_for_def)

section \<open>The states\<close>

definition r0 :: "sample_bal rt_chain" where
  "r0 = \<lparr>block_number = 150, account_nonce = (\<lambda>_. 0), events = [],
     native = ((\<lambda>_. (1000, 0)), 2000), Balances = Map.empty, Tokens = Map.empty, NextTokenId = 1,
     TokenByName = Map.empty, TokenByContract = Map.empty,
     Rewards = Map.empty, EraRewards = None, Volumes = (\<lambda>_. 0),
     OnChainPrices = (\<lambda>_. \<lparr>price = 0, recent_matched_amount = 0, recent_matched_vol = 0, updated_at = 0\<rparr>),
     Receipts = Map.empty, Dominators = [], DominatorSettings = Map.empty, Brokers = Map.empty,
     Reserves = Map.empty, Bonuses = (\<lambda>_. \<lparr>b_staked = 0, b_profit = []\<rparr>), Stakings = Map.empty,
     PendingUnstakings = (\<lambda>_. []),
     ChainNonces = Map.empty, RelayerThreshold = None, Relayers = (\<lambda>_. False), RelayerCount = 0,
     Votes = Map.empty, Resources = Map.empty,
     NativeCheck = False, BridgingFeeInUSD = None, AssociatedDominator = Map.empty\<rparr>"

abbreviation auth_key :: "account \<Rightarrow> (u8 \<times> account \<times> token_id) \<times> account" where
  "auth_key w \<equiv> ((RESERVE_FOR_AUTHORIZING, w, 0), bob)"
abbreviation stash_key :: "account \<Rightarrow> (u8 \<times> account \<times> token_id) \<times> account" where
  "stash_key w \<equiv> ((RESERVE_FOR_AUTHORIZING_STASH, w, 0), bob)"

definition bob_at :: "u8 \<Rightarrow> u64 \<Rightarrow> dominator" where
  "bob_at r n = (dominator_of 200 2)\<lparr>d_merkle_root := replicate 32 r, d_sequence := (n, 150)\<rparr>"

definition r1 :: "sample_bal rt_chain" where
  "r1 = r0\<lparr>Dominators := [(bob, dominator_of 0 0)], events := [VerifierEv (DominatorClaimed bob)]\<rparr>"

definition r2 :: "sample_bal rt_chain" where
  "r2 = r0\<lparr>Dominators := [(bob, dominator_of 0 1)],
     events := events r1 @ [VerifierEv (vrf_event.DominatorInactive bob)]\<rparr>"

definition r3 :: "sample_bal rt_chain" where
  "r3 = r0\<lparr>Dominators := [(bob, bob_at 0 0)],
     native := sb_put alice (1000, 200) (native r0),
     Stakings := [(bob, alice) \<mapsto> \<lparr>from_season = 0, stk_amount = 200\<rparr>],
     Reserves := [((RESERVE_FOR_STAKING, alice, 0), bob) \<mapsto> 200],
     events := events r2 @ [VerifierEv (TaoStaked alice bob 200), VerifierEv (DominatorOnline bob)]\<rparr>"

definition r4 :: "sample_bal rt_chain" where
  "r4 = r3\<lparr>native := sb_put bob (1000, 30) (native r3), Reserves := (Reserves r3)(stash_key bob \<mapsto> 30),
     Receipts := [(bob, bob) \<mapsto> Authorize 0 30 150], events := events r3 @ [VerifierEv (TokenHosted bob bob 0 30)]\<rparr>"

definition r5 :: "sample_bal rt_chain" where
  "r5 = r4\<lparr>Dominators := [(bob, bob_at 1 1)], Reserves := (Reserves r3)(auth_key bob \<mapsto> 30), Receipts := Map.empty\<rparr>"

definition r6 :: "sample_bal rt_chain" where
  "r6 = r5\<lparr>Receipts := [(bob, bob) \<mapsto> RevokeWithCallback 0 30 150 nested_batch],
     events := events r5 @ [VerifierEv (TokenRevoked bob bob 0 30)]\<rparr>"

definition r7 :: "sample_bal rt_chain" where
  "r7 = r6\<lparr>native := sb_put alice (1000, 230) (native r6), Reserves := (Reserves r6)(stash_key alice \<mapsto> 30),
     Receipts := (Receipts r6)((bob, alice) \<mapsto> Authorize 0 30 150),
     events := events r6 @ [VerifierEv (TokenHosted alice bob 0 30)]\<rparr>"

text \<open>After the withdrawal and the removal of its receipt, where the callback runs; after the callback;
  and at the end of the outer batch.\<close>

definition r7a :: "sample_bal rt_chain" where
  "r7a = r7\<lparr>native := sb_put bob (1000, 0) (native r7), Reserves := (Reserves r7)(auth_key bob := None),
     Receipts := [(bob, alice) \<mapsto> Authorize 0 30 150]\<rparr>"

definition r7b :: "sample_bal rt_chain" where
  "r7b = r7a\<lparr>Dominators := [(bob, bob_at 2 1)],
     Reserves := (Reserves r7a)(stash_key alice := None, auth_key alice \<mapsto> 30), Receipts := Map.empty\<rparr>"

definition r8 :: "sample_bal rt_chain" where
  "r8 = r7b\<lparr>Dominators := [(bob, bob_at 3 1)]\<rparr>"

lemmas r_defs = r8_def r7b_def r7a_def r7_def r6_def r5_def r4_def r3_def r2_def r1_def r0_def bob_at_def

lemma r_fin: "fin_receipts r0" "fin_receipts r1" "fin_receipts r2" "fin_receipts r3" "fin_receipts r4" "fin_receipts r5"
  "fin_receipts r6" "fin_receipts r7" "fin_receipts r7a"
  by (simp_all add: fin_receipts_def r_defs)

section \<open>The run\<close>

lemma r1_run: "rt_execute hdl_env (Signed bob) (Verifier (Call_register [97, 98])) r0 = Inr r1"
  unfolding rt_execute_rec [OF r_fin(1)]
  by (simp add: register_def r_defs valid_identifier_def get_dominator_def rem_u32_def put_dominator_def
      deposit_event_def dominator_of_def DOMINATOR_REGISTERED_def)

lemma r2_run: "rt_execute hdl_env Root (Verifier (Call_launch bob)) r1 = Inr r2"
  unfolding rt_execute_rec [OF r_fin(2)]
  by (simp add: launch_def r_defs get_dominator_def put_dominator_def deposit_event_def
      dominator_of_def dominator_statuses)

lemma r3_run: "rt_execute hdl_env (Signed alice) (Verifier (Call_stake bob 200)) r2 = Inr r3"
  unfolding rt_execute_rec [OF r_fin(3)]
  by (simp add: stake_def stake_on_def r_defs get_dominator_def put_dominator_def deposit_event_def
      dominator_of_def dominator_statuses stake_entry_def reserve_def token_reserve_def sb_reserve_def sb_free_def
      sb_reserved_def get_reserve_def put_reserve_def get_staking_def default_staking_def checked_add_def
      current_season_def put_staking_def online_status_def)

lemmas r_auth = authorize_def authorize_to_def get_dominator_def deposit_event_def
      dominator_of_def dominator_statuses can_reserve_def put_receipt_def reserve_def
      token_reserve_def sb_reserve_def sb_free_def sb_put_def
      sb_reserved_def get_reserve_def put_reserve_def checked_add_def reserve_ids

lemma r4_run: "rt_execute hdl_env (Signed bob) (Verifier (Call_authorize bob 0 30)) r3 = Inr r4"
  unfolding rt_execute_rec [OF r_fin(4)] by (simp add: r_defs r_auth)

lemma r7_run: "rt_execute hdl_env (Signed alice) (Verifier (Call_authorize bob 0 30)) r6 = Inr r7"
  unfolding rt_execute_rec [OF r_fin(7)] by (simp add: r_defs r_auth fun_eq_iff)

text \<open>The last step of the batch only replaces Bob's entry.\<close>

lemma put_bob:
  "AList.update bob D ds = Dominators u \<Longrightarrow> put_dominator bob D (u\<lparr>Dominators := ds\<rparr>) = u"
  by (simp add: put_dominator_def)

lemma r_dominators [simp]:
  "Dominators r4 = [(bob, bob_at 0 0)]" "Dominators r5 = [(bob, bob_at 1 1)]" "Dominators r7 = [(bob, bob_at 1 1)]"
  "Dominators r7a = [(bob, bob_at 1 1)]" "Dominators r7b = [(bob, bob_at 2 1)]" "Dominators r8 = [(bob, bob_at 3 1)]"
  "block_number r4 = 150" "block_number r5 = 150" "block_number r7 = 150" "block_number r7a = 150" "block_number r7b = 150"
  by (simp_all add: r8_def r7b_def r7a_def r7_def r6_def r5_def r4_def r3_def r0_def)

lemma bob_at_simps [simp]:
  "d_status (bob_at r n) = DOMINATOR_ACTIVE" "d_merkle_root (bob_at r n) = replicate 32 r" "d_start_from (bob_at r n) = 150"
  "(bob_at r n)\<lparr>d_merkle_root := replicate 32 r', d_sequence := (n', 150)\<rparr> = bob_at r' n'"
  by (simp_all add: bob_at_def dominator_of_def dominator_statuses)

lemmas r_verify = verify_def verify_batch_def verify_one_def verify_and_update_def check_merkle_def current_season_def
  step_forward_def unwrap_def set_prices_def record_trade_def

lemma r5_in: "handle_transfer_in bob 0 30 deposit_bob r4 = Inr (r5\<lparr>Dominators := Dominators r4\<rparr>)"
  by (simp add: handle_transfer_in_def sample_transfers)
    (simp add: r_defs get_reserve_def put_reserve_def put_receipt_def checked_add_def reserve_ids fun_eq_iff)

lemma r5_run: "rt_execute hdl_env (Signed bob) (Verifier (Call_verify [deposit_bob])) r4 = Inr r5"
proof -
  have D: "get_dominator r4 bob = Some (bob_at 0 0)" "get_dominator (r5\<lparr>Dominators := [(bob, bob_at 0 0)]\<rparr>) bob = Some (bob_at 0 0)"
    by (simp_all add: get_dominator_def)
  show ?thesis unfolding rt_execute_rec [OF r_fin(5)] by (simp add: r_verify D r5_in [simplified] put_bob)
qed

lemma r6_run: "rt_execute hdl_env (Signed bob) (Verifier (Call_revoke_with_callback bob 0 30 nested_batch)) r5 = Inr r6"
  unfolding rt_execute_rec [OF r_fin(6)]
  by (simp add: revoke_with_callback_def revoke_from_def has_authorized_morethan_def r_defs get_dominator_def
      deposit_event_def dominator_of_def dominator_statuses put_receipt_def get_reserve_def)

lemma r7a_step:
  "unreserve hdl_env RESERVE_FOR_AUTHORIZING bob 0 30 bob r7 = Inr (r7a\<lparr>Receipts := Receipts r7\<rparr>)"
  by (simp add: unreserve_def token_unreserve_def r_defs sb_unreserve_def sb_free_def sb_reserved_def sb_put_def
      put_reserve_def checked_sub_def reserve_ids fun_eq_iff)

lemma r7b_in: "handle_transfer_in bob 0 30 deposit_alice r7a = Inr (r7b\<lparr>Dominators := Dominators r7a\<rparr>)"
  by (simp add: handle_transfer_in_def sample_transfers)
    (simp add: r_defs get_reserve_def put_reserve_def put_receipt_def checked_add_def reserve_ids fun_eq_iff)

lemma r7b_run: "rt_execute hdl_env (Signed bob) nested_batch r7a = Inr r7b"
proof -
  have D: "get_dominator r7a bob = Some (bob_at 1 1)" "get_dominator (r7b\<lparr>Dominators := [(bob, bob_at 1 1)]\<rparr>) bob = Some (bob_at 1 1)"
    by (simp_all add: get_dominator_def)
  show ?thesis unfolding rt_execute_rec [OF r_fin(9)] nested_batch_def
    by (simp add: r_verify D r7b_in [simplified] put_bob)
qed

lemma r8_out:
  "handle_transfer_out hdl_env (\<lambda>cb w. rt_execute hdl_env (Signed w) cb) bob 0 30 withdraw_bob r7 = Inr r7b"
proof -
  have r: "Receipts r7 (bob, bob) = Some (RevokeWithCallback 0 30 150 nested_batch)" by (simp add: r_defs)
  have s: "put_receipt (bob, bob) None (r7a\<lparr>Receipts := Receipts r7\<rparr>) = r7a"
    by (simp add: r_defs put_receipt_def fun_eq_iff)
  show ?thesis
    by (simp add: handle_transfer_out_def r sample_transfers r7a_step s r7b_run caught_def)
qed

lemma r8_run: "rt_execute hdl_env (Signed bob) (Verifier (Call_verify [withdraw_bob])) r7 = Inr r8"
proof -
  have D: "get_dominator r7 bob = Some (bob_at 1 1)" "get_dominator r7b bob = Some (bob_at 2 1)"
    by (simp_all add: get_dominator_def)
  have "put_dominator bob (bob_at 3 1) r7b = r8" by (simp add: put_dominator_def r8_def)
  then show ?thesis unfolding rt_execute_rec [OF r_fin(8)] by (simp add: r_verify D r8_out)
qed

lemma r_reachable: "rt_reachable hdl_env r7" "rt_reachable hdl_env r8"
proof -
  have "rt_genesis r0" by (simp add: rt_genesis_def vrf_genesis_def brg_genesis_def r0_def)
  then have "rt_reachable hdl_env r0" by (rule rt_start)
  note rt_next [OF this rt_extrinsic [OF r1_run]]
  note rt_next [OF this rt_extrinsic [OF r2_run]]
  note rt_next [OF this rt_extrinsic [OF r3_run]]
  note rt_next [OF this rt_extrinsic [OF r4_run]]
  note rt_next [OF this rt_extrinsic [OF r5_run]]
  note rt_next [OF this rt_extrinsic [OF r6_run]]
  note r7 = rt_next [OF this rt_extrinsic [OF r7_run]]
  from r7 show "rt_reachable hdl_env r7" .
  show "rt_reachable hdl_env r8" by (rule rt_next [OF r7 rt_extrinsic [OF r8_run]])
qed

end
