(* ===== verification/Fuso_Runtime_Props.thy ===== *)
theory Fuso_Runtime_Props
  imports Fuso_Runtime_Sample
begin

text \<open>
  Properties of the composed runtime: its dispatcher terminates, its reachable states are solvent and
  keep the relayers' decisions whatever callbacks and proposals have run, and a batch of proofs that
  runs inside another one of the same dominator is lost from the chain of roots.
\<close>

section \<open>The invariant of the runtime\<close>

definition rt_inv :: "('b, 'x) handler_env_scheme \<Rightarrow> 'b rt_chain \<Rightarrow> bool" where
  "rt_inv E s \<longleftrightarrow> vrf_inv E s \<and> bridge_inv E s \<and> fin_receipts s"

lemma outer_unlocks:
  fixes s :: "('b, 'c, 'p, 'z) bridge_chain_scheme"
  shows "outer (fold (unlock_pending E) ps s) = outer s"
proof (induction ps arbitrary: s)
  case (Cons p ps)
  have "outer (unlock_pending E p s) = outer s"
    by (auto simp: unlock_pending_def dest: outer_unreserve split: prod.splits sum.splits)
  with Cons show ?case by simp
qed simp

lemma outer_on_initialize:
  fixes s :: "('b, 'c, 'p, 'z) bridge_chain_scheme"
  shows "on_initialize E n s = Inr s' \<Longrightarrow> outer s' = outer s"
  by (erule on_initialize_elim) (simp_all add: outer_unlocks)

lemma fin_outer: "outer s' = outer s \<Longrightarrow> fin_receipts s' = fin_receipts s"
  using outerD(2) [of s' s] by (simp add: fin_receipts_def)

lemma step_vrf_inv:
  assumes "balances_spec E" "burn_spec E" "vrf_inv E s" "rt_step E s s'"
  shows "vrf_inv E s'"
  using assms(4)
proof cases
  case (rt_extrinsic orig c)
  then show ?thesis unfolding rt_execute_def by (rule rt_dispatch_vrf_inv [OF assms(1-3)])
next
  case (rt_block n)
  then show ?thesis using inv_on_initialize [OF assms(1) inv_block_number [OF assms(3)]] by blast
next
  case (rt_nonce w)
  then show ?thesis by (intro inv_inner [OF assms(3)]) simp
next
  case (rt_balances a b v m)
  have "vrf_inv E (s\<lparr>native := m\<rparr>)"
    by (rule inv_native [OF assms(3)]) (rule balances_transferD(1) [OF assms(1) rt_balances(2)])
  with rt_balances(1) show ?thesis by simp
qed

lemma step_bridge_inv:
  assumes "bridge_inv E s" "rt_step E s s'"
  shows "bridge_inv E s' \<and> ballots_evolve s s'"
  using assms(2)
proof cases
  case (rt_extrinsic orig c)
  then show ?thesis unfolding rt_execute_def by (rule rt_dispatch_bridge [OF assms(1)])
next
  case (rt_block n)
  have "outer s' = outer (s\<lparr>block_number := n\<rparr>)" by (rule outer_on_initialize [OF rt_block(1)])
  then have "outer s' = outer s" by simp
  then show ?thesis by (intro evolve_brg [OF assms(1)] outerD)
next
  case (rt_nonce w)
  then have "outer s' = outer s" by simp
  then show ?thesis by (intro evolve_brg [OF assms(1)] outerD)
next
  case (rt_balances a b v m)
  then have "outer s' = outer s" by simp
  then show ?thesis by (intro evolve_brg [OF assms(1)] outerD)
qed

lemma step_fin_receipts:
  assumes "fin_receipts s" "rt_step E s s'"
  shows "fin_receipts s'"
  using assms(2)
proof cases
  case (rt_extrinsic orig c)
  then show ?thesis unfolding rt_execute_def rt_dispatch.simps using frugal_body [OF frugal_dispatch assms(1)] by blast
next
  case (rt_block n)
  have "outer s' = outer (s\<lparr>block_number := n\<rparr>)" by (rule outer_on_initialize [OF rt_block(1)])
  then show ?thesis using assms(1) fin_outer [of s' s] by simp
next
  case (rt_nonce w)
  then show ?thesis using assms(1) fin_outer [of s' s] by simp
next
  case (rt_balances a b v m)
  then show ?thesis using assms(1) fin_outer [of s' s] by simp
qed

lemma rt_fin: "rt_reachable E s \<Longrightarrow> fin_receipts s"
proof (induction rule: rt_reachable.induct)
  case (rt_start s)
  then show ?case by (simp add: rt_genesis_def vrf_genesis_def fin_receipts_def)
qed (rule step_fin_receipts)

lemma rt_bridge: "rt_reachable E s \<Longrightarrow> bridge_inv E s"
proof (induction rule: rt_reachable.induct)
  case (rt_start s)
  then show ?case by (simp add: rt_genesis_def bridge_inv_genesis)
qed (use step_bridge_inv in blast)

lemma rt_reachable_inv:
  assumes "balances_spec E" "burn_spec E" "rt_reachable E s"
  shows "rt_inv E s"
proof -
  from assms(3) have "vrf_inv E s"
  proof (induction rule: rt_reachable.induct)
    case (rt_start s)
    then show ?case by (simp add: rt_genesis_def inv_genesis)
  qed (use step_vrf_inv [OF assms(1,2)] in blast)
  with rt_fin [OF assms(3)] rt_bridge [OF assms(3)] show ?thesis by (simp add: rt_inv_def)
qed

lemma steps_evolve:
  "(rt_step E)\<^sup>*\<^sup>* s s' \<Longrightarrow> bridge_inv E s \<Longrightarrow> bridge_inv E s' \<and> ballots_evolve s s'"
proof (induction rule: rtranclp_induct)
  case (step s1 s2)
  then show ?case using step_bridge_inv [of E s1 s2] ballots_evolve_trans [of s s1 s2] by blast
qed simp

section \<open>Termination\<close>

text \<open>
  C12: the dispatch of a call returns in every reachable state, although it may run callbacks that
  the receipts hold and calls that proposals carry, which may be calls of any pallet and dispatch
  further ones. The weight of the call and of the stored callbacks bounds the depth: any larger bound
  gives the same result, that result satisfies the recursion of the code, and it is the only one
  that does.
\<close>

theorem dispatch_terminates:
  assumes "rt_reachable E s"
  shows "(\<forall>n. call_weight c + pending_weight s < n \<longrightarrow> rt_dispatch E n orig c s = rt_execute E orig c s) \<and>
    rt_execute E orig c s = rt_body E (\<lambda>cb w. rt_execute E (Signed w) cb) orig c s \<and>
    (\<forall>f. (\<forall>orig c u. finite (dom (Receipts u)) \<longrightarrow> f orig c u = rt_body E (\<lambda>cb w. f (Signed w) cb) orig c u) \<longrightarrow>
       f orig c s = rt_execute E orig c s)"
proof (intro conjI allI impI)
  note fin = rt_fin [OF assms]
  show "rt_dispatch E n orig c s = rt_execute E orig c s" if "call_weight c + pending_weight s < n" for n
    using rt_execute_fuel [OF fin, of c n] that by (simp add: depth_def)
  show "rt_execute E orig c s = rt_body E (\<lambda>cb w. rt_execute E (Signed w) cb) orig c s" by (rule rt_execute_rec [OF fin])
  show "f orig c s = rt_execute E orig c s"
    if "\<forall>orig c u. finite (dom (Receipts u)) \<longrightarrow> f orig c u = rt_body E (\<lambda>cb w. f (Signed w) cb) orig c u" for f
    by (rule solution_unique [OF _ fin]) (use that in \<open>simp add: fin_receipts_def\<close>)
qed

lemma r7_weight: "pending_weight r7 = 1"
proof -
  have "dom (Receipts r7) = {(bob, bob), (bob, alice)}" by (auto simp: r_defs)
  then show ?thesis by (simp add: pending_weight_def msum_def r_defs nested_batch_def)
qed

theorem dispatch_terminates_witness:
  "rt_dispatch hdl_env 2 (Signed bob) (Verifier (Call_verify [withdraw_bob])) r7 = Inr r8"
proof -
  have "call_weight (Verifier (Call_verify [withdraw_bob])) + pending_weight r7 < 2" by (simp add: r7_weight)
  with dispatch_terminates [OF r_reachable(1), of "Verifier (Call_verify [withdraw_bob])" "Signed bob"] r8_run
  show ?thesis by metis
qed

section \<open>Custody under arbitrary callbacks and proposals\<close>

text \<open>
  C11: in every reachable state of the composed runtime the ledger of the verifier is backed by reserved
  balances, open authorisations by their stash, the total of a dominator is the sum of its stakings, an
  active dominator has reached the threshold, the number of relayers is exact and no relayer has voted
  twice. Nothing is assumed of callbacks and proposals: they may be any calls of the pallets,
  nested to any depth.
\<close>

theorem runtime_invariant:
  assumes "balances_spec E" "burn_spec E" "rt_reachable E s"
  shows "(\<Sum>(i, d)\<in>{(i, d). Reserves s ((i, w, t), d) \<noteq> None}. unat (get_reserve s ((i, w, t), d)))
      \<le> unat (reserved_balance E s t w) \<and>
    (\<forall>d a n. Receipts s (d, w) = Some (Authorize t a n) \<longrightarrow>
       a \<le> get_reserve s ((RESERVE_FOR_AUTHORIZING_STASH, w, t), d)) \<and>
    (\<forall>d D. get_dominator s d = Some D \<longrightarrow>
       d_staked D = msum stk_amount (\<lambda>a. Stakings s (d, a)) \<and>
       (d_status D = DOMINATOR_ACTIVE \<longrightarrow> DominatorOnlineThreshold E \<le> d_staked D)) \<and>
    RelayerCount s = of_nat (card {a. Relayers s a}) \<and> relayer_threshold s \<noteq> 0 \<and>
    (\<forall>k v. Votes s k = Some v \<longrightarrow> distinct (votes_for v @ votes_against v))"
proof -
  have inv: "vrf_inv E s" "bridge_inv E s" using rt_reachable_inv [OF assms] by (simp_all add: rt_inv_def)
  then have "solvent E s" "staking_inv E s" "status_inv E s" by (simp_all add: vrf_inv_def)
  then show ?thesis using inv(2)
    unfolding solvent_def receipts_backed_def booked_sum staking_inv_def stakers_def status_inv_def bridge_inv_def
      ballot_inv_def relayer_set_def
    by blast
qed

theorem runtime_invariant_witness:
  "rt_reachable hdl_env r8 \<and> reserved_balance hdl_env r8 0 alice = 230 \<and>
   (\<Sum>(i, d)\<in>{(i, d). Reserves r8 ((i, alice, 0), d) \<noteq> None}. unat (get_reserve r8 ((i, alice, 0), d))) \<le> 230 \<and>
   200 = msum stk_amount (\<lambda>a. Stakings r8 (bob, a))"
proof -
  have r: "reserved_balance hdl_env r8 0 alice = 230"
    by (simp add: reserved_balance_def r_defs sb_reserved_def sb_put_def)
  have D: "get_dominator r8 bob = Some (bob_at 3 1)" "d_staked (bob_at 3 1) = 200"
    by (simp_all add: r8_def get_dominator_def bob_at_def dominator_of_def)
  from runtime_invariant [OF spec_hdl_env(1) burn_hdl_env r_reachable(2), of alice 0] r D r_reachable(2)
  show ?thesis by auto
qed

section \<open>Withdrawals with a callback\<close>

text \<open>What a batch of one proved withdrawal does: the receipt goes, the callback runs as the owner of the
  funds, and nothing else than the root of the dominator and the prices is written afterwards.\<close>

lemma withdrawal_runs_callback:
  fixes s s' :: "'b rt_chain"
  assumes "rt_reachable E s" "rt_execute E (Signed d) (Verifier (Call_verify [p])) s = Inr s'"
    and "cmd p = TransferOut c v" "Receipts s (d, user_id p) = Some (RevokeWithCallback t a n cb)"
  obtains D s1 u where "get_dominator s d = Some D" "get_dominator s1 d = Some D"
    "verify E (\<lambda>cb w. rt_execute E (Signed w) cb) (Signed d) [p] s = Inr s'" "fin_receipts s1"
    "Receipts s1 = (Receipts s)((d, user_id p) := None)"
    "caught (rt_execute E (Signed (user_id p)) cb s1) s1 = Inr u"
    "Reserves s' = Reserves u" "Receipts s' = Receipts u" "native s' = native u"
proof -
  let ?disp = "\<lambda>cb w. rt_execute E (Signed w) cb"
  have run: "verify E ?disp (Signed d) [p] s = Inr s'"
    using assms(2) unfolding rt_execute_rec [OF rt_fin [OF assms(1)]] by simp
  from run obtain D where D: "get_dominator s d = Some D" by (auto simp: verify_def res_simps)
  from run D assms(3) obtain u tr tr' s3 incr where out: "handle_transfer_out E ?disp d c v p s = Inr u"
    and fwd: "step_forward d p (tr', u) = Inr (tr, s3)" and s': "s' = set_prices E incr s3"
    by (auto simp: verify_def verify_batch_def verify_one_def verify_and_update_def Let_def res_simps)
  obtain s1 where un: "unreserve E RESERVE_FOR_AUTHORIZING (user_id p) c v d s = Inr s1"
    and cb: "caught (?disp cb (user_id p) (put_receipt (d, user_id p) None s1)) (put_receipt (d, user_id p) None s1) = Inr u"
    using out assms(4) by (auto simp: handle_transfer_out_def Let_def res_simps)
  let ?s1 = "put_receipt (d, user_id p) None s1"
  have D1: "get_dominator ?s1 d = Some D" using D unreserve_own_rest(1) [OF un] by (simp add: get_dominator_def)
  have r: "Receipts ?s1 = (Receipts s)((d, user_id p) := None)" using outerD(2) [OF outer_unreserve [OF un]] by simp
  then have fin: "fin_receipts ?s1" using rt_fin [OF assms(1)] by (simp add: fin_receipts_def)
  have rest: "Reserves s' = Reserves u" "Receipts s' = Receipts u" "native s' = native u"
    using fwd ownD [OF own_set_prices, of E incr s3]
    by (auto simp: s' step_forward_def res_simps)
  show thesis by (rule that [OF D D1 run fin r cb rest])
qed

section \<open>A batch inside a batch\<close>

text \<open>
  C17: a dominator may be the owner of the funds it hosts and may carry a batch of proofs in the callback
  of its own revocation. When the withdrawal is proved, the carried batch runs from the root that the
  outer batch started from, its settlements stay, and then the outer proof overwrites the root: the
  two accepted batches do not form one chain, and what the inner one proved is not in the stored root.
\<close>

theorem nested_batch_forgotten:
  assumes "rt_reachable E s" "rt_execute E (Signed d) (Verifier (Call_verify [p])) s = Inr s'"
    and "cmd p = TransferOut c v" "user_id p = d"
    and "Receipts s (d, d) = Some (RevokeWithCallback t a n (Verifier (Call_verify qs)))"
  shows "\<exists>D s1. get_dominator s d = Some D \<and> get_dominator s1 d = Some D \<and>
    root_chain E (d_merkle_root D) [p] \<and> map_option d_merkle_root (get_dominator s' d) = Some (proof_root p) \<and>
    (\<forall>s2. rt_execute E (Signed d) (Verifier (Call_verify qs)) s1 = Inr s2 \<longrightarrow>
       root_chain E (d_merkle_root D) qs \<and>
       map_option d_merkle_root (get_dominator s2 d) = Some (fold next_root qs (d_merkle_root D)) \<and>
       Reserves s' = Reserves s2 \<and> Receipts s' = Receipts s2 \<and> native s' = native s2)"
proof -
  let ?disp = "\<lambda>cb w. rt_execute E (Signed w) cb"
  from assms(4,5) have r: "Receipts s (d, user_id p) = Some (RevokeWithCallback t a n (Verifier (Call_verify qs)))" by simp
  from withdrawal_runs_callback [OF assms(1-3) r] obtain D s1 u where D: "get_dominator s d = Some D"
    and D1: "get_dominator s1 d = Some D" and run: "verify E ?disp (Signed d) [p] s = Inr s'" and fin: "fin_receipts s1"
    and cb: "caught (rt_execute E (Signed d) (Verifier (Call_verify qs)) s1) s1 = Inr u"
    and rest: "Reserves s' = Reserves u" "Receipts s' = Receipts u" "native s' = native u"
    unfolding assms(4) by blast
  have "root_chain E (d_merkle_root D) qs \<and>
      map_option d_merkle_root (get_dominator s2 d) = Some (fold next_root qs (d_merkle_root D)) \<and>
      Reserves s' = Reserves s2 \<and> Receipts s' = Receipts s2 \<and> native s' = native s2"
    if "rt_execute E (Signed d) (Verifier (Call_verify qs)) s1 = Inr s2" for s2
  proof -
    have "u = s2" using cb that by (simp add: caught_def)
    moreover have "verify E ?disp (Signed d) qs s1 = Inr s2" using that unfolding rt_execute_rec [OF fin] by simp
    from verify_stored_root [OF this D1] have "root_chain E (d_merkle_root D) qs"
      "map_option d_merkle_root (get_dominator s2 d) = Some (fold next_root qs (d_merkle_root D))"
      by (simp_all add: stored_root_def)
    ultimately show ?thesis using rest by simp
  qed
  moreover have "root_chain E (d_merkle_root D) [p] \<and>
      map_option d_merkle_root (get_dominator s' d) = Some (proof_root p)"
    using verify_stored_root [OF run D] assms(3) by (simp add: stored_root_def next_root_def)
  ultimately show ?thesis using D D1 by blast
qed

theorem nested_batch_forgotten_witness:
  "rt_reachable hdl_env r7 \<and>
   rt_execute hdl_env (Signed bob) (Verifier (Call_verify [withdraw_bob])) r7 = Inr r8 \<and>
   root_chain hdl_env (replicate 32 1) [withdraw_bob] \<and>
   map_option d_merkle_root (get_dominator r8 bob) = Some (replicate 32 3) \<and>
   get_reserve r8 (auth_key alice) = 30"
proof -
  have r: "Receipts r7 (bob, bob) = Some (RevokeWithCallback 0 30 150 (Verifier (Call_verify [deposit_alice])))"
    by (simp add: r_defs nested_batch_def)
  have D: "get_dominator r7 bob = Some (bob_at 1 1)" "d_merkle_root (bob_at 1 1) = replicate 32 1"
    by (simp_all add: r_defs get_dominator_def dominator_of_def)
  have "get_reserve r8 (auth_key alice) = 30" by (simp add: r_defs get_reserve_def reserve_ids)
  with nested_batch_forgotten [OF r_reachable(1) r8_run sample_proofs(7,8) r] D r8_run r_reachable(1)
  show ?thesis by auto
qed

section \<open>Decisions of the relayers\<close>

text \<open>
  C14: once the ballot on a proposal is complete in a reachable state of the composed runtime, it stays
  as it is in every later state and every further vote on it and evaluation of it fails, although
  the proposal and all callbacks are arbitrary calls of the runtime, calls of the bridge included.
\<close>

theorem runtime_decides_once:
  assumes "rt_reachable E s" "Votes s (src, nonce, p) = Some v" "is_complete v" "(rt_step E)\<^sup>*\<^sup>* s s'"
  shows "Votes s' (src, nonce, p) = Some v \<and>
    rt_execute E (Signed w) (Bridge (Eval_vote_state nonce src p)) s' = Inl (BridgeE ProposalAlreadyComplete) \<and>
    (\<exists>e. rt_execute E (Signed w) (Bridge (Acknowledge_proposal nonce src rid h p)) s' = Inl e) \<and>
    (\<exists>e. rt_execute E (Signed w) (Bridge (Reject_proposal nonce src rid p)) s' = Inl e)"
proof -
  have "ballots_evolve s s'" using steps_evolve [OF assms(4) rt_bridge [OF assms(1)]] by simp
  from ballots_evolveD [OF this assms(2)] assms(3) have v: "Votes s' (src, nonce, p) = Some v" by metis
  have c: "Votes u (src, nonce, p) = Some v \<Longrightarrow>
      commit_vote E w nonce src p fav u = Inl (BridgeE ProposalAlreadyComplete)" for fav and u :: "'a rt_chain"
    using assms(3) by (simp add: commit_vote_def)
  show ?thesis using v assms(3)
    by (auto simp: rt_execute_def eval_vote_state_def try_resolve_proposal_def acknowledge_proposal_def
        reject_proposal_def vote_for_def vote_against_def ensure_def c)
qed

text \<open>A single relayer approves a payment of 300 to Alice from chain 1.\<close>

definition pay :: rt_call where "pay = ChainBridgeTransfer (Call_transfer_in alice 300 tao_rid)"

definition q3 :: "sample_bal rt_chain" where
  "q3 = r0\<lparr>ChainNonces := [1 \<mapsto> 0], Relayers := (\<lambda>_. False)(rel 1 := True), RelayerCount := 1,
     Resources := [tao_rid \<mapsto> [1]], events := map BridgeEv [ChainWhitelisted 1, RelayerAdded (rel 1)]\<rparr>"

definition approved :: proposal_votes where
  "approved = \<lparr>votes_for = [rel 1], votes_against = [], pv_status = Approved, expiry = 200\<rparr>"

definition q4 :: "sample_bal rt_chain" where
  "q4 = q3\<lparr>Votes := [(1, 0, pay) \<mapsto> approved],
     native := sb_put bob (990, 0) (sb_put alice (1310, 0) (sb_put bridge_acc (700, 0) (native r0))),
     events := events q3 @ map BridgeEv [ProposalVote 1 (replicate 32 0) 0, VoteFor 1 0 (rel 1),
       ProposalApproved 1 0, ProposalSucceeded 1 0]\<rparr>"

lemmas q_defs = q4_def q3_def r0_def approved_def

lemma q3_run:
  "rfold (\<lambda>c. rt_execute hdl_env Root (Bridge c)) [Whitelist_chain 1, Set_resource tao_rid [1], Add_relayer (rel 1)] r0
   = Inr q3"
  by (simp add: rt_execute_def whitelist_chain_def ensure_bridge_admin_def whitelist_def chain_whitelisted_def
      set_resource_def register_resource_def add_relayer_def register_relayer_def is_relayer_def q_defs deposit_event_def)

lemma q4_run:
  "rt_execute hdl_env (Signed (rel 1)) (Bridge (Acknowledge_proposal 0 1 tao_rid (replicate 32 0) pay)) q3 = Inr q4"
proof -
  have fin: "fin_receipts q3" by (simp add: fin_receipts_def q_defs)
  let ?disp = "\<lambda>cb w. rt_execute hdl_env (Signed w) cb"
  let ?s = "q4\<lparr>native := native r0, events := butlast (events q4)\<rparr>"
  have "brg_dispatch hdl_env ?disp (Signed (rel 1)) (Acknowledge_proposal 0 1 tao_rid (replicate 32 0) pay) q3 =
      finalize_execution hdl_env ?disp 1 0 pay (q4\<lparr>native := native r0, events := butlast (butlast (events q4))\<rparr>)"
    by (simp add: acknowledge_proposal_def is_relayer_def chain_whitelisted_def resource_exists_def vote_for_def
        commit_vote_def default_votes_def is_complete_def is_expired_def hash_voted_def try_resolve_proposal_def
        try_to_complete_def relayer_threshold_def DEFAULT_RELAYER_THRESHOLD_def q_defs deposit_event_def)
  moreover have "rt_execute hdl_env (Signed bridge_acc) pay ?s = Inr (q4\<lparr>events := butlast (events q4)\<rparr>)"
    by (simp add: rt_execute_def pay_def transfer_in_def is_native_resource_def decode_resource_id_def tao_rid_def do_unlock_def
        transfer_token_def sb_transfer_def authorize_native_def donate_def caught_def q_defs
        sb_put_def sb_free_def sb_reserved_def checked_add_def fun_eq_iff)
  ultimately show ?thesis unfolding rt_execute_rec [OF fin]
    by (simp add: finalize_execution_def q4_def deposit_event_def butlast_append)
qed

lemma q_reachable: "rt_reachable hdl_env q4"
proof -
  have "rt_reachable hdl_env r0"
    by (rule rt_start) (simp add: rt_genesis_def vrf_genesis_def brg_genesis_def r0_def)
  then have "rt_reachable hdl_env q3"
    by (rule rfold_invariant [OF q3_run]) (rule rt_next [OF _ rt_extrinsic])
  then show ?thesis by (rule rt_next [OF _ rt_extrinsic [OF q4_run]])
qed

theorem runtime_decides_once_witness:
  "rt_reachable hdl_env q4 \<and> Votes q4 (1, 0, pay) = Some approved \<and>
   rt_execute hdl_env (Signed (rel 3)) (Bridge (Eval_vote_state 0 1 pay)) q4 = Inl (BridgeE ProposalAlreadyComplete)"
proof -
  have v: "Votes q4 (1, 0, pay) = Some approved" "is_complete approved" by (simp_all add: q4_def is_complete_def approved_def)
  show ?thesis using runtime_decides_once [OF q_reachable v rtranclp.rtrancl_refl, of "rel 3"] v(1) q_reachable by simp
qed

text \<open>
  C6: a proposal is executed at most once in the whole life of the composed runtime. The bridge writes its
  approval event for a source chain and a nonce right before it dispatches the call of the proposal, and
  in every reachable state the number of these events for a source chain and a nonce is the number of
  the calls whose ballots under that chain and nonce are approved. So each dispatch belongs to an
  approved call of its own, whatever the callbacks and the proposals, calls of the bridge
  included, have run.
\<close>

theorem runtime_executes_once:
  assumes "rt_reachable E s"
  shows "finite {p. \<exists>v. Votes s (src, nonce, p) = Some v \<and> pv_status v = Approved} \<and>
    count_list (events s) (BridgeEv (ProposalApproved src nonce)) =
      card {p. \<exists>v. Votes s (src, nonce, p) = Some v \<and> pv_status v = Approved}"
proof -
  have "approvals_logged (Votes s) (approvals (events s))" using rt_bridge [OF assms] by (simp add: bridge_inv_def)
  then show ?thesis by (simp add: approvals_logged_def count_approvals approved_calls_def)
qed

theorem runtime_executes_once_witness:
  "rt_reachable hdl_env q4 \<and> rt_execute hdl_env (Signed (rel 1)) (Bridge (Acknowledge_proposal 0 1 tao_rid (replicate 32 0) pay)) q3 = Inr q4 \<and>
   count_list (events q4) (BridgeEv (ProposalApproved 1 0)) = 1 \<and>
   card {p. \<exists>v. Votes q4 (1, 0, p) = Some v \<and> pv_status v = Approved} = 1"
proof -
  have "{p. \<exists>v. Votes q4 (1, 0, p) = Some v \<and> pv_status v = Approved} = {pay}" by (auto simp: q4_def approved_def)
  with runtime_executes_once [OF q_reachable, of 1 0] q4_run q_reachable show ?thesis by simp
qed

end
