(* ===== verification/Fuso_Dominators_Props.thy ===== *)
theory Fuso_Dominators_Props
  imports Fuso_Runtime_Props
begin

text \<open>
  The dominators of the composed runtime: what every stored dominator looks like in every reachable
  state, and that its way through the statuses survives all callbacks and proposals.
\<close>

section \<open>Calls that leave the dominators alone\<close>

lemma authorize_to_dominators: "authorize_to E w d t v s = Inr s' \<Longrightarrow> Dominators s' = Dominators s"
  by (auto simp: authorize_to_def res_simps put_receipt_def dest!: reserve_own_rest(1))

lemma authorize_in_dominators:
  "authorize_native E w v rid s = Inr s' \<Longrightarrow> Dominators s' = Dominators s"
  "authorize_asset E w v rid s = Inr s' \<Longrightarrow> Dominators s' = Dominators s"
  by (auto simp: authorize_native_def authorize_asset_def res_simps dest!: authorize_to_dominators split: option.splits)

lemma transfer_in_dominators:
  assumes "transfer_in E orig w v rid s = Inr s'"
  shows "Dominators s' = Dominators s"
proof -
  have donated: "Dominators s' = Dominators s1" if "donate E w s1 = Inr s'" for s1
    using that by (auto simp: donate_def res_simps dest!: ownD(2) [OF own_transfer] split: if_splits)
  from assms show ?thesis
  proof (cases rule: transfer_in_elim)
    case (1 s1)
    then obtain u where "transfer_token E (bridge_account E) (native_token_id E) v w s = Inr u"
      "authorize_native E w v rid u = Inr s1" by (auto simp: do_unlock_def res_simps)
    then show ?thesis using donated [OF 1(4)] authorize_in_dominators(1) ownD(2) [OF own_transfer] by metis
  next
    case (2 s1)
    then obtain t u where "do_mint t w v s = Inr u" "authorize_asset E w v rid u = Inr s1"
      by (auto simp: do_mint_assets_def mint_into_def res_simps)
    then show ?thesis using donated [OF 2(4)] authorize_in_dominators(2) ownD(2) [OF mint_reserved(1)] by metis
  qed
qed

lemma transfer_out_dominators:
  assumes "transfer_out E orig v rid rcpt dest s = Inr s'"
  shows "Dominators s' = Dominators s"
  using assms
  by (auto simp: transfer_out_def do_lock_def do_burn_assets_def burn_from_def Let_def res_simps
      dest!: own_transfer burn_reserved(1) inner_transfer_fungible ownD(2) innerD(1) split: if_splits)

lemma cbt_dominators: "cbt_dispatch E orig c s = Inr s' \<Longrightarrow> Dominators s' = Dominators s"
  by (cases c) (auto simp: native_limit_def associate_dominator_def remark_def res_simps
      dest: transfer_in_dominators transfer_out_dominators)

lemma inner_dominators: "inner s' = inner s \<Longrightarrow> Dominators s' = Dominators s"
  by (rule ownD(2) [OF innerD(1)])

lemma tok_dominators: "tok_dispatch E orig c s = Inr s' \<Longrightarrow> Dominators s' = Dominators s"
  by (cases c) (auto simp: issue_def mark_stable_def transfer_def associate_token_def res_simps
      dest!: inner_dominators [OF inner_create] ownD(2) [OF own_transfer])

section \<open>The dispatcher\<close>

lemma evolves_brg:
  assumes "callbacks_evolve E disp" "vrf_inv E s" "brg_dispatch E disp orig c s = Inr s'"
  shows "evolves s s'"
  using brg_call_inner [OF assms(3)]
proof (elim disjE exE conjE)
  fix p s1 s2
  assume run: "inner s1 = inner s" "disp p (bridge_account E) s1 = Inr s2" "inner s' = inner s2"
  then have "evolves s1 s2"
    using assms(1) inv_inner [OF assms(2) run(1)] unfolding callbacks_evolve_def by blast
  moreover have "evolves s s1" "evolves s2 s'"
    by (intro evolves_dominators inner_dominators run)+
  ultimately show ?thesis by (blast intro: evolves_trans)
qed (intro evolves_dominators inner_dominators)

lemma rt_body_evolves:
  assumes "balances_spec E" "keeps disp (vrf_inv E)" "callbacks_evolve E disp" "vrf_inv E s"
    and "rt_body E disp orig c s = Inr s'"
  shows "evolves s s'"
proof (cases c)
  case (Reward x)
  note step = evolves_step [OF assms(1-4) step_take_reward]
  show ?thesis
  proof (cases x)
    case Call_take_reward
    with Reward assms(5) show ?thesis by (intro step) simp
  next
    case (Call_set_era_rewards v)
    with Reward assms(5) show ?thesis by (auto simp: set_era_rewards_def res_simps intro: evolves_dominators)
  qed
next
  case (Verifier x)
  with assms(5) show ?thesis by (intro evolves_step [OF assms(1-4) step_call]) simp
qed (use assms(5) evolves_brg [OF assms(3,4)] in \<open>auto intro: evolves_dominators tok_dominators cbt_dominators\<close>)

lemma rt_dispatch_evolves:
  assumes "balances_spec E" "burn_spec E"
  shows "callbacks_evolve E (\<lambda>cb w. rt_dispatch E n (Signed w) cb)"
proof (induction n)
  case (Suc n)
  have "keeps (\<lambda>cb w. rt_dispatch E n (Signed w) cb) (vrf_inv E)"
    unfolding keeps_def using rt_dispatch_vrf_inv [OF assms] by blast
  from rt_body_evolves [OF assms(1) this Suc.IH] show ?case by (simp add: callbacks_evolve_def)
qed (simp add: callbacks_evolve_def)

lemma rt_step_evolves:
  assumes "balances_spec E" "burn_spec E" "vrf_inv E s" "rt_step E s s'"
  shows "evolves s s'"
  using assms(4)
proof cases
  case (rt_extrinsic orig c)
  let ?n = "call_weight c + pending_weight s"
  have "keeps (\<lambda>cb w. rt_dispatch E ?n (Signed w) cb) (vrf_inv E)"
    unfolding keeps_def using rt_dispatch_vrf_inv [OF assms(1,2)] by blast
  from rt_body_evolves [OF assms(1) this rt_dispatch_evolves [OF assms(1,2)] assms(3)] rt_extrinsic
  show ?thesis by (simp add: rt_execute_def)
next
  case (rt_block n)
  have "keeps (\<lambda>cb w. rt_dispatch E 0 (Signed w) cb) (vrf_inv E)" by (simp add: keeps_def)
  from evolves_step [OF assms(1) this rt_dispatch_evolves [OF assms(1,2)] assms(3) step_block [OF rt_block]] show ?thesis .
next
  case (rt_nonce w)
  then show ?thesis by (intro evolves_dominators) (simp add: inc_account_nonce_def)
next
  case (rt_balances a b v m)
  then show ?thesis by (intro evolves_dominators) simp
qed

lemma rt_steps_evolve:
  assumes "balances_spec E" "burn_spec E" "rt_reachable E s" "(rt_step E)\<^sup>*\<^sup>* s s'"
  shows "rt_reachable E s' \<and> evolves s s'"
  using assms(4)
proof (induction rule: rtranclp_induct)
  case (step s1 s2)
  then have "vrf_inv E s1" using rt_reachable_inv [OF assms(1,2)] by (simp add: rt_inv_def)
  from rt_step_evolves [OF assms(1,2) this step.hyps(2)] step show ?case
    by (blast intro: rt_next evolves_trans)
qed (simp add: assms(3))

lemma rt_dominators_ok:
  assumes "balances_spec E" "burn_spec E" "rt_reachable E s"
  shows "dominators_ok s"
  using assms(3)
proof (induction rule: rt_reachable.induct)
  case (rt_start s)
  then show ?case by (simp add: rt_genesis_def vrf_genesis_def dominators_ok_def get_dominator_def)
next
  case (rt_next s s')
  then have "evolves s s'" using rt_reachable_inv [OF assms(1,2)] rt_step_evolves [OF assms(1,2)] by (simp add: rt_inv_def)
  with rt_next show ?case by (simp add: evolves_def)
qed

text \<open>
  C15: in every reachable state of the composed runtime a stored dominator is well formed: its name has 2
  to 32 seven-bit characters and belongs to no other dominator, and its status is one of the four of
  the code. Whatever calls, callbacks and proposals run later, it keeps its name and its first block, is
  never removed, and an evicted one stays evicted.
\<close>

theorem runtime_dominators:
  assumes "balances_spec E" "burn_spec E" "rt_reachable E s" "get_dominator s d = Some D"
  shows "(\<forall>b \<in> set (d_name D). b < 128) \<and> 2 \<le> length (d_name D) \<and> length (d_name D) \<le> 32 \<and>
    d_status D \<in> {DOMINATOR_REGISTERED, DOMINATOR_INACTIVE, DOMINATOR_ACTIVE, DOMINATOR_EVICTED} \<and>
    (\<forall>e F. get_dominator s e = Some F \<longrightarrow> d_name F = d_name D \<longrightarrow> e = d) \<and>
    (\<forall>s'. (rt_step E)\<^sup>*\<^sup>* s s' \<longrightarrow> (\<exists>F. get_dominator s' d = Some F \<and> d_name F = d_name D \<and>
       d_start_from F = d_start_from D \<and> (d_status D = DOMINATOR_EVICTED \<longrightarrow> d_status F = DOMINATOR_EVICTED) \<and>
       (d_status F = DOMINATOR_REGISTERED \<longrightarrow> d_status D = DOMINATOR_REGISTERED)))"
proof -
  have "\<exists>F. get_dominator s' d = Some F \<and> d_name F = d_name D \<and> d_start_from F = d_start_from D \<and>
      (d_status D = DOMINATOR_EVICTED \<longrightarrow> d_status F = DOMINATOR_EVICTED) \<and>
      (d_status F = DOMINATOR_REGISTERED \<longrightarrow> d_status D = DOMINATOR_REGISTERED)" if "(rt_step E)\<^sup>*\<^sup>* s s'" for s'
  proof -
    from rt_steps_evolve [OF assms(1-3) that] have "evolves s s'" by simp
    then obtain F where "get_dominator s' d = Some F" "d_name F = d_name D" "d_start_from F = d_start_from D"
      "status_path (d_status D) (d_status F)" by (rule evolvesD [OF _ assms(4)])
    then show ?thesis by (intro exI [of _ F]) (auto simp: status_path_def dominator_statuses)
  qed
  moreover note ok = rt_dominators_ok [OF assms(1-3), unfolded dominators_ok_def valid_identifier_def, rule_format, OF assms(4)]
  ultimately show ?thesis using ok by blast
qed

theorem runtime_dominators_witness:
  "rt_reachable hdl_env r8 \<and> (\<exists>D. get_dominator r8 bob = Some D \<and> d_name D = [97, 98] \<and> (97 :: u8) < 128 \<and>
     d_status D \<in> {DOMINATOR_REGISTERED, DOMINATOR_INACTIVE, DOMINATOR_ACTIVE, DOMINATOR_EVICTED})"
proof -
  have D: "get_dominator r8 bob = Some (bob_at 3 1)" "d_name (bob_at 3 1) = [97, 98]"
    by (simp_all add: r8_def get_dominator_def bob_at_def dominator_of_def)
  from runtime_dominators [OF spec_hdl_env(1) burn_hdl_env r_reachable(2) D(1)] D r_reachable(2) show ?thesis by auto
qed

end
