(* ===== verification/Fuso_Custody_Props.thy ===== *)
theory Fuso_Custody_Props
  imports Fuso_Verifier_Machine
begin

text \<open>
  More properties of the verifier pallet that users rely on: a dominator's proofs reach only the
  funds hosted with it, and what the runtime interface reports as pending shares is what a claim
  pays, summed over all tokens. The last section settles an accepted order whose sums wrap around.
\<close>

section \<open>Isolation of dominators\<close>

text \<open>A step that only concerns the dominator \<open>d\<close>: the ledger, the receipts, the bonuses and the roots of
  all others stay, and no account but \<open>d\<close> loses free balance.\<close>

definition isolated ::
  "('b, 'x) verifier_env_scheme \<Rightarrow> account \<Rightarrow> ('b, 'c, 'z) verifier_chain_scheme \<Rightarrow> ('b, 'c, 'z) verifier_chain_scheme \<Rightarrow> bool" where
  "isolated E d s s' \<longleftrightarrow>
     (\<forall>k. snd k \<noteq> d \<longrightarrow> Reserves s' k = Reserves s k) \<and>
     (\<forall>e w. Receipts s' (e, w) = Receipts s (e, w) \<or> e = d \<and> Receipts s' (e, w) = None) \<and>
     (\<forall>e. e \<noteq> d \<longrightarrow> get_dominator s' e = get_dominator s e) \<and>
     (\<forall>e n. e \<noteq> d \<longrightarrow> Bonuses s' (e, n) = Bonuses s (e, n)) \<and>
     Stakings s' = Stakings s \<and> PendingUnstakings s' = PendingUnstakings s \<and>
     (\<forall>t w. w \<noteq> d \<longrightarrow> unat (free_balance E s t w) \<le> unat (free_balance E s' t w))"

lemma isolated_refl [simp]: "isolated E d s s" by (simp add: isolated_def)

lemma isolatedD:
  assumes "isolated E d s s'"
  shows "snd k \<noteq> d \<Longrightarrow> Reserves s' k = Reserves s k"
    and "Receipts s' (e, w) = Receipts s (e, w) \<or> e = d \<and> Receipts s' (e, w) = None"
    and "e \<noteq> d \<Longrightarrow> get_dominator s' e = get_dominator s e"
    and "e \<noteq> d \<Longrightarrow> Bonuses s' (e, n) = Bonuses s (e, n)"
    and "Stakings s' = Stakings s" "PendingUnstakings s' = PendingUnstakings s"
    and "w \<noteq> d \<Longrightarrow> unat (free_balance E s t w) \<le> unat (free_balance E s' t w)"
  using assms unfolding isolated_def by blast+

lemma isolated_trans:
  assumes "isolated E d s s1" "isolated E d s1 s2"
  shows "isolated E d s s2"
proof -
  note i1 = isolatedD [OF assms(1)] and i2 = isolatedD [OF assms(2)]
  have "Receipts s2 (e, w) = Receipts s (e, w) \<or> e = d \<and> Receipts s2 (e, w) = None" for e w
    using i1(2) [of e w] i2(2) [of e w] by auto
  moreover have "unat (free_balance E s t w) \<le> unat (free_balance E s2 t w)" if "w \<noteq> d" for t w
    by (rule order_trans [OF i1(7) i2(7)]) (use that in simp_all)
  ultimately show ?thesis using i1(1,3-6) i2(1,3-6) by (simp add: isolated_def)
qed

lemma isolated_own:
  assumes "own s' = own s" "\<And>t w. w \<noteq> d \<Longrightarrow> unat (free_balance E s t w) \<le> unat (free_balance E s' t w)"
  shows "isolated E d s s'"
  using ownD [OF assms(1)] assms(2) by (simp add: isolated_def)

lemma isolated_put_reserve: "isolated E d s (put_reserve (k, d) v s)"
  by (auto simp: isolated_def get_dominator_def)

lemma isolated_put_receipt: "isolated E d s (put_receipt (d, w) None s)"
  by (auto simp: isolated_def get_dominator_def)

lemma isolated_put_dominator: "isolated E d s (put_dominator d D s)"
  by (auto simp: isolated_def)

lemma isolated_put_profit: "isolated E d s (put_profit d n t v s)"
proof -
  have "free_balance E (put_profit d n t v s) = free_balance E s" by (rule balance_of_same(1)) (simp_all add: put_profit_def Let_def)
  then show ?thesis by (auto simp: isolated_def put_profit_def get_dominator_def Let_def)
qed

lemma isolated_clear:
  assumes "balances_spec E" "clear E w d t bal s = Inr s'"
  shows "isolated E d s s'"
proof -
  let ?r = "get_reserve s ((RESERVE_FOR_AUTHORIZING, w, t), d)"
  let ?f = "\<lambda>b s1. let left = (case checked_sub (snd b) ?r of None \<Rightarrow> 0 | Some v \<Rightarrow> v)
      in rbind (ok_or (checked_add left bal) (VerifierE vrf_err.Overflow)) (\<lambda>v. Inr ((fst b, v), s1))"
  from assms(2) obtain s1 where mut: "try_mutate_account E t w ?f s = Inr s1"
    and s': "s' = put_reserve ((RESERVE_FOR_AUTHORIZING, w, t), d) (Some bal) s1"
    by (auto simp: clear_def Let_def rbind_eq_Inr)
  have same: "\<forall>b p s2. ?f b s = Inr (p, s2) \<longrightarrow> s2 = s" by (auto simp: Let_def res_simps)
  obtain p where p: "?f (free_balance E s t w, reserved_balance E s t w) s = Inr (p, s)"
    and eff: "free_balance E s1 t w = fst p"
      "\<forall>t' w'. t' \<noteq> t \<or> w' \<noteq> w \<longrightarrow> free_balance E s1 t' w' = free_balance E s t' w'"
    using mutate_effect [OF assms(1) mut same] by blast
  from p have "fst p = free_balance E s t w" by (auto simp: Let_def res_simps)
  with eff have "free_balance E s1 t' w' = free_balance E s t' w'" for t' w' by (cases "t' = t \<and> w' = w") auto
  then have "isolated E d s s1" by (intro isolated_own own_mutate [OF mut same]) simp
  then show ?thesis unfolding s' by (rule isolated_trans) (rule isolated_put_reserve)
qed

lemma isolated_clear_users:
  assumes "balances_spec E" "rfold (clear_user E d b q) ms s = Inr s'"
  shows "isolated E d s s'"
proof (rule rfold_invariant [OF assms(2), where P = "isolated E d s"])
  fix m u u'
  assume u: "isolated E d s u" and "clear_user E d b q m u = Inr u'"
  then obtain w t v w' t' v' x y u1 u2 where c: "clear E w d t v u = Inr u1" "clear E w' d t' v' u1 = Inr u2"
    and s: "save_trading E w x y u2 = Inr u'" by (auto simp: clear_user_def res_simps)
  have "free_balance E u' = free_balance E u2"
    using s by (intro balance_of_same(1))
      (auto simp: save_trading_def rotate_reward_def Let_def res_simps store_reward_def split: if_splits)
  then have "isolated E d u2 u'" by (intro isolated_own own_save_trading [OF s]) simp
  with u isolated_clear [OF assms(1) c(1)] isolated_clear [OF assms(1) c(2)] show "isolated E d s u'"
    by (blast intro: isolated_trans)
qed simp

lemma isolated_fee:
  assumes "balances_spec E" "try_mutate_account E t d (\<lambda>b s. Inr ((fst b + f, snd b), s)) s = Inr s'"
  shows "isolated E d s s'"
proof (rule isolated_own)
  have same: "\<forall>b p s1. (\<lambda>b s. Inr ((fst b + f, snd b), s)) b s = Inr (p, s1) \<longrightarrow> s1 = s" by simp
  show "own s' = own s" by (rule own_mutate [OF assms(2) same])
  fix t' w assume "w \<noteq> d"
  with mutate_effect [OF assms same] show "unat (free_balance E s t' w) \<le> unat (free_balance E s' t' w)" by auto
qed

lemma isolated_settle:
  assumes "balances_spec E" "settle E d n b q cr tr s = Inr (tr', s')"
  shows "isolated E d s s'"
  using assms(2)
proof (cases rule: settle_elim)
  case (1 s1)
  have "isolated E d s s1" using 1(1) isolated_clear_users [OF assms(1)] by auto
  moreover have "isolated E d s1 (put_profit d n q (quote_fee cr) s1)" by (rule isolated_put_profit)
  moreover have "isolated E d (put_profit d n q (quote_fee cr) s1) s'"
    using 1(2) isolated_fee [OF assms(1)] by auto
  ultimately show ?thesis using isolated_trans by metis
qed

lemma isolated_step_forward: "step_forward d p (tr, s) = Inr (tr', s') \<Longrightarrow> isolated E d s s'"
  using isolated_put_dominator by (auto simp: step_forward_def res_simps)

lemma isolated_unreserve:
  assumes "balances_spec E" "unreserve E i w t v d s = Inr s'"
  shows "isolated E d s s'"
proof -
  have "Reserves s' k = Reserves s k" if "snd k \<noteq> d" for k
    using assms(2) that ownD(3) [OF own_token_unreserve] by (fastforce simp: unreserve_def Let_def res_simps split: if_splits)
  then show ?thesis
    using unreserve_own_rest [OF assms(2)] unreserve_get(1) [OF assms(2)] unreserve_free [OF assms]
    by (simp add: isolated_def get_dominator_def)
qed

definition no_callbacks :: "account \<Rightarrow> ('b, 'c, 'z) verifier_chain_scheme \<Rightarrow> bool" where
  "no_callbacks d s \<longleftrightarrow> (\<forall>w t a n cb. Receipts s (d, w) \<noteq> Some (RevokeWithCallback t a n cb))"

lemma no_callbacks_isolated: "isolated E d s s' \<Longrightarrow> no_callbacks d s \<Longrightarrow> no_callbacks d s'"
  using isolatedD(2) unfolding no_callbacks_def by (metis option.distinct(1))

lemma isolated_transfer_out:
  assumes "balances_spec E" "no_callbacks d s" "handle_transfer_out E disp d c v p s = Inr s'"
  shows "isolated E d s s'"
  using assms(3)
proof (cases rule: transfer_out_elim)
  case (1 r s1)
  have "s' = put_receipt (d, user_id p) None s1" using 1(1,5) assms(2) by (auto simp: no_callbacks_def)
  with isolated_trans [OF isolated_unreserve [OF assms(1) 1(4)] isolated_put_receipt] show ?thesis by simp
qed

lemma isolated_transfer_in: "handle_transfer_in d c v p s = Inr s' \<Longrightarrow> isolated E d s s'"
  by (auto simp: handle_transfer_in_def Let_def res_simps
      intro!: isolated_trans [OF isolated_trans [OF isolated_put_reserve isolated_put_reserve] isolated_put_receipt])

lemma isolated_rejects:
  "handle_reject_transfer_out d c v p s = Inr s' \<Longrightarrow> isolated E d s s'"
  "handle_reject_transfer_in d p s = Inr s' \<Longrightarrow> isolated E d s s'"
  using isolated_put_receipt
  by (auto simp: handle_reject_transfer_out_def handle_reject_transfer_in_def res_simps split: option.splits receipt.splits)

lemma isolated_update:
  assumes "balances_spec E" "no_callbacks d s" "verify_and_update E disp d root at p s = Inr (tr, s')"
  shows "isolated E d s s'"
proof -
  note defs = verify_and_update_def Let_def res_simps
  have settled: "isolated E d s s'" if "settle E d n b q cr t0 s = Inr ts" "step_forward d p ts = Inr (tr, s')"
    for n b q cr t0 ts
  proof (cases ts)
    case (Pair t1 s1)
    with that show ?thesis
      using isolated_trans [OF isolated_settle [OF assms(1)] isolated_step_forward] by blast
  qed
  have forward: "isolated E d s s'" if "isolated E d s s1" "step_forward d p (t0, s1) = Inr (tr, s')" for s1 t0
    using that isolated_trans [OF _ isolated_step_forward] by blast
  show ?thesis
  proof (cases "cmd p")
    case (TransferOut c v)
    with assms(3) show ?thesis using forward [OF isolated_transfer_out [OF assms(1,2)]] by (auto simp: defs)
  next
    case (TransferIn c v)
    with assms(3) show ?thesis using forward [OF isolated_transfer_in] by (auto simp: defs)
  next
    case (RejectTransferOut c v)
    with assms(3) show ?thesis using isolated_rejects(1) by (auto simp: defs)
  next
    case RejectTransferIn
    with assms(3) show ?thesis using isolated_rejects(2) by (auto simp: defs)
  qed (use assms(3) settled forward [OF isolated_refl] in \<open>auto simp: defs\<close>)
qed

lemma isolated_set_prices: "isolated E d s (set_prices E incr s)"
proof (rule isolated_own [OF own_set_prices])
  have "free_balance E (set_prices E incr s) = free_balance E s" by (rule balance_of_same(1)) simp_all
  then show "unat (free_balance E s t w) \<le> unat (free_balance E (set_prices E incr s) t w)" for t w by simp
qed

lemma isolated_batch:
  assumes "balances_spec E" "no_callbacks d s" "verify_batch E disp d D ps s = Inr s'"
  shows "isolated E d s s'"
proof -
  from assms(3) obtain root incr s1 where
    run: "rfold (verify_one E disp d (d_start_from D)) ps (d_merkle_root D, [], s) = Inr (root, incr, s1)"
    and s': "s' = set_prices E incr s1" by (auto simp: verify_batch_def res_simps)
  have "isolated E d s (snd (snd (root, incr, s1)))"
  proof (rule rfold_invariant [OF run, where P = "\<lambda>a. isolated E d s (snd (snd a))"])
    fix p a a'
    assume a: "isolated E d s (snd (snd a))" and "verify_one E disp d (d_start_from D) p a = Inr a'"
    then obtain r tr where u: "verify_and_update E disp d r (d_start_from D) p (snd (snd a)) = Inr (tr, snd (snd a'))"
      by (auto simp: verify_one_def res_simps split: prod.splits)
    show "isolated E d s (snd (snd a'))"
      by (rule isolated_trans [OF a isolated_update [OF assms(1) no_callbacks_isolated [OF a assms(2)] u]])
  qed simp
  then have "isolated E d s s1" by simp
  then show ?thesis unfolding s' by (rule isolated_trans) (rule isolated_set_prices)
qed

text \<open>
  C13: what a dominator proves concerns only the funds that users have hosted with it. A batch of
  proofs that runs no callback leaves the ledger of every other dominator, its receipts, its root and its
  bonuses alone, as well as all stakings, and it never takes free balance from anybody but the
  dominator itself.
\<close>

theorem proofs_isolated:
  assumes "balances_spec E" "verify E disp (Signed d) ps s = Inr s'"
    and "\<forall>w t a n cb. Receipts s (d, w) \<noteq> Some (RevokeWithCallback t a n cb)"
  shows "(\<forall>i w t e. e \<noteq> d \<longrightarrow> get_reserve s' ((i, w, t), e) = get_reserve s ((i, w, t), e)) \<and>
    (\<forall>e w. e \<noteq> d \<longrightarrow> Receipts s' (e, w) = Receipts s (e, w)) \<and>
    (\<forall>e n. e \<noteq> d \<longrightarrow> get_dominator s' e = get_dominator s e \<and> Bonuses s' (e, n) = Bonuses s (e, n)) \<and>
    Stakings s' = Stakings s \<and> PendingUnstakings s' = PendingUnstakings s \<and>
    (\<forall>t w. w \<noteq> d \<longrightarrow> unat (free_balance E s t w) \<le> unat (free_balance E s' t w))"
proof -
  from assms(2) obtain D where "verify_batch E disp d D ps s = Inr s'" by (auto simp: verify_def res_simps)
  from isolatedD [OF isolated_batch [OF assms(1) _ this]] assms(3) show ?thesis
    by (simp add: no_callbacks_def get_reserve_def) blast
qed

theorem proofs_isolated_witness:
  "\<exists>s'. verify vrf_env sample_disp (Signed bob) [alice_deposit] v5 = Inr s' \<and>
     get_reserve s' ((RESERVE_FOR_PENDING_UNSTAKE, alice, 0), pallet_account) = 50 \<and>
     Stakings s' (bob, alice) = Some \<lparr>from_season = 0, stk_amount = 150\<rparr> \<and>
     770 \<le> unat (free_balance vrf_env s' 0 alice)"
proof -
  obtain s' where run: "verify vrf_env sample_disp (Signed bob) [alice_deposit] v5 = Inr s'" using v5_verify by blast
  have v5: "get_reserve v5 ((RESERVE_FOR_PENDING_UNSTAKE, alice, 0), pallet_account) = 50"
    "Stakings v5 (bob, alice) = Some \<lparr>from_season = 0, stk_amount = 150\<rparr>" "free_balance vrf_env v5 0 alice = 770"
    "\<forall>w t a n cb. Receipts v5 (bob, w) \<noteq> Some (RevokeWithCallback t a n cb)"
    by (simp_all add: v_run_defs get_reserve_def reserve_ids free_balance_def sb_free_def sb_reserved_def sb_put_def)
  note iso = proofs_isolated [OF spec_vrf_env(1) run v5(4)]
  then have "free_balance vrf_env v5 0 alice \<le> free_balance vrf_env s' 0 alice" by (simp add: word_le_nat_alt)
  with iso run v5(1-3) show ?thesis by (intro exI [of _ s']) (simp add: word_le_nat_alt)
qed

section \<open>Pending shares\<close>

lemma values_btree_entry:
  "sum_list (map snd (btree_entry k (\<lambda>v. v + x) x m)) = sum_list (map snd m) + (x::'a::comm_monoid_add)"
  by (induction k "\<lambda>v. v + x" x m rule: btree_entry.induct) (simp_all add: ac_simps)

text \<open>The inner loops of a season: per token in a claim, over all tokens in the report.\<close>

lemma season_sum:
  "sum_list (map snd (season_shares E stk b m)) =
   (if b_staked b = 0 \<or> b_profit b = [] then sum_list (map snd m)
    else let r = perquintill_from_rational E stk (b_staked b)
         in fold (\<lambda>p sh. sh + perquintill_mul E r (snd p)) (b_profit b) (sum_list (map snd m)))"
proof -
  have "sum_list (map snd (fold (\<lambda>(tid, profit) m. btree_entry tid (\<lambda>share. share + f profit) (f profit) m) ps m)) =
      fold (\<lambda>p sh. sh + f (snd p)) ps (sum_list (map snd m))" for f :: "u128 \<Rightarrow> u128" and ps :: "(u32 \<times> u128) list"
    by (induction ps arbitrary: m) (auto simp: values_btree_entry)
  then show ?thesis by (simp add: season_shares_def Let_def)
qed

lemma season_sorted:
  assumes "sorted_wrt (<) (map fst m)"
  shows "sorted_wrt (<) (map fst (season_shares E stk b m))"
proof -
  have "sorted_wrt (<) (map fst (fold (\<lambda>(tid, profit) m. btree_entry tid (\<lambda>share. share + f profit) (f profit) m) ps m))"
    if "sorted_wrt (<) (map fst m)" for f :: "u128 \<Rightarrow> u128" and ps :: "(u32 \<times> u128) list" and m
    using that by (induction ps arbitrary: m) (auto intro: sorted_btree_entry)
  with assms show ?thesis by (simp add: season_shares_def Let_def)
qed

lemma all_shares_distinct: "distinct (map fst (all_shares E s d ds))"
proof -
  have "sorted_wrt (<) (map fst (fold (\<lambda>season m. season_shares E (dist_staking ds) (Bonuses s (d, season)) m) ns m))"
    if "sorted_wrt (<) (map fst m)" for ns m
    using that by (induction ns arbitrary: m) (auto intro: season_sorted)
  from this [of "[]"] show ?thesis unfolding all_shares_def by (simp add: strict_sorted_iff)
qed

lemma pending_sum:
  assumes "get_dominator s d = Some D" "d_start_from D \<noteq> 0" "current_season E (block_number s) (d_start_from D) = Inr now"
    and "stk_amount (get_staking s (d, w)) \<noteq> 0"
  shows "pending_shares_of_dominator E s d w = Inr (sum_list (map snd (all_shares E s d
    \<lparr>dist_from = from_season (get_staking s (d, w)), dist_to = now, dist_staking = stk_amount (get_staking s (d, w))\<rparr>)))"
proof -
  have "sum_list (map snd (fold (\<lambda>season m. season_shares E stk (Bonuses s (d, season)) m) ns m)) =
      fold (\<lambda>season shares.
        let b = Bonuses s (d, season)
        in if b_staked b = 0 \<or> b_profit b = [] then shares
           else let r = perquintill_from_rational E stk (b_staked b)
                in fold (\<lambda>p sh. sh + perquintill_mul E r (snd p)) (b_profit b) shares) ns (sum_list (map snd m))" for stk ns m
    by (induction ns arbitrary: m) (simp_all add: season_sum Let_def)
  from this [of _ _ "[]"] show ?thesis
    unfolding pending_shares_of_dominator_def all_shares_def using assms by (simp add: Let_def)
qed

lemma pay_share_free:
  assumes "balances_spec E" "pay_share E w p s = Inr s'"
  shows "free_balance E s' t w = free_balance E s t w + (if t = fst p then snd p else 0)"
proof -
  have same: "\<forall>b q s1. (\<lambda>b s1. Inr ((fst b + snd p, snd b), s1)) b s = Inr (q, s1) \<longrightarrow> s1 = s" by simp
  from mutate_effect [OF assms(1) assms(2) [unfolded pay_share_def] same] show ?thesis by auto
qed

lemma pay_shares_free:
  assumes "balances_spec E" "rfold (pay_share E w) ps s = Inr s'" "distinct (map fst ps)"
  shows "free_balance E s' t w = free_balance E s t w + (case map_of ps t of None \<Rightarrow> 0 | Some v \<Rightarrow> v)"
  using assms(2,3)
proof (induction ps arbitrary: s)
  case (Cons p ps)
  then obtain s1 where s1: "pay_share E w p s = Inr s1" "rfold (pay_share E w) ps s1 = Inr s'" by (auto simp: res_simps)
  have "map_of ps t = None" if "t = fst p" using Cons.prems(2) that by (simp add: map_of_eq_None_iff)
  with Cons.IH [OF s1(2)] Cons.prems(2) pay_share_free [OF assms(1) s1(1), of t] show ?case
    by (cases p) auto
qed simp

text \<open>
  C16: the number that the interface reports as a staker's pending shares is, in 128 bits, the sum of
  what claiming at that moment pays him in all tokens: a claim adds to his free balance of each
  token that token's share, and the reported number adds the shares of different tokens to each other.
\<close>

theorem pending_shares_paid:
  assumes "balances_spec E" "claim_shares E (Signed w) target s = Inr s'" "lookup E target = Some d"
    and "get_dominator s d = Some D" "d_start_from D \<noteq> 0" "stk_amount (get_staking s (d, w)) \<noteq> 0"
  shows "\<exists>shares. distinct (map fst shares) \<and>
    pending_shares_of_dominator E s d w = Inr (sum_list (map snd shares)) \<and>
    (\<forall>t. free_balance E s' t w = free_balance E s t w + (case map_of shares t of None \<Rightarrow> 0 | Some v \<Rightarrow> v))"
proof -
  from assms(2-4) obtain stk now n s1 where stk: "Stakings s (d, w) = Some stk"
    and now: "current_season E (block_number s) (d_start_from D) = Inr now"
    and t: "take_shares E w d \<lparr>dist_from = from_season stk, dist_to = now, dist_staking = stk_amount stk\<rparr> s = Inr (n, s1)"
    and s': "s' = put_staking (d, w) (Some (stk\<lparr>from_season := n\<rparr>)) s1"
    unfolding claim_shares_def by (auto simp: res_simps)
  let ?ds = "\<lparr>dist_from = from_season stk, dist_to = now, dist_staking = stk_amount stk\<rparr>"
  have "rfold (pay_share E w) (all_shares E s d ?ds) s = Inr s1"
    using t by (auto simp: take_shares_def res_simps all_shares_def seasons_def split: if_splits)
  from pay_shares_free [OF assms(1) this all_shares_distinct]
  have "free_balance E s' t w = free_balance E s t w + (case map_of (all_shares E s d ?ds) t of None \<Rightarrow> 0 | Some v \<Rightarrow> v)" for t
    by (simp add: s')
  moreover have "pending_shares_of_dominator E s d w = Inr (sum_list (map snd (all_shares E s d ?ds)))"
    using pending_sum [OF assms(4,5) now assms(6)] stk by (simp add: get_staking_def)
  ultimately show ?thesis using all_shares_distinct by blast
qed

text \<open>A season with fees in the tokens 0 and 7: the report is 60, the claim pays 40 of one and 20 of the other.\<close>

definition v_mixed :: sample_chain where
  "v_mixed = v3\<lparr>block_number := 350,
     Bonuses := (Bonuses v3)((bob, 0) := \<lparr>b_staked = 400, b_profit = [(0, 80), (7, 40)]\<rparr>)\<rparr>"

lemma v_mixed_shares:
  "all_shares vrf_env v_mixed bob \<lparr>dist_from = 0, dist_to = 2, dist_staking = 200\<rparr> = [(0, 40), (7, 20)]"
proof -
  have "seasons 0 2 = [0, 1]" by (simp add: seasons_def upt_rec)
  moreover have "sample_mul (sample_ratio 200 400) 80 = 40" "sample_mul (sample_ratio 200 400) 40 = 20"
    by (simp_all add: sample_mul_def sample_ratio_def QUINT_def)
  ultimately show ?thesis by (simp add: all_shares_def season_shares_def v_mixed_def v_run_defs)
qed

theorem pending_shares_paid_witness:
  "pending_shares_of_dominator vrf_env v_mixed bob alice = Inr 60 \<and>
   (\<exists>s' (shares :: (token_id \<times> u128) list). claim_shares vrf_env (Signed alice) bob v_mixed = Inr s' \<and>
      sum_list (map snd shares) = 60 \<and>
      free_balance vrf_env s' 0 alice = free_balance vrf_env v_mixed 0 alice
        + (case map_of shares 0 of None \<Rightarrow> 0 | Some v \<Rightarrow> v))"
proof -
  have sel: "get_dominator v_mixed bob = Some (dominator_of 200 2)" "block_number v_mixed = 350"
    "Stakings v_mixed (bob, alice) = Some \<lparr>from_season = 0, stk_amount = 200\<rparr>"
    "d_start_from (dominator_of 200 2) = 150" "current_season vrf_env 350 150 = Inr 2"
    by (simp_all add: v_mixed_def v_run_defs get_dominator_def dominator_of_def current_season_def div_u32_def)
  have "\<exists>s'. rfold (pay_share vrf_env alice) [(0, 40), (7, 20)] v_mixed = Inr s'"
    by (simp add: pay_share_def try_mutate_account_def sb_mutate_def v_mixed_def v_run_defs Let_def
        sb_free_def sb_reserved_def sb_put_def checked_add_def)
  then have "\<exists>s'. claim_shares vrf_env (Signed alice) bob v_mixed = Inr s'"
    by (auto simp: claim_shares_def sel take_shares_def v_mixed_shares dominator_of_def dominator_statuses)
  then obtain s' where s': "claim_shares vrf_env (Signed alice) bob v_mixed = Inr s'" by blast
  have p: "pending_shares_of_dominator vrf_env v_mixed bob alice = Inr 60"
    using pending_sum [OF sel(1), of vrf_env 2 alice] by (simp add: sel get_staking_def v_mixed_shares)
  have "stk_amount (get_staking v_mixed (bob, alice)) \<noteq> 0" by (simp add: sel get_staking_def)
  then have "\<exists>shares. distinct (map fst shares) \<and>
    pending_shares_of_dominator vrf_env v_mixed bob alice = Inr (sum_list (map snd shares)) \<and>
    (\<forall>t. free_balance vrf_env s' t alice = free_balance vrf_env v_mixed t alice
      + (case map_of shares t of None \<Rightarrow> 0 | Some v \<Rightarrow> v))"
    by (intro pending_shares_paid [OF spec_vrf_env(1) s' _ sel(1)]) (simp_all add: sel)
  then obtain shares where sh: "pending_shares_of_dominator vrf_env v_mixed bob alice = Inr (sum_list (map snd shares))"
    and paid: "\<forall>t. free_balance vrf_env s' t alice = free_balance vrf_env v_mixed t alice
      + (case map_of shares t of None \<Rightarrow> 0 | Some v \<Rightarrow> v)" by blast
  show ?thesis using p sh s' spec [OF paid, of 0] by auto
qed

section \<open>Currency from an overflow\<close>

lemma clear_fresh:
  assumes "t \<noteq> native_token_id E" "Balances s (t, u) = None" "Reserves s ((RESERVE_FOR_AUTHORIZING, u, t), d) = None"
  shows "clear E u d t v s = Inr (put_reserve ((RESERVE_FOR_AUTHORIZING, u, t), d) (Some v)
    (store_account (t, u) (alive \<lparr>free = 0, reserved = v\<rparr>) s))"
  using assms unsigned_less [of v]
  by (simp add: clear_def try_mutate_account_def get_token_balance_def get_reserve_def default_account_def
      checked_sub_def checked_add_def)

lemma alive_zero [simp]: "alive \<lparr>free = 0, reserved = 0\<rparr> = None"
  by (simp add: alive_def)

lemma unat_neg_sum:
  assumes "x \<noteq> (0 :: u128)"
  shows "unat x + unat (- x) = 2 ^ 128"
proof -
  have "(unat x + unat (- x)) mod 2 ^ 128 = 0" using unat_word_ariths(1) [of x "- x"] by simp
  then obtain k where k: "unat x + unat (- x) = 2 ^ 128 * k" using mod_eq_0_iff_dvd by (blast elim: dvdE)
  have "unat x < 2 ^ 128" "unat (- x) < 2 ^ 128" using unsigned_less [of x] unsigned_less [of "- x"] by simp_all
  moreover have "0 < unat x" using assms by (simp add: unat_gt_0)
  ultimately have "2 ^ 128 * k < 2 ^ 128 * 2" "0 < k" using k by (simp, cases k, simp_all)
  then have "k = 1" by simp
  with k show ?thesis by simp
qed

lemma clear_user_fresh:
  assumes "base \<noteq> native_token_id E" "quote \<noteq> native_token_id E" "base \<noteq> quote" "matched_volume m = 0" "quote_value m = 0"
    and "Balances s (base, tm_who m) = None" "Reserves s ((RESERVE_FOR_AUTHORIZING, tm_who m, base), d) = None"
    and "Balances s (quote, tm_who m) = None" "Reserves s ((RESERVE_FOR_AUTHORIZING, tm_who m, quote), d) = None"
  obtains s' where "clear_user E d base quote m s = Inr s'"
    "Balances s' = (Balances s)((base, tm_who m) := alive \<lparr>free = 0, reserved = base_value m\<rparr>)"
    "Reserves s' = (Reserves s)(((RESERVE_FOR_AUTHORIZING, tm_who m, base), d) \<mapsto> base_value m,
       ((RESERVE_FOR_AUTHORIZING, tm_who m, quote), d) \<mapsto> 0)"
    "Tokens s' = Tokens s"
proof -
  let ?s1 = "put_reserve ((RESERVE_FOR_AUTHORIZING, tm_who m, base), d) (Some (base_value m))
    (store_account (base, tm_who m) (alive \<lparr>free = 0, reserved = base_value m\<rparr>) s)"
  have "clear E (tm_who m) d base (base_value m) s = Inr ?s1" by (rule clear_fresh [OF assms(1,6,7)])
  moreover have "clear E (tm_who m) d quote 0 ?s1 = Inr (put_reserve ((RESERVE_FOR_AUTHORIZING, tm_who m, quote), d) (Some 0)
      (store_account (quote, tm_who m) None ?s1))"
    using clear_fresh [OF assms(2), of ?s1 "tm_who m" d 0] assms(3,8,9) by (simp add: put_reserve_def store_account_def)
  ultimately show thesis using assms(3-5,8)
    by (intro that) (auto simp: clear_user_def save_trading_def put_reserve_def store_account_def fun_eq_iff)
qed

text \<open>
  C40: conservation modulo \<open>2 ^ 128\<close> is not conservation. For any two accounts that hold nothing of a token
  with a dominator, and any \<open>x\<close>, there are leaves that the check of ask orders accepts and whose settlement
  leaves one of them with \<open>x\<close> and the other with \<open>2 ^ 128 - x\<close> reserved units of the token, in the balances of the
  token pallet as well as in the ledger, while nobody pays and the issuance of the token stays as it was.
\<close>

theorem ask_limit_inflates:
  fixes s :: "('b, 'c, 'z) verifier_chain_scheme"
  assumes "arith_spec E" "unat mf \<le> 10 ^ 6" "unat tf \<le> 10 ^ 6"
    and "base \<noteq> native_token_id E" "quote \<noteq> native_token_id E" "base \<noteq> quote"
    and "distinct [m, n, w]" "length m = 32" "length n = 32" "length w = 32"
    and fresh: "\<forall>u \<in> {m, n, w}. \<forall>t \<in> {base, quote}.
      Balances s (t, u) = None \<and> Reserves s ((RESERVE_FOR_AUTHORIZING, u, t), d) = None"
    and "x \<noteq> 0"
  shows "\<exists>cr tr' s'. verify_ask_limit E s prc 0 mf tf base quote 4 0 d (inflation_leaves base quote m n w x) = Inr cr \<and>
    settle E d season base quote cr tr s = Inr (tr', s') \<and>
    get_reserve s' ((RESERVE_FOR_AUTHORIZING, m, base), d) = x \<and> reserved_balance E s' base m = x \<and>
    get_reserve s' ((RESERVE_FOR_AUTHORIZING, n, base), d) = - x \<and> reserved_balance E s' base n = - x \<and>
    unat (reserved_balance E s' base m) + unat (reserved_balance E s' base n) = 2 ^ 128 \<and>
    total_issuance E s' base = total_issuance E s base"
proof -
  have "permill_mul_ceil E r 0 = 0" if "unat r \<le> 10 ^ 6" for r
    using assms(1) that by (simp add: arith_spec_def unat_eq_zero flip: unat_eq_zero)
  then have acc: "verify_ask_limit E s prc 0 mf tf base quote 4 0 d (inflation_leaves base quote m n w x) =
      Inr (inflation_result m n w x)"
    by (intro inflation_accepted) (use assms in auto)
  have f: "Balances s (t, u) = None" "Reserves s ((RESERVE_FOR_AUTHORIZING, u, t), d) = None"
    if "u = m \<or> u = n \<or> u = w" "t = base \<or> t = quote" for u t
    using fresh that by auto
  have ne: "m \<noteq> n" "n \<noteq> m" "m \<noteq> w" "w \<noteq> m" "n \<noteq> w" "w \<noteq> n" "quote \<noteq> base" using assms(6,7) by auto
  let ?mut = "\<lambda>u v. \<lparr>tm_who = u, matched_volume = 0, matched_amount = v, base_value = v, quote_value = (0 :: u128)\<rparr>"
  let ?kb = "\<lambda>u. ((RESERVE_FOR_AUTHORIZING, u, base), d)" and ?kq = "\<lambda>u. ((RESERVE_FOR_AUTHORIZING, u, quote), d)"
  note cl = clear_user_fresh [OF assms(4-6)]
  obtain s1 where s1: "clear_user E d base quote (?mut m x) s = Inr s1" "Tokens s1 = Tokens s"
    "Balances s1 = (Balances s)((base, m) := alive \<lparr>free = 0, reserved = x\<rparr>)" "Reserves s1 = (Reserves s)(?kb m \<mapsto> x, ?kq m \<mapsto> 0)"
    by (rule cl [of "?mut m x" s d]) (simp_all add: f)
  obtain s2 where s2: "clear_user E d base quote (?mut n (- x)) s1 = Inr s2" "Tokens s2 = Tokens s"
    "Balances s2 = (Balances s1)((base, n) := alive \<lparr>free = 0, reserved = - x\<rparr>)" "Reserves s2 = (Reserves s1)(?kb n \<mapsto> - x, ?kq n \<mapsto> 0)"
    by (rule cl [of "?mut n (- x)" s1 d]) (use s1 ne in \<open>simp_all add: f\<close>)
  obtain s' where s3: "clear_user E d base quote (?mut w 0) s2 = Inr s'" "Tokens s' = Tokens s"
    "Balances s' = (Balances s2)((base, w) := None)" "Reserves s' = (Reserves s2)(?kb w \<mapsto> 0, ?kq w \<mapsto> 0)"
    by (rule cl [of "?mut w 0" s2 d]) (use s1 s2 ne in \<open>simp_all add: f\<close>)
  have st: "settle E d season base quote (inflation_result m n w x) tr s = Inr (tr\<lparr>trade_token := base\<rparr>, s')"
    by (simp add: settle_def inflation_result_def s1(1) s2(1) s3(1) put_profit_def)
  have b: "Balances s' (base, m) = alive \<lparr>free = 0, reserved = x\<rparr>" "Balances s' (base, n) = alive \<lparr>free = 0, reserved = - x\<rparr>"
    "Reserves s' (?kb m) = Some x" "Reserves s' (?kb n) = Some (- x)" "Tokens s' = Tokens s"
    using s1 s2 s3 ne by simp_all
  note unat_neg_sum [OF assms(12)]
  with acc st b assms(4,12) show ?thesis
    by (intro exI [of _ "inflation_result m n w x"] exI [of _ "tr\<lparr>trade_token := base\<rparr>"] exI [of _ s'])
      (simp add: get_reserve_def reserved_balance_def get_token_balance_def alive_def total_issuance_def)
qed

theorem ask_limit_inflates_witness:
  "\<exists>cr tr' s'. verify_ask_limit vrf_env v5 0 0 0 0 1 2 4 0 bob (inflation_leaves 1 2 alice pallet_account bob 5) = Inr cr \<and>
    settle vrf_env bob 0 1 2 cr \<lparr>trade_token = 0, trade_root = [], trade_amount = 0, trade_vol = 0\<rparr> v5 = Inr (tr', s') \<and>
    reserved_balance vrf_env s' 1 alice = 5 \<and> reserved_balance vrf_env s' 1 pallet_account = - 5 \<and>
    total_issuance vrf_env s' 1 = 0"
proof -
  have i: "total_issuance vrf_env v5 1 = 0" by (simp add: total_issuance_def v_run_defs)
  have "\<forall>u\<in>{alice, pallet_account, bob}. \<forall>t\<in>{1, 2}. Balances v5 (t, u) = None \<and> Reserves v5 ((RESERVE_FOR_AUTHORIZING, u, t), bob) = None"
    by (auto simp: v_run_defs)
  from ask_limit_inflates [OF spec_vrf_env(2) _ _ _ _ _ _ _ _ _ this, of 0 0 5 0 0 "\<lparr>trade_token = 0, trade_root = [], trade_amount = 0, trade_vol = 0\<rparr>"] i
  show ?thesis by (auto simp: alice_def bob_def pallet_account_def)
qed

end
