(* ===== verification/Fuso_Rpc.thy ===== *)
theory Fuso_Rpc
  imports Fuso_Verifier
begin

text \<open>
  The JSON-RPC server of a node, \<^verbatim>\<open>rpc/src\<close>: the storage keys, the broker that looks up the endpoint of
  a dominator in the chain's storage and signs requests with the node's key, and the queries that are answered
  by the runtime interface of the verifier pallet.

  The server is asynchronous glue around library code, which is a parameter here: the hashes, the SCALE
  codecs of the basic types (a derived codec is the one of the fields in their order), the storage and
  the runtime interface of the client at a block, and the keystore. An answer is a value or an error object;
  its data is the debug text of the error that caused it.
\<close>

section \<open>Codecs\<close>

text \<open>The bytes after an encoded value do not matter for its decoder.\<close>

definition prefix_codec :: "('a \<Rightarrow> bool) \<Rightarrow> ('a \<Rightarrow> bytes) \<Rightarrow> (bytes \<Rightarrow> ('a \<times> bytes) option) \<Rightarrow> bool" where
  "prefix_codec P enc dec \<longleftrightarrow> (\<forall>x r. P x \<longrightarrow> dec (enc x @ r) = Some (x, r))"

record scale_env =
  enc_bytes :: "bytes \<Rightarrow> bytes"
  dec_bytes :: "bytes \<Rightarrow> (bytes \<times> bytes) option"
  enc_u32 :: "u32 \<Rightarrow> bytes"
  dec_u32 :: "bytes \<Rightarrow> (u32 \<times> bytes) option"
  enc_compact :: "u128 \<Rightarrow> bytes"
  dec_compact :: "bytes \<Rightarrow> (u128 \<times> bytes) option"
  enc_array :: "bytes \<Rightarrow> bytes"
  dec_array :: "bytes \<Rightarrow> (bytes \<times> bytes) option"
  enc_opt_account :: "account option \<Rightarrow> bytes"
  dec_opt_account :: "bytes \<Rightarrow> (account option \<times> bytes) option"

text \<open>\<open>enc_array\<close> is the codec of \<^verbatim>\<open>[u8; 32]\<close>, of accounts and of \<^verbatim>\<open>H256\<close>. A vector has fewer than
  \<open>2 ^ 32\<close> elements.\<close>

definition scale_spec :: "'x scale_env_scheme \<Rightarrow> bool" where
  "scale_spec C \<longleftrightarrow>
     prefix_codec (\<lambda>x. length x < 2 ^ 32) (enc_bytes C) (dec_bytes C) \<and>
     prefix_codec (\<lambda>_. True) (enc_u32 C) (dec_u32 C) \<and>
     prefix_codec (\<lambda>_. True) (enc_compact C) (dec_compact C) \<and>
     prefix_codec (\<lambda>x. length x = 32) (enc_array C) (dec_array C) \<and>
     prefix_codec (pred_option (\<lambda>x. length x = 32)) (enc_opt_account C) (dec_opt_account C)"

text \<open>The setting of a dominator as the pallet stores it, and as the broker, which declares its own type
  for it, reads it.\<close>

definition encode_setting :: "'x scale_env_scheme \<Rightarrow> dominator_setting \<Rightarrow> bytes" where
  "encode_setting C d = enc_opt_account C (ds_beneficiary d) @ enc_bytes C (ds_x25519_pubkey d) @ enc_bytes C (ds_rpc_endpoint d)"

record broker_setting =
  beneficiary :: "account option"
  x25519_pubkey :: bytes
  rpc_endpoint :: bytes

definition decode_setting :: "'x scale_env_scheme \<Rightarrow> bytes \<Rightarrow> broker_setting option" where
  "decode_setting C bs =
     (case dec_opt_account C bs of None \<Rightarrow> None | Some (b, r1) \<Rightarrow>
      case dec_bytes C r1 of None \<Rightarrow> None | Some (k, r2) \<Rightarrow>
      case dec_bytes C r2 of None \<Rightarrow> None | Some (e, r3) \<Rightarrow>
        Some \<lparr>beneficiary = b, x25519_pubkey = k, rpc_endpoint = e\<rparr>)"

section \<open>Trading commands\<close>

text \<open>Arguments of an order: order, account, base, quote, amount, price, signature.\<close>

datatype trading_command =
    Ask bytes account u32 u32 u128 u128 bytes
  | Bid bytes account u32 u32 u128 u128 bytes
  | Cancel bytes account bytes

fun encode_order :: "'x scale_env_scheme \<Rightarrow> bytes \<Rightarrow> account \<Rightarrow> u32 \<Rightarrow> u32 \<Rightarrow> u128 \<Rightarrow> u128 \<Rightarrow> bytes \<Rightarrow> bytes" where
  "encode_order C order_id account_id b q amount prc signature =
     enc_bytes C order_id @ enc_array C account_id @ enc_u32 C b @ enc_u32 C q @
     enc_compact C amount @ enc_compact C prc @ enc_array C signature"

fun encode_command :: "'x scale_env_scheme \<Rightarrow> trading_command \<Rightarrow> bytes" where
  "encode_command C (Ask order_id account_id b q amount prc signature) =
     0 # encode_order C order_id account_id b q amount prc signature"
| "encode_command C (Bid order_id account_id b q amount prc signature) =
     1 # encode_order C order_id account_id b q amount prc signature"
| "encode_command C (Cancel order_id account_id signature) =
     2 # enc_bytes C order_id @ enc_array C account_id @ enc_array C signature"

section \<open>The node\<close>

datatype keystore_err = Unavailable | KeystoreErr string

datatype error_code = ServerError int | InvalidParams

record error_object =
  eo_code :: error_code
  eo_message :: string
  eo_data :: "string option"

text \<open>\<open>'h\<close> are block hashes, \<open>'e\<close> the errors of the client and of the runtime interface.\<close>

record ('h, 'e) rpc_env = scale_env +
  twox_128 :: "bytes \<Rightarrow> bytes"
  blake2_128 :: "bytes \<Rightarrow> bytes"
  best_hash :: 'h
  client_storage :: "'h \<Rightarrow> bytes \<Rightarrow> 'e + bytes option"
  api_current_season :: "'h \<Rightarrow> account \<Rightarrow> 'e + u32"
  api_pending_shares :: "'h \<Rightarrow> account \<Rightarrow> account \<Rightarrow> 'e + u128"
  debug_api :: "'e \<Rightarrow> string"
  Sr25519Id :: bytes
  sr25519_public_keys :: "bytes \<Rightarrow> bytes list"
  sign_with :: "bytes \<Rightarrow> bytes \<times> bytes \<Rightarrow> bytes \<Rightarrow> keystore_err + bytes option"
  debug_keystore :: "keystore_err \<Rightarrow> string"

definition ascii :: "string \<Rightarrow> bytes" where "ascii = map of_char"

definition blake2_128concat_storage_key ::
  "('h, 'e, 'x) rpc_env_scheme \<Rightarrow> ('k \<Rightarrow> bytes) \<Rightarrow> bytes \<Rightarrow> bytes \<Rightarrow> 'k \<Rightarrow> bytes" where
  "blake2_128concat_storage_key C encode module storage key =
     (let bs = twox_128 C module;
          bs' = bs @ twox_128 C storage;
          x = encode key;
          v = blake2_128 C x @ x
      in bs' @ v)"

section \<open>The broker\<close>

definition RELAYER_KEY_TYPE :: bytes where "RELAYER_KEY_TYPE = ascii ''rely''"

definition get_prover_rpc :: "('h, 'e, 'x) rpc_env_scheme \<Rightarrow> account \<Rightarrow> bytes option" where
  "get_prover_rpc C prover =
     (let key = blake2_128concat_storage_key C (enc_array C) (ascii ''Verifier'') (ascii ''DominatorSettings'') prover
      in case client_storage C (best_hash C) key of
           Inr (Some v) \<Rightarrow> map_option rpc_endpoint (decode_setting C v)
         | _ \<Rightarrow> None)"

text \<open>The node signs with the last of its relayer keys.\<close>

definition sign_request :: "('h, 'e, 'x) rpc_env_scheme \<Rightarrow> bytes \<Rightarrow> keystore_err + bytes" where
  "sign_request C payload =
     (let keys = map (\<lambda>k. (Sr25519Id C, k)) (sr25519_public_keys C RELAYER_KEY_TYPE)
      in if keys = [] then Inl Unavailable
         else case sign_with C RELAYER_KEY_TYPE (last keys) payload of
                Inl e \<Rightarrow> Inl e
              | Inr None \<Rightarrow> Inl Unavailable
              | Inr (Some v) \<Rightarrow> Inr v)"

definition broker_trade ::
  "('h, 'e, 'x) rpc_env_scheme \<Rightarrow> account \<Rightarrow> trading_command \<Rightarrow> error_object + string" where
  "broker_trade C prover tcmd =
     (let payload = encode_command C tcmd
      in case sign_request C payload of
           Inl e \<Rightarrow> Inl \<lparr>eo_code = ServerError 93101,
             eo_message = ''The broker hasn't register its signing key, please switch to another node.'',
             eo_data = Some (debug_keystore C e)\<rparr>
         | Inr v \<Rightarrow> Inr ''Ni4qf'')"

text \<open>The endpoint is looked up and printed; no orders are returned yet.\<close>

definition query_orders ::
  "('h, 'e, 'x) rpc_env_scheme \<Rightarrow> account \<Rightarrow> account \<Rightarrow> (u32 \<times> u32 \<times> bytes) list \<Rightarrow> bytes
    \<Rightarrow> error_object + bytes list" where
  "query_orders C prover account_id orders signature = (let endpoint = get_prover_rpc C prover in Inr [])"

definition subscribe_order_events ::
  "('h, 'e, 'x) rpc_env_scheme \<Rightarrow> account \<Rightarrow> account \<Rightarrow> bytes \<Rightarrow> error_object + unit" where
  "subscribe_order_events C prover account_id signature = Inr ()"

section \<open>Queries to the verifier pallet\<close>

definition rpc_current_season_of_dominator ::
  "('h, 'e, 'x) rpc_env_scheme \<Rightarrow> account \<Rightarrow> 'h option \<Rightarrow> error_object + u32" where
  "rpc_current_season_of_dominator C dominator at =
     (let block_hash = (case at of Some h \<Rightarrow> h | None \<Rightarrow> best_hash C)
      in case api_current_season C block_hash dominator of
           Inl e \<Rightarrow> Inl \<lparr>eo_code = ServerError 101, eo_message = ''Unable to query current season'',
             eo_data = Some (debug_api C e)\<rparr>
         | Inr n \<Rightarrow> Inr n)"

text \<open>\<open>try_into\<close> is the conversion of a balance to \<^verbatim>\<open>NumberOrHex\<close>.\<close>

definition rpc_pending_shares_of_dominator ::
  "('h, 'e, 'x) rpc_env_scheme \<Rightarrow> (u128 \<Rightarrow> 'n option) \<Rightarrow> account \<Rightarrow> account \<Rightarrow> 'h option \<Rightarrow> error_object + 'n" where
  "rpc_pending_shares_of_dominator C try_into dominator who at =
     (let block_hash = (case at of Some h \<Rightarrow> h | None \<Rightarrow> best_hash C)
      in case api_pending_shares C block_hash dominator who of
           Inl e \<Rightarrow> Inl \<lparr>eo_code = ServerError 100, eo_message = ''Unable to query pending shares'',
             eo_data = Some (debug_api C e)\<rparr>
         | Inr shares \<Rightarrow>
           (case try_into shares of
              None \<Rightarrow> Inl \<lparr>eo_code = InvalidParams, eo_message = ''doesn't fit in NumberOrHex representation'', eo_data = None\<rparr>
            | Some v \<Rightarrow> Inr v))"

end
