(* ===== verification/Fuso_Rpc_Props.thy ===== *)
theory Fuso_Rpc_Props
  imports Fuso_Rpc Fuso_Verifier_Sample
begin

text \<open>
  Properties of the JSON-RPC server: the broker reads from the raw storage of the best block exactly what
  the verifier pallet keeps, the payload of a trading command that the node signs determines the
  command, and the queries answer with what the verifier pallet computes at the block asked for.
\<close>

section \<open>Codecs\<close>

lemma prefix_codecD: "prefix_codec P enc dec \<Longrightarrow> P x \<Longrightarrow> dec (enc x @ r) = Some (x, r)"
  by (simp add: prefix_codec_def)

lemma prefix_codec_last: "prefix_codec P enc dec \<Longrightarrow> P x \<Longrightarrow> dec (enc x) = Some (x, [])"
  using prefix_codecD [of P enc dec x "[]"] by simp

lemma prefix_codec_inj:
  assumes "prefix_codec P enc dec" "P x" "P y" "enc x @ r = enc y @ r'"
  shows "x = y \<and> r = r'"
proof -
  have "Some (x, r) = dec (enc x @ r)" using prefix_codecD [OF assms(1,2)] by simp
  also have "\<dots> = dec (enc y @ r')" by (simp only: assms(4))
  also have "\<dots> = Some (y, r')" using prefix_codecD [OF assms(1,3)] by simp
  finally show ?thesis by simp
qed

lemma scale_specD:
  assumes "scale_spec C"
  shows "prefix_codec (\<lambda>x. length x < 2 ^ 32) (enc_bytes C) (dec_bytes C)"
    "prefix_codec (\<lambda>_. True) (enc_u32 C) (dec_u32 C)"
    "prefix_codec (\<lambda>_. True) (enc_compact C) (dec_compact C)"
    "prefix_codec (\<lambda>x. length x = 32) (enc_array C) (dec_array C)"
    "prefix_codec (pred_option (\<lambda>x. length x = 32)) (enc_opt_account C) (dec_opt_account C)"
  using assms unfolding scale_spec_def by blast+

text \<open>What the Rust types bound: accounts have 32 bytes, vectors fewer than \<open>2 ^ 32\<close> elements.\<close>

definition setting_ok :: "dominator_setting \<Rightarrow> bool" where
  "setting_ok d \<longleftrightarrow> pred_option (\<lambda>a. length a = 32) (ds_beneficiary d) \<and>
     length (ds_x25519_pubkey d) < 2 ^ 32 \<and> length (ds_rpc_endpoint d) < 2 ^ 32"

lemma decode_encode_setting:
  assumes "scale_spec C" "setting_ok d"
  shows "decode_setting C (encode_setting C d) =
    Some \<lparr>beneficiary = ds_beneficiary d, x25519_pubkey = ds_x25519_pubkey d, rpc_endpoint = ds_rpc_endpoint d\<rparr>"
  using assms(2) prefix_codecD [OF scale_specD(5) [OF assms(1)]] prefix_codecD [OF scale_specD(1) [OF assms(1)]]
    prefix_codec_last [OF scale_specD(1) [OF assms(1)]]
  by (simp add: decode_setting_def encode_setting_def setting_ok_def)

section \<open>The endpoint of a dominator\<close>

text \<open>\<open>exposes C s\<close>: the storage of the client at the best block holds the settings of \<open>s\<close> under the keys of a
  \<^verbatim>\<open>StorageMap\<close> with the hasher \<^verbatim>\<open>Blake2_128Concat\<close>, in the pallet that the runtime names Verifier.\<close>

definition exposes :: "('h, 'e, 'x) rpc_env_scheme \<Rightarrow> ('b, 'c, 'z) verifier_chain_scheme \<Rightarrow> bool" where
  "exposes C s \<longleftrightarrow> (\<forall>d. length d = 32 \<longrightarrow>
     client_storage C (best_hash C) (twox_128 C (ascii ''Verifier'') @ twox_128 C (ascii ''DominatorSettings'') @
       blake2_128 C (enc_array C d) @ enc_array C d) = Inr (map_option (encode_setting C) (DominatorSettings s d)))"

lemma get_prover_rpc_exposed:
  assumes "scale_spec C" "exposes C s" "length d = 32" "pred_option setting_ok (DominatorSettings s d)"
  shows "get_prover_rpc C d = map_option ds_rpc_endpoint (DominatorSettings s d)"
proof -
  have "client_storage C (best_hash C)
      (blake2_128concat_storage_key C (enc_array C) (ascii ''Verifier'') (ascii ''DominatorSettings'') d) =
      Inr (map_option (encode_setting C) (DominatorSettings s d))"
    using assms(2,3) by (simp add: exposes_def blake2_128concat_storage_key_def Let_def)
  then show ?thesis using assms(4)
    by (cases "DominatorSettings s d") (simp_all add: get_prover_rpc_def decode_encode_setting [OF assms(1)])
qed

text \<open>
  C18: once a dominator has set its endpoint on the chain, the broker of every node that sees that block
  finds exactly this endpoint, and for every other account the one that it had set before: the key that
  the broker computes by hand and its own declaration of the setting agree with the pallet's storage.
\<close>

theorem broker_reads_endpoint:
  assumes "scale_spec C" "exposes C s'" "dominator_set_rpc_endpoint (Signed d) e s = Inr s'"
    and "\<forall>x \<in> ran (DominatorSettings s). setting_ok x" "length d = 32" "length e < 2 ^ 32"
  shows "get_prover_rpc C d = Some e \<and>
    (\<forall>a. a \<noteq> d \<longrightarrow> length a = 32 \<longrightarrow> get_prover_rpc C a = map_option ds_rpc_endpoint (DominatorSettings s a))"
proof -
  obtain x where x: "DominatorSettings s' = (DominatorSettings s)(d \<mapsto> x)" "ds_rpc_endpoint x = e" "setting_ok x"
  proof (cases "DominatorSettings s d")
    case None
    then show thesis using that assms(3,6)
      by (auto simp: dominator_set_rpc_endpoint_def res_simps put_setting_def deposit_event_def setting_ok_def)
  next
    case (Some y)
    with assms(4) have "setting_ok y" by (auto simp: ran_def)
    with Some show thesis using that assms(3,6)
      by (auto simp: dominator_set_rpc_endpoint_def res_simps put_setting_def deposit_event_def setting_ok_def)
  qed
  have ok: "pred_option setting_ok (DominatorSettings s' a)" for a
    using x(1,3) assms(4) by (cases "DominatorSettings s a") (auto simp: ran_def)
  note read = get_prover_rpc_exposed [OF assms(1,2) _ ok]
  show ?thesis using read [of d] read x(1,2) assms(5) by auto
qed

section \<open>Concrete codecs and a concrete client\<close>

fun esc :: "bytes \<Rightarrow> bytes" where
  "esc [] = [0]"
| "esc (b # bs) = 1 # b # esc bs"

fun unesc :: "bytes \<Rightarrow> (bytes \<times> bytes) option" where
  "unesc (c # b # r) = (if c = 0 then Some ([], b # r) else map_option (\<lambda>(x, q). (b # x, q)) (unesc r))"
| "unesc [c] = (if c = 0 then Some ([], []) else None)"
| "unesc [] = None"

lemma unesc_esc: "unesc (esc x @ r) = Some (x, r)"
  by (induction x) (cases r; simp)+

definition split_at :: "nat \<Rightarrow> bytes \<Rightarrow> (bytes \<times> bytes) option" where
  "split_at n bs = (if length bs < n then None else Some (take n bs, drop n bs))"

fun enc_opt :: "account option \<Rightarrow> bytes" where
  "enc_opt None = [0]"
| "enc_opt (Some a) = 1 # a"

fun dec_opt :: "bytes \<Rightarrow> (account option \<times> bytes) option" where
  "dec_opt (c # bs) = (if c = 0 then Some (None, bs) else map_option (\<lambda>(a, r). (Some a, r)) (split_at 32 bs))"
| "dec_opt [] = None"

definition sample_scale :: scale_env where
  "sample_scale = \<lparr>enc_bytes = esc, dec_bytes = unesc, enc_u32 = to_le_bytes 4,
     dec_u32 = (\<lambda>bs. map_option (map_prod from_le_bytes id) (split_at 4 bs)), enc_compact = to_le_bytes 16,
     dec_compact = (\<lambda>bs. map_option (map_prod from_le_bytes id) (split_at 16 bs)),
     enc_array = id, dec_array = split_at 32, enc_opt_account = enc_opt, dec_opt_account = dec_opt\<rparr>"

text \<open>The client serves the settings and the runtime interface of one state.\<close>

definition sample_rpc :: "sample_chain \<Rightarrow> (nat, unit) rpc_env" where
  "sample_rpc s = scale_env.extend sample_scale
     \<lparr>twox_128 = (\<lambda>bs. replicate 16 (of_nat (length bs))), blake2_128 = (\<lambda>bs. replicate 16 0), best_hash = 7,
      client_storage = (\<lambda>h k. Inr (map_option (encode_setting sample_scale) (DominatorSettings s (drop 48 k)))),
      api_current_season = (\<lambda>h d. map_sum (\<lambda>_. ()) id (current_season_of_dominator vrf_env s d)),
      api_pending_shares = (\<lambda>h d w. map_sum (\<lambda>_. ()) id (pending_shares_of_dominator vrf_env s d w)),
      debug_api = (\<lambda>_. ''trap''), Sr25519Id = [115, 114, 50, 53], sr25519_public_keys = (\<lambda>_. [[1]]),
      sign_with = (\<lambda>t k p. Inr (Some (snd k @ p))), debug_keystore = (\<lambda>_. ''Unavailable'')\<rparr>"

lemma sample_scale_sel:
  "enc_bytes (sample_rpc s) = esc" "dec_bytes (sample_rpc s) = unesc" "enc_u32 (sample_rpc s) = to_le_bytes 4"
  "dec_u32 (sample_rpc s) = (\<lambda>bs. map_option (map_prod from_le_bytes id) (split_at 4 bs))"
  "enc_compact (sample_rpc s) = to_le_bytes 16"
  "dec_compact (sample_rpc s) = (\<lambda>bs. map_option (map_prod from_le_bytes id) (split_at 16 bs))"
  "enc_array (sample_rpc s) = id" "dec_array (sample_rpc s) = split_at 32"
  "enc_opt_account (sample_rpc s) = enc_opt" "dec_opt_account (sample_rpc s) = dec_opt"
  by (simp_all add: sample_rpc_def sample_scale_def scale_env.defs)

lemma sample_opt: "pred_option (\<lambda>x. length x = 32) a \<Longrightarrow> dec_opt (enc_opt a @ r) = Some (a, r)"
  by (cases a) (auto simp: split_at_def)

lemma sample_scale_spec: "scale_spec (sample_rpc s)"
  unfolding scale_spec_def prefix_codec_def sample_scale_sel
  by (auto simp: unesc_esc sample_opt split_at_def from_to_le_bytes)

lemma sample_exposes: "exposes (sample_rpc s) s"
proof -
  have "encode_setting (sample_rpc s) = encode_setting sample_scale"
    by (simp add: fun_eq_iff encode_setting_def sample_scale_sel) (simp add: sample_scale_def)
  then show ?thesis by (simp add: exposes_def sample_scale_sel) (simp add: sample_rpc_def scale_env.defs)
qed

theorem broker_reads_endpoint_witness:
  "\<exists>s'. dominator_set_rpc_endpoint (Signed bob) [104, 105] v5 = Inr s' \<and>
     get_prover_rpc (sample_rpc s') bob = Some [104, 105] \<and> get_prover_rpc (sample_rpc s') alice = None"
proof -
  obtain s' where s': "dominator_set_rpc_endpoint (Signed bob) [104, 105] v5 = Inr s'"
    by (simp add: dominator_set_rpc_endpoint_def v_run_defs get_dominator_def)
  have none: "DominatorSettings v5 = Map.empty" by (simp add: v_run_defs)
  have "length bob = 32" "length alice = 32" by (simp_all add: bob_def alice_def)
  with broker_reads_endpoint [OF sample_scale_spec sample_exposes s'] s' none show ?thesis by simp
qed

section \<open>Trading commands\<close>

fun command_ok :: "trading_command \<Rightarrow> bool" where
  "command_ok (Ask i a b q m p sig) \<longleftrightarrow> length i < 2 ^ 32 \<and> length a = 32 \<and> length sig = 32"
| "command_ok (Bid i a b q m p sig) \<longleftrightarrow> length i < 2 ^ 32 \<and> length a = 32 \<and> length sig = 32"
| "command_ok (Cancel i a sig) \<longleftrightarrow> length i < 2 ^ 32 \<and> length a = 32 \<and> length sig = 32"

lemma encode_order_inj:
  assumes "scale_spec C" "encode_order C i a b q m p sig = encode_order C i' a' b' q' m' p' sig'"
    and "length i < 2 ^ 32" "length i' < 2 ^ 32" "length a = 32" "length a' = 32" "length sig = 32" "length sig' = 32"
  shows "i = i' \<and> a = a' \<and> b = b' \<and> q = q' \<and> m = m' \<and> p = p' \<and> sig = sig'"
proof -
  note inj = scale_specD [OF assms(1), THEN prefix_codec_inj]
  from inj(1) [OF assms(3,4)] assms(2) have i: "i = i'"
    "enc_array C a @ enc_u32 C b @ enc_u32 C q @ enc_compact C m @ enc_compact C p @ enc_array C sig =
     enc_array C a' @ enc_u32 C b' @ enc_u32 C q' @ enc_compact C m' @ enc_compact C p' @ enc_array C sig'" by auto
  from inj(4) [OF assms(5,6) i(2)] have a: "a = a'"
    "enc_u32 C b @ enc_u32 C q @ enc_compact C m @ enc_compact C p @ enc_array C sig =
     enc_u32 C b' @ enc_u32 C q' @ enc_compact C m' @ enc_compact C p' @ enc_array C sig'" by auto
  from inj(2) [OF TrueI TrueI a(2)] have b: "b = b'"
    "enc_u32 C q @ enc_compact C m @ enc_compact C p @ enc_array C sig =
     enc_u32 C q' @ enc_compact C m' @ enc_compact C p' @ enc_array C sig'" by auto
  from inj(2) [OF TrueI TrueI b(2)] have q: "q = q'"
    "enc_compact C m @ enc_compact C p @ enc_array C sig = enc_compact C m' @ enc_compact C p' @ enc_array C sig'" by auto
  from inj(3) [OF TrueI TrueI q(2)] have m: "m = m'"
    "enc_compact C p @ enc_array C sig = enc_compact C p' @ enc_array C sig'" by auto
  from inj(3) [OF TrueI TrueI m(2)] have p: "p = p'" "enc_array C sig = enc_array C sig'" by auto
  from inj(4) [OF assms(7,8), of "[]" "[]"] p(2) show ?thesis using i(1) a(1) b(1) q(1) m(1) p(1) by simp
qed

lemma payload_determines_command:
  assumes "scale_spec C" "encode_command C c = encode_command C c'" "command_ok c" "command_ok c'"
  shows "c = c'"
proof (cases c)
  case (Ask i a b q m p sig)
  with assms encode_order_inj [OF assms(1), of i a b q m p sig] show ?thesis
    by (cases c') (simp_all del: encode_order.simps)
next
  case (Bid i a b q m p sig)
  with assms encode_order_inj [OF assms(1), of i a b q m p sig] show ?thesis
    by (cases c') (simp_all del: encode_order.simps)
next
  case (Cancel i a sig)
  note inj = scale_specD [OF assms(1), THEN prefix_codec_inj]
  from Cancel assms(2) obtain i' a' sig' where c': "c' = Cancel i' a' sig'"
    and e: "enc_bytes C i @ enc_array C a @ enc_array C sig = enc_bytes C i' @ enc_array C a' @ enc_array C sig'"
    by (cases c') auto
  note ok = assms(3,4) [unfolded Cancel c' command_ok.simps]
  from inj(1) [OF _ _ e] ok have "i = i'" and e: "enc_array C a @ enc_array C sig = enc_array C a' @ enc_array C sig'"
    by auto
  moreover from inj(4) [OF _ _ e] inj(4) [of sig sig' "[]" "[]"] ok have "a = a' \<and> sig = sig'" by auto
  ultimately show ?thesis by (simp add: Cancel c')
qed

lemma broker_trade_outcome:
  "broker_trade C prover c = Inr v \<longleftrightarrow>
     v = ''Ni4qf'' \<and> (\<exists>sig. sr25519_public_keys C RELAYER_KEY_TYPE \<noteq> [] \<and> sign_with C RELAYER_KEY_TYPE
       (Sr25519Id C, last (sr25519_public_keys C RELAYER_KEY_TYPE)) (encode_command C c) = Inr (Some sig))"
  "broker_trade C prover c = Inl x \<Longrightarrow> eo_code x = ServerError 93101"
  by (auto simp: broker_trade_def sign_request_def Let_def last_map split: sum.splits option.splits)

section \<open>Queries\<close>

text \<open>\<open>serves E C h s\<close>: at the block \<open>h\<close>, whose state is \<open>s\<close>, the runtime interface of the client returns what the
  functions of the pallet return; their panics are errors of the interface.\<close>

definition serves ::
  "('b, 'x) verifier_env_scheme \<Rightarrow> ('h, 'e, 'y) rpc_env_scheme \<Rightarrow> 'h \<Rightarrow> ('b, 'c, 'z) verifier_chain_scheme \<Rightarrow> bool" where
  "serves E C h s \<longleftrightarrow>
     (\<forall>d n. api_current_season C h d = Inr n \<longleftrightarrow> current_season_of_dominator E s d = Inr n) \<and>
     (\<forall>d w v. api_pending_shares C h d w = Inr v \<longleftrightarrow> pending_shares_of_dominator E s d w = Inr v)"

text \<open>
  A query for the season of an account answers the number of whole seasons since it registered, and
  also for an account that never did, then counted from the first block; only with seasons of no blocks
  it is the error 101. A query for the pending shares answers what the pallet computes, in the
  number format of the interface, or the error 100 when the runtime fails, or that the number does not fit.
\<close>

theorem rpc_queries_correct:
  fixes s :: "('b, 'c, 'z) verifier_chain_scheme"
  assumes "serves E C (case at of None \<Rightarrow> best_hash C | Some h \<Rightarrow> h) s"
    and "start = (case get_dominator s d of None \<Rightarrow> 0 | Some D \<Rightarrow> d_start_from D)"
  shows "(SeasonDuration E \<noteq> 0 \<longrightarrow> rpc_current_season_of_dominator C d at =
        Inr (if block_number s \<le> start then 0 else (block_number s - start) div SeasonDuration E)) \<and>
    (\<forall>x. rpc_current_season_of_dominator C d at = Inl x \<longrightarrow> SeasonDuration E = 0 \<and> eo_code x = ServerError 101) \<and>
    (\<forall>n. rpc_pending_shares_of_dominator C f d w at = Inr n \<longleftrightarrow>
        (\<exists>v. pending_shares_of_dominator E s d w = Inr v \<and> f v = Some n)) \<and>
    (\<forall>x. rpc_pending_shares_of_dominator C f d w at = Inl x \<longrightarrow>
        eo_code x = ServerError 100 \<and> (\<exists>e. pending_shares_of_dominator E s d w = Inl e) \<or>
        eo_code x = InvalidParams \<and> (\<exists>v. pending_shares_of_dominator E s d w = Inr v \<and> f v = None))"
proof -
  let ?h = "case at of None \<Rightarrow> best_hash C | Some h \<Rightarrow> h"
  have season: "current_season_of_dominator E s d =
      (if block_number s \<le> start then Inr 0 else div_u32 (block_number s - start) (SeasonDuration E))"
    by (simp add: current_season_of_dominator_def current_season_def assms(2))
  have a: "api_current_season C ?h d = Inr n \<longleftrightarrow> current_season_of_dominator E s d = Inr n" for n
    using assms(1) unfolding serves_def by blast
  have b: "api_pending_shares C ?h d w = Inr v \<longleftrightarrow> pending_shares_of_dominator E s d w = Inr v" for v
    using assms(1) unfolding serves_def by blast
  have "SeasonDuration E \<noteq> 0 \<longrightarrow> rpc_current_season_of_dominator C d at =
      Inr (if block_number s \<le> start then 0 else (block_number s - start) div SeasonDuration E)"
  proof
    assume "SeasonDuration E \<noteq> 0"
    then have "api_current_season C ?h d = Inr (if block_number s \<le> start then 0 else (block_number s - start) div SeasonDuration E)"
      unfolding a season by (simp add: div_u32_def)
    then show "rpc_current_season_of_dominator C d at =
        Inr (if block_number s \<le> start then 0 else (block_number s - start) div SeasonDuration E)"
      by (simp add: rpc_current_season_of_dominator_def)
  qed
  moreover have "rpc_current_season_of_dominator C d at = Inl x \<Longrightarrow> SeasonDuration E = 0 \<and> eo_code x = ServerError 101" for x
    using calculation by (cases "SeasonDuration E = 0")
      (auto simp: rpc_current_season_of_dominator_def Let_def split: sum.splits)
  moreover have "rpc_pending_shares_of_dominator C f d w at = Inr n \<longleftrightarrow>
      (\<exists>v. pending_shares_of_dominator E s d w = Inr v \<and> f v = Some n)" for n
    unfolding b [symmetric] by (auto simp: rpc_pending_shares_of_dominator_def Let_def split: sum.splits option.splits)
  moreover have "eo_code x = ServerError 100 \<and> (\<exists>e. pending_shares_of_dominator E s d w = Inl e) \<or>
      eo_code x = InvalidParams \<and> (\<exists>v. pending_shares_of_dominator E s d w = Inr v \<and> f v = None)"
    if "rpc_pending_shares_of_dominator C f d w at = Inl x" for x
  proof (cases "pending_shares_of_dominator E s d w")
    case (Inl e)
    with b have "api_pending_shares C ?h d w \<noteq> Inr v" for v by simp
    then obtain e' where "api_pending_shares C ?h d w = Inl e'" by (cases "api_pending_shares C ?h d w") auto
    with that Inl show ?thesis by (auto simp: rpc_pending_shares_of_dominator_def)
  next
    case (Inr v)
    with b have "api_pending_shares C ?h d w = Inr v" by simp
    with that Inr show ?thesis by (auto simp: rpc_pending_shares_of_dominator_def split: option.splits)
  qed
  ultimately show ?thesis by blast
qed

lemma sample_serves: "serves vrf_env (sample_rpc s) h s"
proof -
  have [simp]: "map_sum f id r = Inr v \<longleftrightarrow> r = Inr v" for f :: "error \<Rightarrow> unit" and r :: "error + 'a" and v
    by (cases r) auto
  show ?thesis by (simp add: serves_def sample_rpc_def scale_env.defs)
qed

theorem rpc_queries_correct_witness:
  "rpc_current_season_of_dominator (sample_rpc (v5\<lparr>block_number := 400\<rparr>)) bob None = Inr 2 \<and>
   rpc_current_season_of_dominator (sample_rpc (v5\<lparr>block_number := 400\<rparr>)) alice (Some 3) = Inr 4"
proof -
  let ?s = "v5\<lparr>block_number := 400\<rparr>"
  have D: "get_dominator ?s bob = Some (dominator_of 150 2)" "get_dominator ?s alice = None"
    "d_start_from (dominator_of 150 2) = 150"
    by (simp_all add: v_run_defs get_dominator_def dominator_of_def)
  from rpc_queries_correct [where at = None, OF sample_serves refl, of ?s bob Some alice]
    rpc_queries_correct [where at = "Some 3", OF sample_serves refl, of ?s alice Some alice] D
  show ?thesis by simp
qed

end
