(* ===== verification/Fuso_Weights.thy ===== *)
theory Fuso_Weights
  imports Fuso_Runtime Fuso_Foundation Fuso_Agent
begin

text \<open>
  What calls and hooks declare to cost: the weight tables of the verifier and token pallets
  (\<^verbatim>\<open>weights.rs\<close>), the dispatch information of every call of the composed runtime (the attributes
  \<^verbatim>\<open>pallet::weight\<close>), and the weights that the block hooks return.

  A weight is its reference time, a word of 64 bits whose additions saturate; the code builds weights with
  \<^verbatim>\<open>from_ref_time\<close> only, so that their other part is zero. The cost of database accesses is a parameter.
\<close>

section \<open>Weight tables\<close>

type_synonym weight = u64

text \<open>\<open>reads D n\<close> is the weight of \<open>n\<close> reads.\<close>

record db_weight =
  reads :: "u64 \<Rightarrow> weight"
  writes :: "u64 \<Rightarrow> weight"

record weight_info =
  wi_authorize :: weight
  wi_register :: weight
  wi_revoke :: weight
  wi_launch :: weight
  wi_evict :: weight
  wi_verify :: weight
  wi_stake :: weight
  wi_unstake :: weight
  wi_claim_shares :: weight
  wi_update_setting :: weight
  wi_set_beneficiary :: weight

text \<open>A reference time and the accesses to storage, added in this order.\<close>

definition access_weight :: "db_weight \<Rightarrow> weight \<Rightarrow> u64 \<Rightarrow> u64 \<Rightarrow> weight" where
  "access_weight D base r w = saturating_add (saturating_add base (reads D r)) (writes D w)"

text \<open>\<open>D\<close> is the runtime's \<^verbatim>\<open>DbWeight\<close>, \<open>R\<close> is \<^verbatim>\<open>RocksDbWeight\<close>.\<close>

definition fuso_weight :: "db_weight \<Rightarrow> db_weight \<Rightarrow> weight_info" where
  "fuso_weight D R = \<lparr>
     wi_authorize = access_weight D 34000000 4 3,
     wi_register = access_weight D 17000000 2 1,
     wi_revoke = access_weight D 25000000 3 1,
     wi_launch = access_weight D 15000000 1 1,
     wi_evict = access_weight D 14000000 1 1,
     wi_verify = access_weight D 6669000000 15 16,
     wi_stake = access_weight D 38000000 4 4,
     wi_unstake = access_weight D 43000000 4 4,
     wi_claim_shares = access_weight D 14000000 2 1,
     wi_update_setting = access_weight R 569000000 1 1,
     wi_set_beneficiary = access_weight R 823000000 1 1\<rparr>"

definition unit_weight :: "db_weight \<Rightarrow> weight_info" where
  "unit_weight R = \<lparr>
     wi_authorize = access_weight R 34000000 4 3,
     wi_register = access_weight R 17000000 2 1,
     wi_revoke = access_weight R 25000000 3 1,
     wi_launch = access_weight R 15000000 1 1,
     wi_evict = access_weight R 14000000 1 1,
     wi_verify = access_weight R 6669000000 15 16,
     wi_stake = access_weight R 38000000 4 4,
     wi_unstake = access_weight R 43000000 4 4,
     wi_claim_shares = access_weight R 14000000 2 1,
     wi_update_setting = access_weight R 569000000 1 1,
     wi_set_beneficiary = access_weight R 823000000 1 1\<rparr>"

text \<open>The token pallet has a table for its transfers only; both implementations are the same.\<close>

definition tok_transfer_weight :: "db_weight \<Rightarrow> weight" where
  "tok_transfer_weight R = access_weight R 71780000 2 2"

section \<open>Dispatch information\<close>

text \<open>The information that the agent pallet uses, with the statement whether a call pays a fee.\<close>

datatype pays = Pays_Yes | Pays_No

record call_info = "weight dispatch_info" +
  info_pays :: pays

text \<open>A plain weight means a normal call that pays.\<close>

definition plain_info :: "weight \<Rightarrow> call_info" where
  "plain_info w = \<lparr>info_weight = w, info_class = Normal, info_pays = Pays_Yes\<rparr>"

fun tok_info :: "db_weight \<Rightarrow> tok_call \<Rightarrow> call_info" where
  "tok_info R (Call_issue _) = plain_info 10000"
| "tok_info R (Call_mark_stable _) = plain_info 0"
| "tok_info R (Call_transfer _ _ _) = plain_info (tok_transfer_weight R)"
| "tok_info R (Call_associate_token _ _ _) = plain_info 1950000000"

fun rwd_info :: "rwd_call \<Rightarrow> call_info" where
  "rwd_info Call_take_reward = plain_info 10000000"
| "rwd_info (Call_set_era_rewards _) = plain_info 0"

fun cbt_info :: "cbt_call \<Rightarrow> call_info" where
  "cbt_info (Call_native_limit _) = plain_info 1950000000"
| "cbt_info (Call_transfer_out _ _ _ _) = plain_info 1950000000"
| "cbt_info (Call_transfer_in _ _ _) = plain_info 1950000000"
| "cbt_info (Call_associate_dominator _ _) = plain_info 1950000000"
| "cbt_info (Call_remark _ _ _) = plain_info 1950000000"

fun vrf_info :: "weight_info \<Rightarrow> 'c vrf_call \<Rightarrow> call_info" where
  "vrf_info V (Call_register _) = plain_info (wi_register V)"
| "vrf_info V (Call_evict _) = plain_info (wi_evict V)"
| "vrf_info V (Call_launch _) = plain_info (wi_launch V)"
| "vrf_info V (Call_dominator_set_pubkey _) = plain_info (wi_update_setting V)"
| "vrf_info V (Call_dominator_set_rpc_endpoint _) = plain_info (wi_update_setting V)"
| "vrf_info V (Call_dominator_set_beneficiary _ _) = plain_info (wi_set_beneficiary V)"
| "vrf_info V (Call_register_broker _ _) = plain_info (wi_register V)"
| "vrf_info V (Call_broker_set_rpc_endpoint _) = plain_info (wi_update_setting V)"
| "vrf_info V (Call_verify_compress _) = \<lparr>info_weight = wi_verify V, info_class = Normal, info_pays = Pays_No\<rparr>"
| "vrf_info V (Call_verify _) = \<lparr>info_weight = wi_verify V, info_class = Normal, info_pays = Pays_No\<rparr>"
| "vrf_info V (Call_stake _ _) = plain_info (wi_stake V)"
| "vrf_info V (Call_unstake _ _) = plain_info (wi_unstake V)"
| "vrf_info V (Call_claim_shares _) = plain_info (wi_claim_shares V)"
| "vrf_info V (Call_authorize _ _ _) = plain_info (wi_authorize V)"
| "vrf_info V (Call_revoke _ _ _) = plain_info (wi_revoke V)"
| "vrf_info V (Call_revoke_with_callback _ _ _ _) = plain_info (wi_revoke V)"
| "vrf_info V Call_listing = plain_info 100000"

text \<open>The votes that may execute a proposal have the weight of the proposed call and a fee of their own.\<close>

definition carrier_info :: "call_info \<Rightarrow> call_info" where
  "carrier_info i = \<lparr>info_weight = saturating_add (info_weight i) 195000000, info_class = info_class i, info_pays = Pays_Yes\<rparr>"

fun brg_info :: "('p \<Rightarrow> call_info) \<Rightarrow> 'p brg_call \<Rightarrow> call_info" where
  "brg_info info (Set_threshold _) = plain_info 1950000000"
| "brg_info info (Set_resource _ _) = plain_info 1950000000"
| "brg_info info (Remove_resource _) = plain_info 1950000000"
| "brg_info info (Whitelist_chain _) = plain_info 1950000000"
| "brg_info info (Add_relayer _) = plain_info 1950000000"
| "brg_info info (Remove_relayer _) = plain_info 1950000000"
| "brg_info info (Acknowledge_proposal _ _ _ _ p) = carrier_info (info p)"
| "brg_info info (Reject_proposal _ _ _ _) = plain_info 1950000000"
| "brg_info info (Eval_vote_state _ _ p) = carrier_info (info p)"

text \<open>The information of a call of the runtime is that of its pallet; it goes into proposals and not into callbacks.\<close>

fun rt_info :: "weight_info \<Rightarrow> db_weight \<Rightarrow> rt_call \<Rightarrow> call_info" where
  "rt_info V R (Assets c) = tok_info R c"
| "rt_info V R (Reward c) = rwd_info c"
| "rt_info V R (Bridge (Acknowledge_proposal n src rid h p)) =
     brg_info (\<lambda>_. rt_info V R p) (Acknowledge_proposal n src rid h p)"
| "rt_info V R (Bridge (Eval_vote_state n src p)) = brg_info (\<lambda>_. rt_info V R p) (Eval_vote_state n src p)"
| "rt_info V R (Bridge c) = brg_info (\<lambda>_. plain_info 0) c"
| "rt_info V R (Verifier c) = vrf_info V c"
| "rt_info V R (ChainBridgeTransfer c) = cbt_info c"

section \<open>The weight of the hooks\<close>

text \<open>One dominator, and one released amount, of \<^verbatim>\<open>on_initialize\<close>.\<close>

definition season_weight ::
  "db_weight \<Rightarrow> ('b, 'x) verifier_env_scheme \<Rightarrow> u32 \<Rightarrow> account \<times> dominator \<Rightarrow> weight \<Rightarrow> weight result" where
  "season_weight R E now p weight =
     (case p of (dom_id, d) \<Rightarrow>
      if now = d_start_from d then Inr weight
      else let w1 = saturating_add weight (reads R 1)
           in rbind (rem_u32 (now - d_start_from d) (SeasonDuration E)) (\<lambda>m.
              Inr (if m = 0 then saturating_add w1 (writes R 1) else w1)))"

definition on_initialize_weight ::
  "db_weight \<Rightarrow> ('b, 'x) verifier_env_scheme \<Rightarrow> u32 \<Rightarrow> ('b, 'c, 'z) verifier_chain_scheme \<Rightarrow> weight result" where
  "on_initialize_weight R E now s =
     rbind (rem_u32 now (DominatorCheckGracePeriod E)) (\<lambda>m.
     if m \<noteq> 0 then Inr 0
     else rbind (rfold (season_weight R E now) (Dominators s) 0) (\<lambda>w1.
          let w2 = fold (\<lambda>_ w. saturating_add w (writes R 2)) (PendingUnstakings s now) w1
          in Inr (saturating_add w2 (writes R 1))))"

text \<open>The hook of the foundation pallet.\<close>

definition unlock_item_weight :: "db_weight \<Rightarrow> u32 \<Rightarrow> account \<times> foundation_data \<Rightarrow> weight \<Rightarrow> weight result" where
  "unlock_item_weight D now item weight =
     (let w1 = saturating_add weight (reads D 1); fund = snd item
      in if delay_durations fund \<le> now
         then rbind (rem_u32 (saturating_sub now (delay_durations fund)) (interval_durations fund)) (\<lambda>r.
                Inr (if r = 0 then saturating_add w1 (writes D 1) else w1))
         else Inr w1)"

definition unlock_fund_weight :: "db_weight \<Rightarrow> u32 \<Rightarrow> ('b, 'z) foundation_chain_scheme \<Rightarrow> weight result" where
  "unlock_fund_weight D now s = rfold (unlock_item_weight D now) (Foundation s) 100000000"

definition initialize_weight ::
  "db_weight \<Rightarrow> ('b, 'x) foundation_env_scheme \<Rightarrow> u32 \<Rightarrow> ('b, 'z) foundation_chain_scheme \<Rightarrow> weight result" where
  "initialize_weight D E now s =
     rbind (rem_u32 now (Duration E)) (\<lambda>r.
       if r \<noteq> 0 then Inr 0
       else rbind (div_u32 now (Duration E)) (\<lambda>n. unlock_fund_weight D n s))"

end
