(* ===== verification/Fuso_Weights_Props.thy ===== *)
theory Fuso_Weights_Props
  imports Fuso_Weights Fuso_Runtime_Props
begin

text \<open>
  Properties of the declared weights: the hook of the verifier declares exactly what its loops do, a vote on a
  proposal pays for the proposed call, but a callback runs within a batch of proofs that declares a
  constant weight and pays no fee, and a vote against a proposal may execute it.
\<close>

section \<open>Saturating sums\<close>

lemma unat_max:
  fixes w :: "'a::len word"
  shows "unat w \<le> 2 ^ LENGTH('a) - 1"
  using unsigned_less [of w, where 'a = nat] by linarith

lemma unat_saturating_add:
  fixes a b :: "'a::len word"
  shows "unat (saturating_add a b) = min (2 ^ LENGTH('a) - 1) (unat a + unat b)"
proof (cases "unat a + unat b < 2 ^ LENGTH('a)")
  case True
  then show ?thesis by (simp add: saturating_add_def unat_add_no_wrap)
next
  case False
  then show ?thesis by (simp add: saturating_add_def unsigned_minus_1_eq_mask mask_eq_exp_minus_1)
qed

lemma min_add_min: "min M (min M a + b) = min M (a + b :: nat)"
  by simp

lemma unat_saturating_adds:
  fixes w :: "'a::len word" and f :: "'x \<Rightarrow> 'a word"
  shows "unat (fold (\<lambda>x w. saturating_add w (f x)) xs w) =
    min (2 ^ LENGTH('a) - 1) (unat w + (\<Sum>x\<leftarrow>xs. unat (f x)))"
proof (induction xs arbitrary: w)
  case Nil
  have "unat w \<le> 2 ^ LENGTH('a) - 1" by (rule unat_max)
  then show ?case by simp
next
  case (Cons x xs)
  show ?case unfolding fold_simps(2) Cons.IH unat_saturating_add min_add_min by (simp add: add.assoc)
qed

section \<open>The hook of the verifier\<close>

text \<open>The accesses that the hook owes for one dominator.\<close>

definition season_cost :: "db_weight \<Rightarrow> ('b, 'x) verifier_env_scheme \<Rightarrow> u32 \<Rightarrow> dominator \<Rightarrow> nat" where
  "season_cost R E now d =
     (if now = d_start_from d then 0
      else unat (reads R 1) + (if (now - d_start_from d) mod SeasonDuration E = 0 then unat (writes R 1) else 0))"

lemma season_weight_cost:
  assumes "season_weight R E now p w = Inr w'"
  shows "unat w' = min (2 ^ 64 - 1) (unat w + season_cost R E now (snd p))"
proof -
  have "unat w \<le> 2 ^ 64 - 1" using unat_max [of w] by simp
  then show ?thesis using assms
    by (auto simp: season_weight_def season_cost_def Let_def res_simps unat_saturating_add split: prod.splits if_splits)
qed

lemma season_weights_cost:
  assumes "rfold (season_weight R E now) ps w = Inr w'"
  shows "unat w' = min (2 ^ 64 - 1) (unat w + (\<Sum>p\<leftarrow>ps. season_cost R E now (snd p)))"
  using assms
proof (induction ps arbitrary: w)
  case Nil
  have "unat w \<le> 2 ^ 64 - 1" using unat_max [of w] by simp
  with Nil show ?case by simp
next
  case (Cons p ps)
  then obtain w1 where w1: "season_weight R E now p w = Inr w1" "rfold (season_weight R E now) ps w1 = Inr w'"
    by (auto simp: res_simps)
  show ?case unfolding Cons.IH [OF w1(2)] season_weight_cost [OF w1(1)] min_add_min by (simp add: add.assoc)
qed

lemma season_weight_total:
  assumes "save_season E now p s = Inr s'"
  shows "\<exists>w'. season_weight R E now p w = Inr w'"
  using assms by (auto simp: save_season_def season_weight_def Let_def res_simps rem_u32_def split: prod.splits if_splits)

lemma season_weights_total:
  assumes "rfold (save_season E now) ps s = Inr s'"
  shows "\<exists>w'. rfold (season_weight R E now) ps w = Inr w'"
  using assms
proof (induction ps arbitrary: s w)
  case (Cons p ps)
  then obtain s1 where s1: "save_season E now p s = Inr s1" "rfold (save_season E now) ps s1 = Inr s'"
    by (auto simp: res_simps)
  obtain w1 where "season_weight R E now p w = Inr w1" using season_weight_total [OF s1(1)] by blast
  with Cons.IH [OF s1(2), of w1] show ?case by simp
qed simp

text \<open>
  C26: whenever the hook of the verifier succeeds it returns a weight. Off the check period that is nothing; on it,
  it is one read for every dominator that did not register in this very block, one write for every season
  that ends, two writes for every amount that is released and one for their removal, and the sum
  saturates instead of wrapping around.
\<close>

theorem hook_weight_exact:
  assumes "on_initialize E now s = Inr s'"
  shows "\<exists>w. on_initialize_weight R E now s = Inr w \<and>
    unat w = (if now mod DominatorCheckGracePeriod E \<noteq> 0 then 0
      else min (2 ^ 64 - 1)
        ((\<Sum>(a, d)\<leftarrow>Dominators s. season_cost R E now d)
          + length (PendingUnstakings s now) * unat (writes R 2) + unat (writes R 1)))"
proof (cases "now mod DominatorCheckGracePeriod E = 0")
  case False
  with assms show ?thesis by (auto simp: on_initialize_def on_initialize_weight_def rem_u32_def)
next
  case True
  with assms obtain s1 where g: "rem_u32 now (DominatorCheckGracePeriod E) = Inr 0"
    and s1: "rfold (save_season E now) (Dominators s) s = Inr s1"
    by (auto simp: on_initialize_def res_simps rem_u32_def split: if_splits)
  obtain w1 where w1: "rfold (season_weight R E now) (Dominators s) 0 = Inr w1"
    using season_weights_total [OF s1] by blast
  let ?w2 = "fold (\<lambda>_ w. saturating_add w (writes R 2)) (PendingUnstakings s now) w1"
  have "unat ?w2 = min (2 ^ 64 - 1) (unat w1 + length (PendingUnstakings s now) * unat (writes R 2))"
    using unat_saturating_adds [of "\<lambda>_. writes R 2" "PendingUnstakings s now" w1] by (simp add: sum_list_triv)
  then have "unat (saturating_add ?w2 (writes R 1)) = min (2 ^ 64 - 1)
      ((\<Sum>p\<leftarrow>Dominators s. season_cost R E now (snd p))
        + length (PendingUnstakings s now) * unat (writes R 2) + unat (writes R 1))"
    using season_weights_cost [OF w1] by (simp add: unat_saturating_add)
  with True show ?thesis by (simp add: on_initialize_weight_def g w1 case_prod_beta')
qed

section \<open>What a vote pays for\<close>

text \<open>Evaluations of evaluations of a proposal.\<close>

fun evals :: "nat \<Rightarrow> rt_call \<Rightarrow> rt_call" where
  "evals 0 p = p"
| "evals (Suc n) p = Bridge (Eval_vote_state 0 0 (evals n p))"

lemma evals_weight:
  "unat (info_weight (rt_info V R (evals n p))) = min (2 ^ 64 - 1) (unat (info_weight (rt_info V R p)) + n * 195000000)"
proof (induction n)
  case 0
  have "unat (info_weight (rt_info V R p)) \<le> 2 ^ 64 - 1" using unat_max [of "info_weight (rt_info V R p)"] by simp
  then show ?case by simp
next
  case (Suc n)
  show ?case by (simp add: carrier_info_def unat_saturating_add Suc.IH)
qed

lemma heavy_call: "\<exists>c. m \<le> info_weight (rt_info V R c)"
proof (intro exI)
  have "unat m \<le> 2 ^ 64 - 1" using unat_max [of m] by simp
  then show "m \<le> info_weight (rt_info V R (evals (unat m) (Assets (Call_mark_stable 0))))"
    unfolding word_le_nat_alt evals_weight by (simp add: plain_info_def)
qed

section \<open>Callbacks\<close>

text \<open>
  A callback is dispatched without being weighed. The revocation that stores it and the batch of
  proofs that runs it declare weights that do not depend on it, the batch pays no fee, and yet the
  callback has all its effects, however heavy the call is: there are calls of any weight.
\<close>

theorem callback_unweighed:
  assumes "rt_reachable E s" "rt_execute E (Signed d) (Verifier (Call_verify [p])) s = Inr s'"
    and "cmd p = TransferOut c v" "Receipts s (d, user_id p) = Some (RevokeWithCallback t a n cb)"
  shows "info_weight (rt_info V R (Verifier (Call_revoke_with_callback target t a cb))) = wi_revoke V \<and>
    info_weight (rt_info V R (Verifier (Call_verify [p]))) = wi_verify V \<and>
    info_pays (rt_info V R (Verifier (Call_verify [p]))) = Pays_No \<and>
    (\<exists>s1. Receipts s1 = (Receipts s)((d, user_id p) := None) \<and>
       (\<forall>s2. rt_execute E (Signed (user_id p)) cb s1 = Inr s2 \<longrightarrow>
          Reserves s' = Reserves s2 \<and> Receipts s' = Receipts s2 \<and> native s' = native s2)) \<and>
    (\<forall>m. \<exists>cb'. m \<le> info_weight (rt_info V R cb'))"
proof -
  obtain s1 u where s1: "Receipts s1 = (Receipts s)((d, user_id p) := None)"
    and cb: "caught (rt_execute E (Signed (user_id p)) cb s1) s1 = Inr u"
    and rest: "Reserves s' = Reserves u" "Receipts s' = Receipts u" "native s' = native u"
    using withdrawal_runs_callback [OF assms] by blast
  have "Reserves s' = Reserves s2 \<and> Receipts s' = Receipts s2 \<and> native s' = native s2"
    if "rt_execute E (Signed (user_id p)) cb s1 = Inr s2" for s2
    using cb rest that by (simp add: caught_def)
  then show ?thesis using s1 heavy_call by (auto simp: plain_info_def)
qed

text \<open>Accesses of 25 and 100 microseconds, as in RocksDB.\<close>

definition rocks :: db_weight where
  "rocks = \<lparr>reads = (\<lambda>n. saturating_mul 25000000 n), writes = (\<lambda>n. saturating_mul 100000000 n)\<rparr>"

lemma rocks_weights:
  "wi_verify (unit_weight rocks) = 8644000000" "wi_revoke (unit_weight rocks) = 200000000"
  by (simp_all add: unit_weight_def access_weight_def rocks_def saturating_add_def saturating_mul_def)

theorem callback_unweighed_witness:
  "rt_execute hdl_env (Signed bob) (Verifier (Call_verify [withdraw_bob])) r7 = Inr r8 \<and>
   info_weight (rt_info (unit_weight rocks) rocks (Verifier (Call_verify [withdraw_bob]))) = 8644000000 \<and>
   info_pays (rt_info (unit_weight rocks) rocks (Verifier (Call_verify [withdraw_bob]))) = Pays_No"
proof -
  have r: "Receipts r7 (bob, user_id withdraw_bob) =
      Some (RevokeWithCallback 0 30 150 (Verifier (Call_verify [deposit_alice])))"
    using sample_proofs(8) by (simp add: r_defs nested_batch_def)
  from callback_unweighed [OF r_reachable(1) r8_run sample_proofs(7) r, of "unit_weight rocks" rocks]
  show ?thesis using r8_run by (simp add: rocks_weights)
qed

theorem hook_weight_exact_witness:
  "\<exists>w. on_initialize_weight rocks vrf_env 57750 v5 = Inr w \<and> unat w = 425000000"
proof -
  have "\<exists>s'. on_initialize vrf_env 57750 v5 = Inr s'"
    by (simp add: on_initialize_def rem_u32_def div_u32_def v_run_defs save_season_def dominator_of_def)
  then obtain s' where "on_initialize vrf_env 57750 v5 = Inr s'" by blast
  from hook_weight_exact [OF this, of rocks]
  show ?thesis
    by (simp add: v_run_defs season_cost_def dominator_of_def rocks_def saturating_mul_def)
qed

section \<open>Votes against a proposal\<close>

text \<open>
  C24: a vote against a proposal executes it when the votes in favour have reached the threshold, which
  happens once the threshold is lowered after they were cast. The call then runs with all its effects,
  whereas the weight of the vote is fixed, as if a vote against never did that.
\<close>

theorem reject_executes:
  assumes "rt_reachable E s" "rt_execute E (Signed w) (Bridge (Reject_proposal nonce src rid p)) s = Inr s'"
    and "Votes s (src, nonce, p) = Some v" "unat (relayer_threshold s) \<le> length (votes_for v)"
  shows "\<exists>s1 s2. Votes s1 (src, nonce, p) = Some (v\<lparr>votes_against := votes_against v @ [w], pv_status := Approved\<rparr>) \<and>
      native s1 = native s \<and> Balances s1 = Balances s \<and>
      rt_execute E (Signed (bridge_account E)) p s1 = Inr s2 \<and>
      s' = deposit_event (BridgeEv (ProposalSucceeded src nonce)) s2 \<and>
      info_weight (rt_info V R (Bridge (Reject_proposal nonce src rid p))) = 1950000000"
proof -
  let ?disp = "\<lambda>cb w. rt_execute E (Signed w) cb"
  let ?v = "v\<lparr>votes_against := votes_against v @ [w]\<rparr>"
  let ?s = "(deposit_event (BridgeEv (VoteAgainst src nonce w)) s)\<lparr>Votes := (Votes s)((src, nonce, p) \<mapsto> ?v)\<rparr>"
  let ?s1 = "deposit_event (BridgeEv (ProposalApproved src nonce))
    (?s\<lparr>Votes := (Votes s)((src, nonce, p) \<mapsto> ?v\<lparr>pv_status := Approved\<rparr>)\<rparr>)"
  from assms(2) have "brg_dispatch E ?disp (Signed w) (Reject_proposal nonce src rid p) s = Inr s'"
    unfolding rt_execute_rec [OF rt_fin [OF assms(1)]] by simp
  then have "rbind (commit_vote E w nonce src p False s) (try_resolve_proposal E ?disp nonce src p) = Inr s'"
    by (auto simp: reject_proposal_def vote_against_def res_simps)
  then have "try_resolve_proposal E ?disp nonce src p ?s = Inr s'"
    using assms(3) by (auto simp: commit_vote_def Let_def res_simps deposit_event_def)
  moreover have "try_to_complete (relayer_threshold ?s) (RelayerCount ?s) ?v = (Approved, ?v\<lparr>pv_status := Approved\<rparr>)"
    using assms(4) by (simp add: try_to_complete_def relayer_threshold_def deposit_event_def)
  ultimately have "finalize_execution E ?disp src nonce p
      (?s\<lparr>Votes := (Votes s)((src, nonce, p) \<mapsto> ?v\<lparr>pv_status := Approved\<rparr>)\<rparr>) = Inr s'"
    by (auto simp: try_resolve_proposal_def Let_def res_simps)
  then obtain s2 where "rt_execute E (Signed (bridge_account E)) p ?s1 = Inr s2"
    "s' = deposit_event (BridgeEv (ProposalSucceeded src nonce)) s2"
    by (auto simp: finalize_execution_def res_simps)
  then show ?thesis by (intro exI [of _ ?s1] exI [of _ s2]) (simp add: deposit_event_def plain_info_def)
qed

text \<open>Of two relayers one votes for the payment, then the threshold is lowered to one, and the other votes against it.\<close>

definition half_approved :: proposal_votes where
  "half_approved = \<lparr>votes_for = [rel 1], votes_against = [], pv_status = Initiated, expiry = 200\<rparr>"

definition h1 :: "sample_bal rt_chain" where
  "h1 = r0\<lparr>ChainNonces := [1 \<mapsto> 0], Relayers := (\<lambda>_. False)(rel 1 := True, rel 2 := True), RelayerCount := 2,
     RelayerThreshold := Some 2, Resources := [tao_rid \<mapsto> [1]],
     events := map BridgeEv [ChainWhitelisted 1, RelayerAdded (rel 1), RelayerAdded (rel 2), RelayerThresholdChanged 2]\<rparr>"

definition h2 :: "sample_bal rt_chain" where
  "h2 = h1\<lparr>Votes := [(1, 0, pay) \<mapsto> half_approved], RelayerThreshold := Some 1,
     events := events h1 @ map BridgeEv [ProposalVote 1 (replicate 32 0) 0, VoteFor 1 0 (rel 1), RelayerThresholdChanged 1]\<rparr>"

definition h3 :: "sample_bal rt_chain" where
  "h3 = h2\<lparr>Votes := [(1, 0, pay) \<mapsto> half_approved\<lparr>votes_against := [rel 2], pv_status := Approved\<rparr>],
     native := sb_put bob (990, 0) (sb_put alice (1310, 0) (sb_put bridge_acc (700, 0) (native r0))),
     events := events h2 @ map BridgeEv [VoteAgainst 1 0 (rel 2), ProposalApproved 1 0, ProposalSucceeded 1 0]\<rparr>"

lemmas h_defs = h3_def h2_def h1_def r0_def half_approved_def

lemma rel_distinct: "rel 1 \<noteq> rel 2" "rel 2 \<noteq> rel 1" by (simp_all add: rel_def)

lemma h1_run:
  "rfold (\<lambda>c. rt_execute hdl_env Root (Bridge c))
     [Whitelist_chain 1, Set_resource tao_rid [1], Add_relayer (rel 1), Add_relayer (rel 2), Set_threshold 2] r0 = Inr h1"
  by (simp add: rt_execute_def whitelist_chain_def ensure_bridge_admin_def whitelist_def chain_whitelisted_def
      set_resource_def register_resource_def add_relayer_def register_relayer_def is_relayer_def set_threshold_def
      set_relayer_threshold_def h_defs deposit_event_def rel_distinct)

lemma h2_run:
  "rbind (rt_execute hdl_env (Signed (rel 1)) (Bridge (Acknowledge_proposal 0 1 tao_rid (replicate 32 0) pay)) h1)
     (rt_execute hdl_env Root (Bridge (Set_threshold 1))) = Inr h2"
  by (simp add: rt_execute_def acknowledge_proposal_def is_relayer_def chain_whitelisted_def resource_exists_def vote_for_def
      commit_vote_def default_votes_def is_complete_def is_expired_def hash_voted_def try_resolve_proposal_def
      try_to_complete_def relayer_threshold_def h_defs deposit_event_def set_threshold_def ensure_bridge_admin_def
      set_relayer_threshold_def)

lemma h3_run: "rt_execute hdl_env (Signed (rel 2)) (Bridge (Reject_proposal 0 1 tao_rid pay)) h2 = Inr h3"
proof -
  have fin: "fin_receipts h2" by (simp add: fin_receipts_def h_defs)
  let ?disp = "\<lambda>cb w. rt_execute hdl_env (Signed w) cb"
  let ?s = "h3\<lparr>native := native r0, events := butlast (events h3)\<rparr>"
  have "brg_dispatch hdl_env ?disp (Signed (rel 2)) (Reject_proposal 0 1 tao_rid pay) h2 =
      finalize_execution hdl_env ?disp 1 0 pay (h3\<lparr>native := native r0, events := butlast (butlast (events h3))\<rparr>)"
    by (simp add: reject_proposal_def is_relayer_def chain_whitelisted_def resource_exists_def vote_against_def
        commit_vote_def is_complete_def is_expired_def hash_voted_def try_resolve_proposal_def
        try_to_complete_def relayer_threshold_def h_defs deposit_event_def rel_distinct)
  moreover have "rt_execute hdl_env (Signed bridge_acc) pay ?s = Inr (h3\<lparr>events := butlast (events h3)\<rparr>)"
    by (simp add: rt_execute_def pay_def transfer_in_def is_native_resource_def decode_resource_id_def tao_rid_def do_unlock_def
        transfer_token_def sb_transfer_def authorize_native_def donate_def caught_def h_defs
        sb_put_def sb_free_def sb_reserved_def checked_add_def fun_eq_iff)
  ultimately show ?thesis unfolding rt_execute_rec [OF fin]
    by (simp add: finalize_execution_def h3_def deposit_event_def butlast_append)
qed

lemma h2_reachable: "rt_reachable hdl_env h2"
proof -
  have "rt_reachable hdl_env r0"
    by (rule rt_start) (simp add: rt_genesis_def vrf_genesis_def brg_genesis_def r0_def)
  then have "rt_reachable hdl_env h1"
    by (rule rfold_invariant [OF h1_run]) (rule rt_next [OF _ rt_extrinsic])
  with h2_run show ?thesis by (auto simp: res_simps intro: rt_next rt_extrinsic)
qed

theorem reject_executes_witness:
  "rt_reachable hdl_env h2 \<and> free_balance hdl_env h2 0 alice = 1000 \<and>
   (\<exists>s1 s2. free_balance hdl_env s1 0 alice = 1000 \<and> rt_execute hdl_env (Signed bridge_acc) pay s1 = Inr s2 \<and>
      native s2 = native h3 \<and> free_balance hdl_env h3 0 alice = 1310)"
proof -
  have v: "Votes h2 (1, 0, pay) = Some half_approved" "unat (relayer_threshold h2) \<le> length (votes_for half_approved)"
    by (simp_all add: h_defs relayer_threshold_def)
  have b: "bridge_account hdl_env = bridge_acc" "free_balance hdl_env h2 0 alice = 1000" "free_balance hdl_env h3 0 alice = 1310"
    by (simp_all add: h_defs free_balance_def sb_free_def sb_reserved_def sb_put_def)
  from reject_executes [OF h2_reachable h3_run v] obtain s1 s2 where
    s: "native s1 = native h2" "Balances s1 = Balances h2" "rt_execute hdl_env (Signed bridge_acc) pay s1 = Inr s2"
      "h3 = deposit_event (BridgeEv (ProposalSucceeded 1 0)) s2"
    using b(1) by metis
  have "free_balance hdl_env s1 0 alice = free_balance hdl_env h2 0 alice"
    using s(1) by (simp add: free_balance_def)
  moreover have "native s2 = native h3" unfolding s(4) by (simp add: deposit_event_def)
  ultimately show ?thesis using h2_reachable b s(3) by (intro conjI exI [of _ s1] exI [of _ s2]) simp_all
qed

end
