(* ===== verification/Fuso_Gateway.thy ===== *)
theory Fuso_Gateway
  imports Fuso_Agent_Props Fuso_Dominators_Props Fuso_Weights_Props
begin

text \<open>
  The agent pallet in front of the composed runtime: transactions that an Ethereum key signs reach every
  call of the runtime, between its blocks and ordinary extrinsics. The pallet takes a fee and counts the nonce
  before the call runs. What the runtime keeps, it keeps with them too.
\<close>

section \<open>Steps\<close>

inductive gw_step ::
  "('b, rt_call, 'k, 'x) agent_env_scheme \<Rightarrow> ('b, 'y) handler_env_scheme \<Rightarrow> 'b rt_chain \<Rightarrow> 'b rt_chain \<Rightarrow> bool"
  for EA E where
  gw_runtime: "rt_step E s s' \<Longrightarrow> gw_step EA E s s'"
| gw_external: "apply_external EA (\<lambda>c w. rt_execute E (Signed w) c) v s = Inr s' \<Longrightarrow> gw_step EA E s s'"

inductive gw_reachable ::
  "('b, rt_call, 'k, 'x) agent_env_scheme \<Rightarrow> ('b, 'y) handler_env_scheme \<Rightarrow> 'b rt_chain \<Rightarrow> bool" for EA E where
  gw_start: "rt_genesis s \<Longrightarrow> gw_reachable EA E s"
| gw_next: "gw_reachable EA E s \<Longrightarrow> gw_step EA E s s' \<Longrightarrow> gw_reachable EA E s'"

text \<open>Withdrawing a fee takes free balance only.\<close>

definition fees_spec :: "('b, 'w, 'k, 'x) agent_env_scheme \<Rightarrow> ('b, 'y) env_scheme \<Rightarrow> bool" where
  "fees_spec EA E \<longleftrightarrow> (\<forall>w v b b' u. bal_withdraw EA w v b = Inr b' \<longrightarrow> bal_reserved E b' u = bal_reserved E b u)"

text \<open>An external transaction is, for the invariants, at most three steps: the nonce, the fee, and an extrinsic.\<close>

definition charged :: "('b, 'y) env_scheme \<Rightarrow> 'b rt_chain \<Rightarrow> 'b rt_chain \<Rightarrow> bool" where
  "charged E s s1 \<longleftrightarrow> (\<exists>n b. s1 = s\<lparr>account_nonce := n, native := b\<rparr> \<and>
     (\<forall>u. bal_reserved E b u = bal_reserved E (native s) u))"

lemma external_elim:
  assumes "fees_spec EA E" "apply_external EA (\<lambda>c w. rt_execute E (Signed w) c) v s = Inr s'"
  obtains s1 s2 e where "charged E s s1" "s2 = s1 \<or> rt_step E s1 s2" "s' = deposit_event (AgentEv e) s2"
proof -
  let ?disp = "\<lambda>c w. rt_execute E (Signed w) c"
  let ?fin = "\<lambda>a tx s1. case ?disp tx a s1 of
       Inl e \<Rightarrow> e \<noteq> Panicked \<and> s' = deposit_event (AgentEv (ExternalTransactionExecuted a (Inl e))) s1
     | Inr s2 \<Rightarrow> s' = deposit_event (AgentEv (ExternalTransactionExecuted a (Inr ()))) s2"
  obtain a tx b s1 where fee: "if fee_of EA v = 0 then b = native s else bal_withdraw EA a (fee_of EA v) (native s) = Inr b"
    and s1: "s1 = s\<lparr>account_nonce := (account_nonce s)(a := account_nonce s a + 1), native := b\<rparr>" and fin: "?fin a tx s1"
    using apply_effect [OF assms(2)] by (elim exE conjE) (rule that)
  have "bal_reserved E b u = bal_reserved E (native s) u" for u
    using fee assms(1) by (auto simp: fees_spec_def split: if_splits)
  then have c: "charged E s s1" unfolding charged_def s1 by blast
  show thesis
  proof (cases "?disp tx a s1")
    case (Inl e)
    with fin show thesis using that [OF c, of s1] by auto
  next
    case (Inr s2)
    then have "rt_step E s1 s2" by (rule rt_extrinsic)
    with fin Inr show thesis using that [OF c, of s2] by auto
  qed
qed

section \<open>The charge and the event\<close>

lemma charged_inv:
  assumes "charged E s s1" "rt_inv E s"
  shows "rt_inv E s1"
proof -
  from assms(1) obtain n b where s1: "s1 = s\<lparr>account_nonce := n, native := b\<rparr>"
    and r: "\<And>u. bal_reserved E b u = bal_reserved E (native s) u" unfolding charged_def by blast
  have "vrf_inv E (s\<lparr>native := b\<rparr>)" by (rule inv_native) (use assms(2) r in \<open>simp_all add: rt_inv_def\<close>)
  then have "vrf_inv E s1" by (rule inv_inner) (simp add: s1 inner_def own_def)
  moreover have "outer s1 = outer s" by (simp add: s1)
  ultimately show ?thesis using assms(2) outerD(1) [of s1 s] fin_outer [of s1 s] bridge_inv_brg
    unfolding rt_inv_def by blast
qed

lemma charged_frame:
  assumes "charged E s s1"
  shows "ballots_evolve s s1" "evolves s s1"
proof -
  from assms obtain n b where s1: "s1 = s\<lparr>account_nonce := n, native := b\<rparr>" unfolding charged_def by blast
  show "ballots_evolve s s1" "evolves s s1" by (simp_all add: s1 evolve_votes evolves_dominators)
qed

lemma agent_event:
  assumes "rt_inv E s"
  shows "rt_inv E (deposit_event (AgentEv e) s)" "ballots_evolve s (deposit_event (AgentEv e) s)"
    "evolves s (deposit_event (AgentEv e) s)"
proof -
  let ?s = "deposit_event (AgentEv e) s"
  have "outer ?s = outer s" by simp
  then have "bridge_inv E ?s" "fin_receipts ?s"
    using assms bridge_inv_brg [OF _ outerD(1), of E s ?s] fin_outer [of ?s s] by (simp_all add: rt_inv_def)
  moreover have "vrf_inv E ?s" by (rule inv_inner) (use assms in \<open>simp_all add: rt_inv_def\<close>)
  ultimately show "rt_inv E ?s" by (simp add: rt_inv_def)
  show "ballots_evolve s ?s" "evolves s ?s" by (simp_all add: evolve_votes evolves_dominators)
qed

section \<open>Steps keep the invariant\<close>

definition keeps_all :: "('b, 'y) handler_env_scheme \<Rightarrow> 'b rt_chain \<Rightarrow> 'b rt_chain \<Rightarrow> bool" where
  "keeps_all E s s' \<longleftrightarrow> rt_inv E s' \<and> ballots_evolve s s' \<and> evolves s s'"

lemma keeps_all_trans: "keeps_all E s s1 \<Longrightarrow> keeps_all E s1 s2 \<Longrightarrow> keeps_all E s s2"
  unfolding keeps_all_def using ballots_evolve_trans evolves_trans by metis

lemma rt_step_keeps:
  assumes "balances_spec E" "burn_spec E" "rt_inv E s" "rt_step E s s'"
  shows "keeps_all E s s'"
  using assms step_vrf_inv [OF assms(1,2) _ assms(4)] step_bridge_inv [OF _ assms(4)] step_fin_receipts [OF _ assms(4)]
    rt_step_evolves [OF assms(1,2) _ assms(4)]
  by (simp add: keeps_all_def rt_inv_def)

lemma gw_step_keeps:
  assumes "balances_spec E" "burn_spec E" "fees_spec EA E" "rt_inv E s" "gw_step EA E s s'"
  shows "keeps_all E s s'"
  using assms(5)
proof cases
  case gw_runtime
  then show ?thesis by (rule rt_step_keeps [OF assms(1,2,4)])
next
  case (gw_external v)
  obtain s1 s2 e where c: "charged E s s1" and step: "s2 = s1 \<or> rt_step E s1 s2" and s': "s' = deposit_event (AgentEv e) s2"
    by (rule external_elim [OF assms(3) gw_external])
  have k1: "keeps_all E s s1" unfolding keeps_all_def using charged_inv [OF c assms(4)] charged_frame [OF c] by blast
  then have "rt_inv E s1" by (simp add: keeps_all_def)
  with step have k2: "keeps_all E s s2" using k1 keeps_all_trans rt_step_keeps [OF assms(1,2)] by blast
  then have "keeps_all E s2 s'" unfolding keeps_all_def s' using agent_event [of E s2 e] by blast
  with k2 show ?thesis by (rule keeps_all_trans)
qed

lemma gw_reachable_inv:
  assumes "balances_spec E" "burn_spec E" "fees_spec EA E" "gw_reachable EA E s"
  shows "rt_inv E s \<and> dominators_ok s"
  using assms(4)
proof (induction rule: gw_reachable.induct)
  case (gw_start s)
  then have "rt_reachable E s" by (rule rt_start)
  then show ?case using rt_reachable_inv rt_dominators_ok assms(1,2) by blast
next
  case (gw_next s s')
  then show ?case using gw_step_keeps [OF assms(1-3) _ gw_next.hyps(2)] by (auto simp: keeps_all_def evolves_def)
qed

lemma gw_steps_keep:
  assumes "balances_spec E" "burn_spec E" "fees_spec EA E" "rt_inv E s" "(gw_step EA E)\<^sup>*\<^sup>* s s'"
  shows "keeps_all E s s'"
  using assms(5)
proof (induction rule: rtranclp_induct)
  case base
  show ?case using assms(4) by (simp add: keeps_all_def evolve_votes evolves_dominators)
next
  case (step s1 s2)
  then have "rt_inv E s1" by (simp add: keeps_all_def)
  from keeps_all_trans [OF step.IH gw_step_keeps [OF assms(1-3) this step.hyps(2)]] show ?case .
qed

text \<open>
  C23: external transactions that the agent pallet takes are no way around the runtime. In every state that
  blocks, extrinsics and external transactions reach, whatever calls they carry, the ledger of the verifier is
  backed by reserved balances although fees are withdrawn; and from it on no dominator is lost, its total
  stays the sum of its stakings, an evicted one stays evicted, and a complete ballot stays as it is.
\<close>

theorem gateway_keeps_runtime:
  assumes "balances_spec E" "burn_spec E" "fees_spec EA E" "gw_reachable EA E s" "(gw_step EA E)\<^sup>*\<^sup>* s s'"
  shows "(\<Sum>(i, d)\<in>{(i, d). Reserves s' ((i, w, t), d) \<noteq> None}. unat (get_reserve s' ((i, w, t), d)))
      \<le> unat (reserved_balance E s' t w) \<and>
    (\<forall>d a n. Receipts s' (d, w) = Some (Authorize t a n) \<longrightarrow>
       a \<le> get_reserve s' ((RESERVE_FOR_AUTHORIZING_STASH, w, t), d)) \<and>
    (\<forall>d D. get_dominator s d = Some D \<longrightarrow> (\<exists>F. get_dominator s' d = Some F \<and> d_name F = d_name D \<and>
       d_staked F = msum stk_amount (\<lambda>a. Stakings s' (d, a)) \<and>
       (d_status D = DOMINATOR_EVICTED \<longrightarrow> d_status F = DOMINATOR_EVICTED))) \<and>
    (\<forall>k v. Votes s k = Some v \<longrightarrow> is_complete v \<longrightarrow> Votes s' k = Some v)"
proof -
  have "keeps_all E s s'"
    using gw_reachable_inv [OF assms(1-4)] gw_steps_keep [OF assms(1-3) _ assms(5)] by simp
  then have inv: "rt_inv E s'" and ev: "ballots_evolve s s'" "evolves s s'" by (simp_all add: keeps_all_def)
  from inv have v: "solvent E s'" "staking_inv E s'" by (simp_all add: rt_inv_def vrf_inv_def)
  have "\<exists>F. get_dominator s' d = Some F \<and> d_name F = d_name D \<and> d_staked F = msum stk_amount (\<lambda>a. Stakings s' (d, a)) \<and>
      (d_status D = DOMINATOR_EVICTED \<longrightarrow> d_status F = DOMINATOR_EVICTED)" if D: "get_dominator s d = Some D" for d D
  proof -
    obtain F where F: "get_dominator s' d = Some F" "d_name F = d_name D" "status_path (d_status D) (d_status F)"
      using evolvesD [OF ev(2) D] by metis
    with v(2) show ?thesis
      by (intro exI [of _ F]) (auto simp: staking_inv_def stakers_def status_path_def dominator_statuses)
  qed
  moreover have "Votes s' k = Some b" if "Votes s k = Some b" "is_complete b" for k b
    using ballots_evolveD [OF ev(1) that(1)] that(2) by metis
  ultimately show ?thesis using v(1) unfolding solvent_def receipts_backed_def booked_sum by blast
qed

text \<open>Alice, whose authorised and staked funds are reserved, pays 100 to Bob with an external transaction. Its weight
  is that of the runtime's tables, and its fee is 14.\<close>

definition gw_env :: "(sample_bal, rt_call, weight) agent_env" where
  "gw_env = env.extend (sample_env ())
     (agent_env.fields (\<lambda>(n, c). to_le_bytes 8 n) (\<lambda>(salt, net, addr). addr) (\<lambda>bs. bs) (\<lambda>bs. bs)
        (\<lambda>sig d. Some sig) (\<lambda>bs. bs) (\<lambda>bs. Some bs)
        (\<lambda>c. dispatch_info.truncate (rt_info (unit_weight rocks) rocks c)) (\<lambda>_. 10)
        min (<) (\<lambda>k n. k div of_nat n) (\<lambda>k. k) (\<lambda>k. ucast k div 100000000) 1 1 500000000000
        (\<lambda>_. 125000000) 100 sb_burn)"

lemma gw_env_simps [simp]:
  "ecdsa_recover gw_env = (\<lambda>sig d. Some sig)" "keccak_256 gw_env = (\<lambda>bs. bs)" "hash_blake2_256 gw_env = (\<lambda>bs. bs)"
  "encode_identity gw_env = (\<lambda>(salt, net, addr). addr)" "decode_account gw_env = (\<lambda>bs. Some bs)"
  "get_dispatch_info gw_env = (\<lambda>c. dispatch_info.truncate (rt_info (unit_weight rocks) rocks c))" "encoded_size gw_env = (\<lambda>_. 10)"
  "weight_min gw_env = min" "weight_any_lt gw_env = (<)" "weight_div gw_env = (\<lambda>k n. k div of_nat n)"
  "WeightToFee gw_env = (\<lambda>k. ucast k div 100000000)" "TransactionByteFee gw_env = 1" "max_block gw_env = 500000000000"
  "base_extrinsic gw_env = (\<lambda>_. 125000000)" "max_normal_length gw_env = 100" "bal_withdraw gw_env = sb_burn"
  "ref_time gw_env = (\<lambda>k. k)"
  by (simp_all add: gw_env_def env.defs agent_env.defs sample_env_def)

definition alice_pays :: "rt_call external_verifiable" where
  "alice_pays = Ecdsa (Assets (Call_transfer 0 bob 100)) 0 (replicate 12 0 @ alice)"

definition r9 :: "sample_bal rt_chain" where
  "r9 = r8\<lparr>account_nonce := (\<lambda>_. 0)(alice := 1),
     native := ((\<lambda>_. (1000, 0))(alice := (886, 230), bob := (1100, 0)), 1986),
     events := events r8 @ [AgentEv (ExternalTransactionExecuted alice (Inr ()))]\<rparr>"

lemma pays_info:
  "rt_info (unit_weight rocks) rocks (Assets (Call_transfer 0 bob 100)) = plain_info 321780000"
  by (simp add: tok_transfer_weight_def access_weight_def rocks_def saturating_add_def saturating_mul_def)

lemma pays_fee: "extract_account gw_env alice_pays = Inr alice" "fee_of gw_env alice_pays = 14"
  by (simp_all add: alice_pays_def fee_of_def pays_info del: rt_info.simps)
    (simp add: plain_info_def dispatch_info.defs compute_fee_def weight_to_fee_def saturating_mul_def saturating_add_def)

lemma r9_run: "apply_external gw_env (\<lambda>c w. rt_execute hdl_env (Signed w) c) alice_pays r8 = Inr r9"
proof -
  let ?s1 = "r8\<lparr>account_nonce := (\<lambda>_. 0)(alice := 1), native := ((\<lambda>_. (1000, 0))(alice := (986, 230)), 1986)\<rparr>"
  have n8: "native r8 = ((\<lambda>_. (1000, 0))(alice := (1000, 230)), 2000)" "account_nonce r8 = (\<lambda>_. 0)"
    by (simp_all add: r_defs sb_put_def fun_eq_iff)
  have fee: "withdraw_fee gw_env alice 14 (inc_account_nonce alice r8) = Inr ?s1"
    by (simp add: withdraw_fee_def inc_account_nonce_def n8 sb_burn_def sb_free_def sb_reserved_def sb_put_def)
  have "\<exists>t. validate_unsigned gw_env (Submit alice_pays) r8 = Inr (t, ?s1)"
    using pays_fee fee
    by (simp add: validate_unsigned_def n8 Let_def fee_of_def alice_pays_def pays_info plain_info_def dispatch_info.defs
        del: rt_info.simps extract_account.simps)
  moreover have "rt_execute hdl_env (Signed alice) (Assets (Call_transfer 0 bob 100)) ?s1 =
      Inr (?s1\<lparr>native := ((\<lambda>_. (1000, 0))(alice := (886, 230), bob := (1100, 0)), 1986)\<rparr>)"
    by (simp add: rt_execute_def transfer_def transfer_token_def sb_transfer_def sb_free_def sb_reserved_def sb_put_def
        checked_add_def fun_eq_iff)
  then have "submit_external_tx gw_env (\<lambda>c w. rt_execute hdl_env (Signed w) c) NoOrigin alice_pays ?s1 = Inr r9"
    using pays_fee(1)
    by (simp add: submit_external_tx_def alice_pays_def caught_def deposit_event_def r9_def del: extract_account.simps)
  ultimately show ?thesis by (auto simp: apply_external_def)
qed

lemma gw_fees: "fees_spec gw_env hdl_env"
proof -
  have "bal_burn_from hdl_env = sb_burn"
    by (simp add: hdl_env_def vrf_env_def rwd_env_def tok_env_def bridge_env.defs handler_env.defs verifier_env.defs
        reward_env.defs token_env.defs env.defs sample_env_def)
  then show ?thesis using burn_hdl_env unfolding fees_spec_def burn_spec_def by auto
qed

lemma rt_gw_reachable: "rt_reachable E s \<Longrightarrow> gw_reachable EA E s"
  by (induction rule: rt_reachable.induct) (blast intro: gw_start gw_next gw_runtime)+

theorem gateway_keeps_runtime_witness:
  "gw_reachable gw_env hdl_env r9 \<and> reserved_balance hdl_env r9 0 alice = 230 \<and>
   (\<Sum>(i, d)\<in>{(i, d). Reserves r9 ((i, alice, 0), d) \<noteq> None}. unat (get_reserve r9 ((i, alice, 0), d))) \<le> 230 \<and>
   (\<exists>F. get_dominator r9 bob = Some F \<and> d_staked F = msum stk_amount (\<lambda>a. Stakings r9 (bob, a)))"
proof -
  have r8: "gw_reachable gw_env hdl_env r8" by (rule rt_gw_reachable [OF r_reachable(2)])
  have step: "gw_step gw_env hdl_env r8 r9" by (rule gw_external [OF r9_run])
  have r: "reserved_balance hdl_env r9 0 alice = 230" by (simp add: reserved_balance_def r9_def sb_reserved_def)
  have D: "get_dominator r8 bob = Some (bob_at 3 1)"
    by (simp add: r8_def get_dominator_def bob_at_def dominator_of_def)
  note all = gateway_keeps_runtime [OF spec_hdl_env(1) burn_hdl_env gw_fees r8
      r_into_rtranclp [where r = "gw_step gw_env hdl_env", OF step], of alice 0]
  from all r have "(\<Sum>(i, d)\<in>{(i, d). Reserves r9 ((i, alice, 0), d) \<noteq> None}. unat (get_reserve r9 ((i, alice, 0), d))) \<le> 230"
    by simp
  moreover from all D have "\<exists>F. get_dominator r9 bob = Some F \<and> d_staked F = msum stk_amount (\<lambda>a. Stakings r9 (bob, a))"
    by blast
  ultimately show ?thesis using r gw_next [OF r8 step] by blast
qed

end
