(* ===== verification/Fuso_Mock.thy ===== *)
theory Fuso_Mock
  imports Fuso_Bridge
begin

text \<open>
  The mock runtime of the bridge pallet, \<^verbatim>\<open>pallet-chainbridge/src/mock.rs\<close>: its configuration as a change of an
  arbitrary one, which keeps the functions of the pallets outside the repository, its first state and
  the set-up of relayers, chain and resource that its tests start from.
\<close>

section \<open>Accounts\<close>

definition RELAYER_A :: account where "RELAYER_A = replicate 32 2"
definition RELAYER_B :: account where "RELAYER_B = replicate 32 3"
definition RELAYER_C :: account where "RELAYER_C = replicate 32 4"
definition TREASURY :: account where "TREASURY = replicate 32 5"
definition TEST_THRESHOLD :: u32 where "TEST_THRESHOLD = 2"

lemma mock_accounts [simp]:
  "RELAYER_A \<noteq> RELAYER_B" "RELAYER_A \<noteq> RELAYER_C" "RELAYER_B \<noteq> RELAYER_C"
  "RELAYER_B \<noteq> RELAYER_A" "RELAYER_C \<noteq> RELAYER_A" "RELAYER_C \<noteq> RELAYER_B"
  by (simp_all add: RELAYER_A_def RELAYER_B_def RELAYER_C_def)

section \<open>Configuration\<close>

text \<open>\<^verbatim>\<open>EnsureSignedBy\<close> accepts the signed origins of the listed accounts.\<close>

definition sorted_members :: "account list" where "sorted_members = [TREASURY]"

fun ensure_signed_by :: "account list \<Rightarrow> origin \<Rightarrow> bool" where
  "ensure_signed_by ms (Signed w) = (w \<in> set ms)"
| "ensure_signed_by ms _ = False"

definition mock_token_config :: "('b, 'x) token_env_scheme \<Rightarrow> ('b, 'x) token_env_scheme" where
  "mock_token_config E = E\<lparr>token_admin := ensure_signed_by sorted_members, BnbChainId := 2,
     BurnTAOwhenIssue := 10000000000000000000, EthChainId := 1, NativeChainId := 42, NativeTokenId := 0,
     NearChainId := 255\<rparr>"

text \<open>The native resource is \<^verbatim>\<open>derive_resource_id(42, 0, "TAO").unwrap()\<close>.\<close>

definition mock_native_resource :: resource_id where
  "mock_native_resource = projr (derive_resource_id 42 0 [84, 65, 79])"

definition mock_bridge_config :: "('b, 'x) bridge_env_scheme \<Rightarrow> ('b, 'x) bridge_env_scheme" where
  "mock_bridge_config E = E\<lparr>bridge_admin := ensure_signed_by sorted_members, ThisChainId := 5,
     NativeResourceId := mock_native_resource, ProposalLifetime := 50, TreasuryAccount := replicate 32 5\<rparr>"

definition mock_config :: "('b, 'x) bridge_env_scheme \<Rightarrow> ('b, 'x) bridge_env_scheme" where
  "mock_config E = mock_bridge_config (mock_token_config E)"

lemma mock_config_simps [simp]:
  "bridge_admin (mock_config E) = ensure_signed_by sorted_members" "ThisChainId (mock_config E) = 5"
  "ProposalLifetime (mock_config E) = 50" "NativeResourceId (mock_config E) = mock_native_resource"
  "token_admin (mock_config E) = ensure_signed_by sorted_members" "bridge_account (mock_config E) = bridge_account E"
  by (simp_all add: mock_config_def mock_bridge_config_def mock_token_config_def)

section \<open>The first state and the set-up\<close>

text \<open>\<open>b\<close> is the state of the balances pallet after its genesis, which endows the account of the bridge.\<close>

definition new_test_ext :: "'b \<Rightarrow> ('b, 'c, 'p) bridge_chain" where
  "new_test_ext b = \<lparr>block_number = 1, account_nonce = (\<lambda>_. 0), events = [], native = b,
     Balances = Map.empty, Tokens = Map.empty, NextTokenId = 1,
     TokenByName = Map.empty, TokenByContract = Map.empty,
     Rewards = Map.empty, EraRewards = None, Volumes = (\<lambda>_. 0),
     OnChainPrices = (\<lambda>_. \<lparr>price = 0, recent_matched_amount = 0, recent_matched_vol = 0, updated_at = 0\<rparr>),
     Receipts = Map.empty, Dominators = [], DominatorSettings = Map.empty, Brokers = Map.empty,
     Reserves = Map.empty, Bonuses = (\<lambda>_. \<lparr>b_staked = 0, b_profit = []\<rparr>), Stakings = Map.empty,
     PendingUnstakings = (\<lambda>_. []),
     ChainNonces = Map.empty, RelayerThreshold = None, Relayers = (\<lambda>_. False), RelayerCount = 0,
     Votes = Map.empty, Resources = Map.empty\<rparr>"

text \<open>A failed \<^verbatim>\<open>assert_eq!\<close> panics, and so does \<^verbatim>\<open>assert_ok!\<close> on an error.\<close>

definition new_test_ext_initialized ::
  "('b, 'x) bridge_env_scheme \<Rightarrow> chain_id \<Rightarrow> resource_id \<Rightarrow> bytes \<Rightarrow> ('b, 'c, 'p, 'z) bridge_chain_scheme
    \<Rightarrow> ('b, 'c, 'p, 'z) bridge_chain_scheme result" where
  "new_test_ext_initialized E src_id r_id resource t =
     (let treasury = Signed (replicate 32 5)
      in rbind (set_threshold E treasury TEST_THRESHOLD t) (\<lambda>s.
         ensure (relayer_threshold s = TEST_THRESHOLD) Panicked (
         rbind (add_relayer E treasury RELAYER_A s) (\<lambda>s.
         rbind (add_relayer E treasury RELAYER_B s) (\<lambda>s.
         rbind (add_relayer E treasury RELAYER_C s) (\<lambda>s.
         rbind (whitelist_chain E treasury src_id s) (\<lambda>s.
         rbind (decode_resource_id r_id) (\<lambda>(chainid, _, contract).
         rbind (associate_token E treasury chainid contract 1 s) (\<lambda>s.
         rbind (set_resource E treasury r_id resource s) (\<lambda>s.
         ensure (resource_exists s r_id) Panicked (Inr s)))))))))))"

end
