(* ===== verification/Fuso_Mock_Props.thy ===== *)
theory Fuso_Mock_Props
  imports Fuso_Mock Fuso_Bridge_Props
begin

text \<open>
  The protocol of the bridge in its mock runtime, for every proposal, every source chain and every order of the three
  relayers: what the tests \<^verbatim>\<open>create_sucessful_proposal\<close> and \<^verbatim>\<open>create_unsucessful_proposal\<close> check on one call.
\<close>

definition mock_ready ::
  "'b \<Rightarrow> chain_id \<Rightarrow> resource_id \<Rightarrow> bytes \<Rightarrow> chain_id \<Rightarrow> bytes \<Rightarrow> ('b, 'c, 'p) bridge_chain" where
  "mock_ready b src rid res chain contr = (new_test_ext b)\<lparr>RelayerThreshold := Some 2,
     Relayers := (\<lambda>_. False)(RELAYER_A := True, RELAYER_B := True, RELAYER_C := True), RelayerCount := 3,
     ChainNonces := [src \<mapsto> 0], TokenByContract := [(chain, contr) \<mapsto> 1], Resources := [rid \<mapsto> res],
     events := map BridgeEv [RelayerThresholdChanged 2, RelayerAdded RELAYER_A, RelayerAdded RELAYER_B,
       RelayerAdded RELAYER_C, ChainWhitelisted src]\<rparr>"

lemma mock_setup:
  assumes "new_test_ext_initialized (mock_config E) src rid res (new_test_ext b) = Inr s"
  shows "\<exists>chain dex contr. src \<noteq> 5 \<and> decode_resource_id rid = Inr (chain, dex, contr) \<and>
    s = mock_ready b src rid res chain contr"
proof -
  have treasury: "ensure_signed_by sorted_members (Signed (replicate 32 5))" by (simp add: sorted_members_def TREASURY_def)
  from assms treasury show ?thesis
    by (auto simp: new_test_ext_initialized_def set_threshold_def set_relayer_threshold_def TEST_THRESHOLD_def
        add_relayer_def register_relayer_def is_relayer_def whitelist_chain_def whitelist_def chain_whitelisted_def
        associate_token_def set_resource_def register_resource_def resource_exists_def ensure_bridge_admin_def
        mock_ready_def new_test_ext_def deposit_event_def relayer_threshold_def Let_def res_simps
        split: if_splits)
qed

text \<open>The ballot after some votes; proposals of the first block live until block 51.\<close>

definition tally :: "account list \<Rightarrow> account list \<Rightarrow> proposal_status \<Rightarrow> proposal_votes" where
  "tally pro con st = \<lparr>votes_for = pro, votes_against = con, pv_status = st, expiry = 51\<rparr>"

lemma tally_simps [simp]:
  "votes_for (tally pro con st) = pro" "votes_against (tally pro con st) = con" "pv_status (tally pro con st) = st"
  "expiry (tally pro con st) = 51" "(tally pro con st)\<lparr>votes_for := xs\<rparr> = tally xs con st"
  "(tally pro con st)\<lparr>votes_against := xs\<rparr> = tally pro xs st" "(tally pro con st)\<lparr>pv_status := st'\<rparr> = tally pro con st'"
  by (simp_all add: tally_def)

lemma tally_open [simp]: "\<not> is_expired 1 (tally pro con st)"
  by (simp add: is_expired_def word_le_nat_alt)

text \<open>What the votes of a relayer do, on any state with the set-up of the mock in which the proposal is open.\<close>

definition mock_bridge_state :: "chain_id \<Rightarrow> resource_id \<Rightarrow> ('b, 'c, 'p, 'z) bridge_chain_scheme \<Rightarrow> bool" where
  "mock_bridge_state src rid s \<longleftrightarrow> block_number s = 1 \<and> RelayerThreshold s = Some 2 \<and> RelayerCount s = 3 \<and>
     (\<forall>w. Relayers s w \<longleftrightarrow> w \<in> {RELAYER_A, RELAYER_B, RELAYER_C}) \<and> ChainNonces s src \<noteq> None \<and> Resources s rid \<noteq> None"

definition ballot_of_votes :: "('b, 'c, 'p, 'z) bridge_chain_scheme \<Rightarrow> chain_id \<times> deposit_nonce \<times> 'p \<Rightarrow> proposal_votes" where
  "ballot_of_votes s k = (case Votes s k of None \<Rightarrow> tally [] [] Initiated | Some v \<Rightarrow> v)"

lemma mock_commit:
  assumes "mock_bridge_state src rid s" "ballot_of_votes s (src, n, p) = tally pro con Initiated" "w \<notin> set pro \<union> set con"
  shows "commit_vote (mock_config E) w n src p fav s =
    Inr ((deposit_event (BridgeEv (if fav then VoteFor src n w else VoteAgainst src n w)) s)\<lparr>Votes := (Votes s)((src, n, p) \<mapsto>
      (if fav then tally (pro @ [w]) con Initiated else tally pro (con @ [w]) Initiated))\<rparr>)"
proof -
  have v: "(case Votes s (src, n, p) of Some v \<Rightarrow> v
      | None \<Rightarrow> default_votes\<lparr>expiry := block_number s + ProposalLifetime (mock_config E)\<rparr>) = tally pro con Initiated"
    using assms(1,2)
    by (cases "Votes s (src, n, p)") (auto simp: ballot_of_votes_def mock_bridge_state_def default_votes_def tally_def)
  show ?thesis unfolding commit_vote_def Let_def v using assms(1,3)
    by (simp add: is_complete_def hash_voted_def mock_bridge_state_def deposit_event_def)
qed

lemma mock_resolve:
  assumes "mock_bridge_state src rid s" "Votes s (src, n, p) = Some (tally pro con Initiated)"
  shows "try_resolve_proposal E pd n src p s =
    (if 2 \<le> length pro then finalize_execution E pd src n p (s\<lparr>Votes := (Votes s)((src, n, p) \<mapsto> tally pro con Approved)\<rparr>)
     else if 3 < word_of_nat (length con) + (2 :: u32)
       then cancel_execution src n (s\<lparr>Votes := (Votes s)((src, n, p) \<mapsto> tally pro con Rejected)\<rparr>)
     else Inr s)"
  using assms by (simp add: try_resolve_proposal_def Let_def is_complete_def try_to_complete_def
      mock_bridge_state_def relayer_threshold_def fun_upd_idem)

section \<open>Casting votes\<close>

type_synonym ballot = "(account \<times> bool) list"

definition in_favour :: "ballot \<Rightarrow> account list" where "in_favour vs = map fst (filter snd vs)"
definition opposed :: "ballot \<Rightarrow> account list" where "opposed vs = map fst (filter (Not \<circ> snd) vs)"

lemma ballot_simps [simp]:
  "in_favour [] = []" "opposed [] = []"
  "in_favour (vs @ [(w, f)]) = (if f then in_favour vs @ [w] else in_favour vs)"
  "opposed (vs @ [(w, f)]) = (if f then opposed vs else opposed vs @ [w])"
  "in_favour ((w, f) # vs) = (if f then w # in_favour vs else in_favour vs)"
  "opposed ((w, f) # vs) = (if f then opposed vs else w # opposed vs)"
  by (simp_all add: in_favour_def opposed_def)

lemma voters: "set (in_favour vs) \<union> set (opposed vs) = fst ` set vs"
  by (auto simp: in_favour_def opposed_def)

lemma opposed_length: "length (opposed vs) \<le> length vs"
  by (simp add: opposed_def)

text \<open>Two votes decide.\<close>

definition decision :: "ballot \<Rightarrow> proposal_status" where
  "decision vs = (if 2 \<le> length (in_favour vs) then Approved else if 2 \<le> length (opposed vs) then Rejected else Initiated)"

fun cast_vote ::
  "('b, 'x) bridge_env_scheme
    \<Rightarrow> ('p \<Rightarrow> account \<Rightarrow> ('b, 'c, 'p, 'z) bridge_chain_scheme \<Rightarrow> ('b, 'c, 'p, 'z) bridge_chain_scheme result)
    \<Rightarrow> deposit_nonce \<Rightarrow> chain_id \<Rightarrow> resource_id \<Rightarrow> evm_hash \<Rightarrow> 'p \<Rightarrow> account \<times> bool
    \<Rightarrow> ('b, 'c, 'p, 'z) bridge_chain_scheme \<Rightarrow> ('b, 'c, 'p, 'z) bridge_chain_scheme result" where
  "cast_vote E pd n src rid h p (w, f) s =
     (if f then acknowledge_proposal E pd (Signed w) n src rid h p s
      else reject_proposal E pd (Signed w) n src rid p s)"

text \<open>The result of the last of some votes: the ballot is theirs with the decision above, no balance has moved yet,
  and an approved proposal is dispatched with the account of the bridge.\<close>

definition vote_outcome ::
  "('b, 'x) bridge_env_scheme
    \<Rightarrow> ('p \<Rightarrow> account \<Rightarrow> ('b, 'c, 'p, 'z) bridge_chain_scheme \<Rightarrow> ('b, 'c, 'p, 'z) bridge_chain_scheme result)
    \<Rightarrow> deposit_nonce \<Rightarrow> chain_id \<Rightarrow> 'p \<Rightarrow> 'b \<Rightarrow> ballot \<Rightarrow> ('b, 'c, 'p, 'z) bridge_chain_scheme result \<Rightarrow> bool" where
  "vote_outcome E pd n src p b vs r \<longleftrightarrow>
     (\<exists>t. native t = b \<and> Votes t = [(src, n, p) \<mapsto> tally (in_favour vs) (opposed vs) (decision vs)] \<and>
       r = (if decision vs = Approved
            then rbind (pd p (bridge_account E) t) (\<lambda>u. Inr (deposit_event (BridgeEv (ProposalSucceeded src n)) u))
            else Inr t))"

definition mock_open ::
  "chain_id \<Rightarrow> resource_id \<Rightarrow> deposit_nonce \<Rightarrow> 'p \<Rightarrow> 'b \<Rightarrow> ballot \<Rightarrow> ('b, 'c, 'p, 'z) bridge_chain_scheme \<Rightarrow> bool" where
  "mock_open src rid n p b vs s \<longleftrightarrow> mock_bridge_state src rid s \<and> native s = b \<and>
     Votes s = (if vs = [] then Map.empty else [(src, n, p) \<mapsto> tally (in_favour vs) (opposed vs) Initiated])"

lemma mock_keep:
  "mock_bridge_state src rid s \<Longrightarrow> mock_bridge_state src rid (deposit_event e s)"
  "mock_bridge_state src rid s \<Longrightarrow> mock_bridge_state src rid (s\<lparr>Votes := v\<rparr>)"
  by (simp_all add: mock_bridge_state_def deposit_event_def)

lemma few_opposed: "k \<le> 3 \<Longrightarrow> 3 < word_of_nat k + (2 :: u32) \<longleftrightarrow> 2 \<le> k"
proof -
  assume "k \<le> 3"
  then have "k = 0 \<or> k = 1 \<or> k = 2 \<or> k = 3" by linarith
  then show ?thesis by (elim disjE) simp_all
qed

text \<open>A vote of a relayer who has not voted yet, on an open ballot.\<close>

lemma mock_cast:
  fixes s :: "('b, 'c, 'p, 'z) bridge_chain_scheme" and E :: "('b, 'x) bridge_env_scheme" and f :: bool
  assumes "mock_open src rid n p b vs s" "w \<in> {RELAYER_A, RELAYER_B, RELAYER_C}" "w \<notin> fst ` set vs" "length vs \<le> 2"
  defines "k \<equiv> (src, n, p)" and "us \<equiv> vs @ [(w, f)]"
  shows "vote_outcome (mock_config E) pd n src p b us (cast_vote (mock_config E) pd n src rid h p (w, f) s)"
    and "decision us = Initiated \<Longrightarrow> \<exists>s'. cast_vote (mock_config E) pd n src rid h p (w, f) s = Inr s' \<and> mock_open src rid n p b us s'"
proof -
  have st: "mock_bridge_state src rid s" "native s = b"
    and vs: "Votes s = (if vs = [] then Map.empty else [k \<mapsto> tally (in_favour vs) (opposed vs) Initiated])"
    using assms(1) by (simp_all add: mock_open_def k_def)
  define pre where "pre = (if f then deposit_event (BridgeEv (ProposalVote src h n)) s else s)"
  define u where "u = deposit_event (BridgeEv (if f then VoteFor src n w else VoteAgainst src n w)) pre"
  define t where "t st = u\<lparr>Votes := [k \<mapsto> tally (in_favour us) (opposed us) st]\<rparr>" for st
  have pre: "mock_bridge_state src rid pre" "Votes pre = Votes s" using st(1) by (simp_all add: pre_def mock_keep)
  have "mock_bridge_state src rid (t st)" for st unfolding t_def u_def by (intro mock_keep pre)
  note tst = this
  have t: "native (t st) = b" "Votes (t st) = [k \<mapsto> tally (in_favour us) (opposed us) st]" for st
    using st(2) by (simp_all add: t_def u_def pre_def deposit_event_def)
  have bal: "ballot_of_votes pre (src, n, p) = tally (in_favour vs) (opposed vs) Initiated"
    using vs pre(2) by (simp add: ballot_of_votes_def k_def)
  have "w \<notin> set (in_favour vs) \<union> set (opposed vs)" using assms(3) by (simp add: voters)
  from mock_commit [where E = E and fav = f, OF pre(1) bal this]
  have cm: "commit_vote (mock_config E) w n src p f pre = Inr (t Initiated)"
    using vs pre(2) by (simp add: t_def u_def us_def k_def)
  have open_now: "is_relayer s w" "chain_whitelisted s src" "resource_exists s rid"
    using st(1) assms(2) by (auto simp: mock_bridge_state_def is_relayer_def chain_whitelisted_def resource_exists_def)
  have "cast_vote (mock_config E) pd n src rid h p (w, f) s =
      rbind (commit_vote (mock_config E) w n src p f pre) (try_resolve_proposal (mock_config E) pd n src p)"
    using open_now by (simp add: acknowledge_proposal_def reject_proposal_def vote_for_def vote_against_def pre_def)
  also have "\<dots> = try_resolve_proposal (mock_config E) pd n src p (t Initiated)" by (simp add: cm)
  also have "\<dots> = (if 2 \<le> length (in_favour us) then finalize_execution (mock_config E) pd src n p (t Approved)
      else if 2 \<le> length (opposed us) then cancel_execution src n (t Rejected) else Inr (t Initiated))"
  proof -
    have "Votes (t Initiated) (src, n, p) = Some (tally (in_favour us) (opposed us) Initiated)"
      by (simp add: t(2) k_def)
    moreover have "length (opposed us) \<le> 3" using opposed_length [of us] assms(4) by (simp add: us_def)
    ultimately show ?thesis
      using mock_resolve [where E = "mock_config E" and pd = pd, OF tst] by (simp add: few_opposed t(2) k_def) (simp add: t_def k_def)
  qed
  finally have run: "cast_vote (mock_config E) pd n src rid h p (w, f) s = \<dots>" .
  let ?final = "if decision us = Approved then deposit_event (BridgeEv (ProposalApproved src n)) (t Approved)
    else if decision us = Rejected then deposit_event (BridgeEv (ProposalRejected src n)) (t Rejected) else t Initiated"
  have "native ?final = b" "Votes ?final = [k \<mapsto> tally (in_favour us) (opposed us) (decision us)]"
    using t by (auto simp: decision_def deposit_event_def)
  then show "vote_outcome (mock_config E) pd n src p b us (cast_vote (mock_config E) pd n src rid h p (w, f) s)"
    unfolding vote_outcome_def run
    by (intro exI [of _ ?final] conjI) (simp_all add: decision_def finalize_execution_def cancel_execution_def k_def)
  show "\<exists>s'. cast_vote (mock_config E) pd n src rid h p (w, f) s = Inr s' \<and> mock_open src rid n p b us s'"
    if "decision us = Initiated"
  proof -
    have "cast_vote (mock_config E) pd n src rid h p (w, f) s = Inr (t Initiated)"
      using that unfolding run decision_def by (auto split: if_splits)
    moreover have "mock_open src rid n p b us (t Initiated)"
      using tst t by (simp add: mock_open_def k_def us_def)
    ultimately show ?thesis by blast
  qed
qed

text \<open>
  C25: after the set-up of the mock runtime two of the three relayers decide on any proposal, in any order and
  whatever they vote. The first vote leaves the ballot open; a second one of the same kind decides, and after
  two votes of different kinds the third one does. A decision in favour dispatches exactly the proposed call with the
  account of the bridge as its origin, a decision against it dispatches nothing, and no balance moves
  but by that dispatch. Nobody else can vote.
\<close>

theorem two_of_three:
  fixes s :: "('b, 'c, 'p) bridge_chain" and E :: "('b, 'x) bridge_env_scheme"
  assumes "new_test_ext_initialized (mock_config E) src rid res (new_test_ext b) = Inr s"
    and "distinct [x, y, z]" "{x, y, z} = {RELAYER_A, RELAYER_B, RELAYER_C}"
  shows "\<exists>s1. cast_vote (mock_config E) pd n src rid h p (x, f) s = Inr s1 \<and>
    vote_outcome (mock_config E) pd n src p b [(x, f)] (Inr s1) \<and>
    vote_outcome (mock_config E) pd n src p b [(x, f), (y, g)] (cast_vote (mock_config E) pd n src rid h p (y, g) s1) \<and>
    (g \<noteq> f \<longrightarrow> (\<exists>s2. cast_vote (mock_config E) pd n src rid h p (y, g) s1 = Inr s2 \<and>
       vote_outcome (mock_config E) pd n src p b [(x, f), (y, g), (z, e)]
         (cast_vote (mock_config E) pd n src rid h p (z, e) s2))) \<and>
    (\<forall>w. w \<notin> {x, y, z} \<longrightarrow> cast_vote (mock_config E) pd n src rid h p (w, g) s1 = Inl (BridgeE MustBeRelayer))"
proof -
  obtain chain contr where s: "s = mock_ready b src rid res chain contr" using mock_setup [OF assms(1)] by blast
  have relayer: "w \<in> {RELAYER_A, RELAYER_B, RELAYER_C} \<longleftrightarrow> w \<in> {x, y, z}" for w using assms(3) by simp
  have d: "y \<noteq> x" "z \<noteq> x" "z \<noteq> y" using assms(2) by auto
  have "mock_open src rid n p b [] s"
    by (auto simp: s mock_ready_def new_test_ext_def mock_open_def mock_bridge_state_def)
  note first = mock_cast [where E = E and pd = pd and h = h and f = f, OF this, of x, unfolded relayer, simplified]
  have "decision [(x, f)] = Initiated" by (simp add: decision_def)
  with first(2) obtain s1 where s1: "cast_vote (mock_config E) pd n src rid h p (x, f) s = Inr s1"
    and o1: "mock_open src rid n p b [(x, f)] s1" by auto
  note second = mock_cast [where E = E and pd = pd and h = h and f = g, OF o1, of y, unfolded relayer, simplified, OF d(1)]
  have third: "\<exists>s2. cast_vote (mock_config E) pd n src rid h p (y, g) s1 = Inr s2 \<and>
      vote_outcome (mock_config E) pd n src p b [(x, f), (y, g), (z, e)] (cast_vote (mock_config E) pd n src rid h p (z, e) s2)"
    if "g \<noteq> f"
  proof -
    have "decision [(x, f), (y, g)] = Initiated" using that by (auto simp: decision_def)
    with second(2) obtain s2 where s2: "cast_vote (mock_config E) pd n src rid h p (y, g) s1 = Inr s2"
      and o2: "mock_open src rid n p b [(x, f), (y, g)] s2" by auto
    from mock_cast(1) [where E = E and pd = pd and h = h and f = e, OF o2, of z, unfolded relayer] d s2
    show ?thesis by auto
  qed
  have "cast_vote (mock_config E) pd n src rid h p (w, g) s1 = Inl (BridgeE MustBeRelayer)" if "w \<notin> {x, y, z}" for w
    using o1 that relayer [of w]
    by (auto simp: mock_open_def mock_bridge_state_def is_relayer_def acknowledge_proposal_def reject_proposal_def)
  with s1 first(1) second(1) third show ?thesis by (intro exI [of _ s1]) auto
qed

text \<open>Chain 1 with the resource \<open>remark\<close>, as in the tests; the proposal 5 does nothing.\<close>

definition remark_rid :: resource_id where
  "remark_rid = 6 # replicate 22 0 @ [114, 101, 109, 97, 114, 107] @ [0, 1, 0]"

definition idle :: "nat \<Rightarrow> account \<Rightarrow> (sample_bal, sample_cb, nat) bridge_chain \<Rightarrow> (sample_bal, sample_cb, nat) bridge_chain result" where
  "idle p w s = Inr s"

lemma mock_ready_run:
  "\<exists>s :: (sample_bal, sample_cb, nat) bridge_chain.
     new_test_ext_initialized (mock_config hdl_env) 1 remark_rid [83] (new_test_ext ((\<lambda>_. (0, 0)), 0)) = Inr s"
  by (simp add: new_test_ext_initialized_def set_threshold_def set_relayer_threshold_def TEST_THRESHOLD_def
      add_relayer_def register_relayer_def is_relayer_def whitelist_chain_def whitelist_def chain_whitelisted_def
      associate_token_def set_resource_def register_resource_def resource_exists_def ensure_bridge_admin_def
      new_test_ext_def deposit_event_def relayer_threshold_def sorted_members_def TREASURY_def
      decode_resource_id_def remark_rid_def try_get_asset_id_def)

theorem two_of_three_witness:
  "\<exists>s1 u :: (sample_bal, sample_cb, nat) bridge_chain.
     Votes s1 = [(1, 1, 5) \<mapsto> tally [RELAYER_A] [] Initiated] \<and>
     acknowledge_proposal (mock_config hdl_env) idle (Signed RELAYER_C) 1 1 remark_rid (replicate 32 0) 5 s1 = Inr u \<and>
     Votes u = [(1, 1, 5) \<mapsto> tally [RELAYER_A, RELAYER_C] [] Approved]"
proof -
  obtain s :: "(sample_bal, sample_cb, nat) bridge_chain" where
    s: "new_test_ext_initialized (mock_config hdl_env) 1 remark_rid [83] (new_test_ext ((\<lambda>_. (0, 0)), 0)) = Inr s"
    using mock_ready_run by blast
  have p: "distinct [RELAYER_A, RELAYER_C, RELAYER_B]" "{RELAYER_A, RELAYER_C, RELAYER_B} = {RELAYER_A, RELAYER_B, RELAYER_C}"
    by auto
  obtain s1 where r: "vote_outcome (mock_config hdl_env) idle 1 1 5 ((\<lambda>_. (0, 0)), 0) [(RELAYER_A, True)] (Inr s1)"
    "vote_outcome (mock_config hdl_env) idle 1 1 5 ((\<lambda>_. (0, 0)), 0) [(RELAYER_A, True), (RELAYER_C, True)]
       (cast_vote (mock_config hdl_env) idle 1 1 remark_rid (replicate 32 0) 5 (RELAYER_C, True) s1)"
    using two_of_three [OF s p, of idle 1 "replicate 32 0" 5 True True True] by blast
  from r(1) have v1: "Votes s1 = [(1, 1, 5) \<mapsto> tally [RELAYER_A] [] Initiated]"
    by (auto simp: vote_outcome_def decision_def)
  from r(2) obtain t where "Votes t = [(1, 1, 5) \<mapsto> tally [RELAYER_A, RELAYER_C] [] Approved]"
    "acknowledge_proposal (mock_config hdl_env) idle (Signed RELAYER_C) 1 1 remark_rid (replicate 32 0) 5 s1 =
      Inr (deposit_event (BridgeEv (ProposalSucceeded 1 1)) t)"
    by (auto simp: vote_outcome_def decision_def idle_def)
  with v1 show ?thesis by (intro exI [of _ s1] exI [of _ "deposit_event (BridgeEv (ProposalSucceeded 1 1)) t"])
    (simp add: deposit_event_def)
qed

end
