(* ===== verification/Spec2Isabelle.thy ===== *)
theory Spec2Isabelle
  imports Fuso_Token_Props Fuso_Reward_Props Fuso_Matching_Props Fuso_Verifier_Machine Fuso_Handler_Props
    Fuso_Foundation_Props Fuso_Agent_Props Fuso_Dominators_Props Fuso_Custody_Props Fuso_Rpc_Props
    Fuso_Gateway Fuso_Mock_Props
begin

text \<open>
  Verification of the pallets of \<^verbatim>\<open>fusotao-protocol\<close>, a Substrate chain on which the order books of
  off-chain exchanges (dominators) are settled.

  \<^bold>\<open>The program.\<close> The token pallet keeps balances of issued tokens beside the native coin of
  \<^verbatim>\<open>pallet_balances\<close>. Users authorise tokens to a dominator through the verifier pallet, which
  reserves them; the dominator submits proofs (commands with the touched leaves of a sparse Merkle tree),
  and the verifier checks each command, moves the balances and advances the dominator's root. Stakers
  stake the native coin on dominators and share their fees by seasons. The reward pallet pays
  traders by volume and era, the indicator pallet keeps prices. The bridge pallet lets relayers vote
  on calls from other chains, the bridge handler locks, burns, unlocks and mints tokens for it and
  charges a fee by the indicator's price; a deposit may be authorised to a dominator at once. The
  foundation pallet unlocks funds by schedule, the agent pallet executes transactions that are signed with
  Ethereum keys.

  \<^bold>\<open>Theories and sources\<close> (paths under \<^verbatim>\<open>src/\<close>; a definition has the name of the Rust item it models
  where Isabelle allows it).
  \<^item> \<open>Fuso_Prelude\<close>: results, checked and saturating arithmetic on words, little-endian bytes, sums over
    storage maps. \<open>Fuso_Support\<close>: \<^verbatim>\<open>fuso-support\<close> and the platform: errors and events of all
    pallets, origins, the system state, resource identifiers. \<open>Fuso_Balances\<close>: what is assumed of
    \<^verbatim>\<open>pallet_balances\<close> and \<^verbatim>\<open>sp_arithmetic\<close>, with a concrete instance; \<open>Fuso_Samples\<close>: shared
    sample data.
  \<^item> \<open>Fuso_Token\<close>: \<^verbatim>\<open>pallet-fuso-token/src/lib.rs\<close>. \<open>Fuso_Token_Laws\<close>: effects of its operations, its step
    relation (every call and every trait method that writes, each with its drift, the amount by which it moves the balances
    away from the issuance) and supply invariant, and the locale \<open>reservable_token\<close> (the contract of the trait
    ReservableToken), interpreted on the pallet. \<open>Fuso_Token_Props\<close>: its properties.
  \<^item> \<open>Fuso_Reward\<close>, \<open>Fuso_Indicator\<close>, \<open>Fuso_Reward_Props\<close>: \<^verbatim>\<open>pallet-fuso-reward\<close> and
    \<^verbatim>\<open>pallet-fuso-indicator\<close>.
  \<^item> \<open>Fuso_Verifier_Data\<close> (types, storage, leaf decoders), \<open>Fuso_Matching\<close> (verify_ask_limit,
    verify_bid_limit, verify_cancel and the transfer checks, each long check cut into the definitions of
    its consecutive parts), \<open>Fuso_Verifier\<close> (reserves, seasons, staking, authorisations, proofs, calls,
    the block hook): \<^verbatim>\<open>pallet-fuso-verifier/src/lib.rs\<close>. \<open>Fuso_Matching_Props\<close>: conservation and panic
    freedom of the order checks, and the leaves of an order that wraps around. \<open>Fuso_Verifier_Laws\<close>: the locale \<open>custodian\<close> (what the pallet needs of
    the token pallet), interpreted on it, and the effect of the reserve operations on the ledger.
    \<open>Fuso_Verifier_Inv\<close>, \<open>Fuso_Verifier_Steps\<close>: every operation keeps the invariant; the step
    relation \<open>vrf_step\<close>. \<open>Fuso_Verifier_Sample\<close>: a concrete run. \<open>Fuso_Verifier_Props\<close>,
    \<open>Fuso_Verifier_Machine\<close>: the properties, the status machine of dominators and the chain of roots.
  \<^item> \<open>Fuso_Bridge\<close>: \<^verbatim>\<open>pallet-chainbridge/src/lib.rs\<close>. \<open>Fuso_Handler\<close>:
    \<^verbatim>\<open>pallet-chainbridge-handler/src/lib.rs\<close>. \<open>Fuso_Bridge_Laws\<close>: the invariant, the step relation
    \<open>brg_step\<close> and the locales \<open>proposal_runner\<close> and \<open>framed_runner\<close> (what the bridge needs of the
    calls that it dispatches), interpreted on the calls of the handler. \<open>Fuso_Bridge_Props\<close>: the
    refinement of vote lists to abstract ballots, the tally and the nonces. The invariant includes that the log holds one
    approval for each approved call.
    \<open>Fuso_Handler_Props\<close>: fees, effects, panics and resource identifiers.
  \<^item> \<open>Fuso_Foundation\<close>, \<open>Fuso_Foundation_Props\<close>: \<^verbatim>\<open>pallet-fuso-foundation/src/lib.rs\<close> and its schedule in closed
    form. \<open>Fuso_Agent\<close>, \<open>Fuso_Agent_Props\<close>: \<^verbatim>\<open>pallet-fuso-agent/src/lib.rs\<close>, charging and replay.
  \<^item> \<open>Fuso_Runtime\<close>: the composition of the pallets in \<^verbatim>\<open>pallet-chainbridge-handler/src/mock.rs\<close>, where callbacks
    and proposals are calls of the runtime (but with the indicator and reward pallets, which that mock stubs), with its dispatcher, step relation and reachable states.
    \<open>Fuso_Runtime_Laws\<close>: the locale \<open>callback_walk\<close> (what a batch of proofs needs of the callbacks that it
    runs). \<open>Fuso_Runtime_Inv\<close>: the calls keep the invariants of the verifier and of the bridge, with the
    interpretation of \<open>proposal_runner\<close> on them. \<open>Fuso_Runtime_Term\<close>: the weight of calls and receipts, the
    interpretation of \<open>callback_walk\<close>, termination. \<open>Fuso_Runtime_Sample\<close>: a run with a batch inside a batch.
    \<open>Fuso_Runtime_Props\<close>, \<open>Fuso_Dominators_Props\<close>: the properties. \<open>Fuso_Custody_Props\<close>: isolation of
    dominators from each other, the report of pending shares against the claim, and the settlement of an order that
    creates currency.
  \<^item> \<open>Fuso_Rpc\<close>: \<^verbatim>\<open>rpc/src\<close> (\<^verbatim>\<open>lib.rs\<close>, \<^verbatim>\<open>broker.rs\<close>, \<^verbatim>\<open>prover.rs\<close>), the server of a node.
    \<open>Fuso_Rpc_Props\<close>: it reads what the verifier pallet stores.
  \<^item> \<open>Fuso_Weights\<close>: the weight tables (\<^verbatim>\<open>pallet-fuso-verifier/src/weights.rs\<close>, \<^verbatim>\<open>pallet-fuso-token/src/weights.rs\<close>),
    the dispatch information of the calls of the runtime and the weights that the block hooks return.
    \<open>Fuso_Weights_Props\<close>: the weight of the hook is that of its loops; a callback, and a proposal that a vote against
    executes, are not weighed. \<open>Fuso_Gateway\<close>: the agent pallet in front of the composed runtime, with its own step
    relation \<open>gw_step\<close>.
  \<^item> \<open>Fuso_Mock\<close>, \<open>Fuso_Mock_Props\<close>: the mock runtime of the bridge (\<^verbatim>\<open>pallet-chainbridge/src/mock.rs\<close>), in which two of
    three relayers decide.

  \<^bold>\<open>State and effects.\<close> Each pallet's storage is a record that extends that of the pallets it uses
  (system, token, reward, indicator, verifier, bridge, handler; the foundation and the agent extend the
  system), and its configuration extends theirs in the same way. An operation takes the configuration and the
  state and returns an error or the new state; an error discards the writes, as the storage
  transaction around every call does, and where the code catches an error of a transactional
  operation the state before it is kept. A panic is the error \<open>Panicked\<close>. Machine integers are words of
  their width: plain arithmetic wraps around, as in the release profile, and checked operations fail. A storage
  map that is only looked up is a function to options; one that is iterated is an association list in the order of
  the iteration. The list of events only grows: it is the log of the whole chain.

  \<^bold>\<open>Parameters.\<close> Code outside the repository is an argument: the balances pallet, the fixed-point types,
  account lookup, hashing, signatures, compression, SCALE decoding, the sparse Merkle tree verifier,
  the costs of database accesses, the admin origins, and the dispatch and weight of external transactions, which
  the composed runtime provides in \<open>Fuso_Gateway\<close>. The dispatch of callbacks and proposals
  is an argument of the verifier and of the bridge, as it is a type parameter of their configurations, and the composed
  runtime provides it. For the server the storage and runtime interface of the client and the keystore
  are arguments. The properties that rely on documented behaviour name it (\<open>balances_spec\<close>, \<open>burn_spec\<close>,
  \<open>arith_spec\<close>, \<open>calm\<close>, \<open>keeps\<close>, \<open>fees_spec\<close>, \<open>scale_spec\<close>, \<open>exposes\<close>, \<open>serves\<close>), and every witness
  runs in a concrete environment that satisfies it. \<open>balances_spec\<close> covers an existential deposit of at most one
  unit: what happens when the balances pallet reaps an account with less than a larger deposit, as in the mock
  runtimes, is not covered. The type of nonces is a parameter of the code and 64 bits wide in the model.

  \<^bold>\<open>Properties.\<close> Conservation of every issued token, with the exact drift of the operations that do not conserve it, and of
  the trades in an accepted order, modulo \<open>2 ^ 128\<close> and exactly without an overflow; solvency of the verifier's
  ledger, exact staking totals, release of unstaked funds, recovery from evicted dominators and
  the chain of roots; bounds of rewards and single payment; the refinement of bridge votes,
  consecutive deposit nonces, the decision of two out of three relayers in any order; effects of transfers into and out of the
  chain; the vesting schedule; charging of external transactions, and the only way to apply one twice; round trips of
  reserve and unreserve, mint and burn, leaf keys and resource identifiers. Of the composed runtime: termination of
  nested dispatch, solvency, final decisions of the relayers, single execution of proposals and well-formed dominators with final
  evictions under arbitrary callbacks and proposals, all of which external transactions keep as well; the exact weight of the block hook. Of the server: it finds the endpoint that a dominator has set. Some properties state
  what the code does against its purpose: a transfer to oneself destroys tokens, unchecked
  arithmetic lets burns and orders create value, a rejected stash is lost, an identifier chosen by a user panics, the fee
  of a burn ignores the decimals of the token, the report of pending shares adds amounts of different tokens, a vote against a proposal
  may execute it, and a
  batch of proofs inside the callback of another one is lost from the chain of roots.

  \<^bold>\<open>Bounds.\<close> Every loop of the code runs over a finite list or range and is structural recursion or \<open>rfold\<close>. The one
  recursion through stored data, a call that dispatches callbacks and proposals, has a depth as fuel
  (\<open>rt_dispatch\<close>); \<open>rt_execute\<close> grants the weight of the call plus that of the callbacks in the receipts, which
  every nested dispatch lowers, since the receipt of a callback is gone before it runs. It is enough: more fuel changes
  nothing, and \<open>rt_execute\<close> is the only function that satisfies the recursion of the code (\<open>dispatch_terminates\<close>). Where a property needs a sum not to wrap around, the bound is a hypothesis of it: at most
  \<open>2 ^ 32\<close> relayers or blocks, \<open>2 ^ 64\<close> deposits, a bridging fee up to the default, which no call of
  the program changes.

  \<^bold>\<open>Not modelled.\<close> The benchmarks (\<^verbatim>\<open>benchmarking.rs\<close>), which are no part of the running program; the declarations
  of \<^verbatim>\<open>runtime-api\<close> and \<^verbatim>\<open>rpc/src/token.rs\<close>, which have no code; the wire format and the unused order events of the
  server; the trait declarations of \<^verbatim>\<open>fuso-support/src/traits.rs\<close>, whose implementations are modelled; the mock
  runtimes of single pallets other than the bridge, whose constants are parameters, the constants of that of the bridge
  handler, and the tests.
\<close>

end
